(* ===== verification/Prelude.thy ===== *)
theory Prelude
  imports Main "HOL-Library.Sublist" "HOL-Library.Multiset"
begin

text \<open>
  The shared vocabulary of the development: what the TypeScript sources use of the
  language's own strings, arrays and numbers, together with the facts about those
  operations that the component theories rest on.

  A JavaScript string is a \<^typ>\<open>string\<close>, one \<^typ>\<open>char\<close> per code unit. The alphabet is
  Latin-1 (code units 0 to 255); the few punctuation marks of the interface's texts that
  Latin-1 lacks are named below and sit on code points of the C1 control block, which no
  operation of the program treats specially, so every literal keeps its length.
  JavaScript's \<open>undefined\<close> and \<open>null\<close> are \<^const>\<open>None\<close>; a thrown exception is
  \<^const>\<open>Inl\<close> of a sum.
\<close>

named_theorems js_simps \<open>unfolding rules for the JavaScript library operations\<close>
named_theorems codec_simps \<open>facts the URL codecs' round trips rest on\<close>

section \<open>Characters\<close>

text \<open>Punctuation outside Latin-1, one code unit each.\<close>

definition ELLIPSIS :: string where "ELLIPSIS = [CHR 0x85]"
definition RSQUO :: string where "RSQUO = [CHR 0x92]"
definition LDQUO :: string where "LDQUO = [CHR 0x93]"
definition RDQUO :: string where "RDQUO = [CHR 0x94]"
definition EMDASH :: string where "EMDASH = [CHR 0x97]"
definition MINUS :: string where "MINUS = [CHR 0x96]"
definition ARROW :: string where "ARROW = [CHR 0x9D]"
definition MIDDOT :: string where "MIDDOT = [CHR 0xB7]"
definition TIMES :: string where "TIMES = [CHR 0xD7]"

definition NL :: char where "NL = CHR 0x0A"
definition CR :: char where "CR = CHR 0x0D"
definition DQ :: char where "DQ = CHR 0x22"
definition SQ :: char where "SQ = CHR 0x27"
definition BSLASH :: char where "BSLASH = CHR 0x5C"
definition BACKTICK :: char where "BACKTICK = CHR 0x60"

lemmas char_consts = NL_def CR_def DQ_def SQ_def BSLASH_def BACKTICK_def

text \<open>The class \<open>\s\<close> of regular expressions, which is also what \<open>trim\<close> removes.\<close>

definition is_space :: "char \<Rightarrow> bool" where
  "is_space c \<longleftrightarrow>
     c \<in> set [CHR 0x09, CHR 0x0A, CHR 0x0B, CHR 0x0C, CHR 0x0D, CHR 0x20, CHR 0xA0]"

definition is_digit :: "char \<Rightarrow> bool" where
  "is_digit c \<longleftrightarrow> (of_char c :: nat) \<ge> 48 \<and> (of_char c :: nat) \<le> 57"

definition is_lower :: "char \<Rightarrow> bool" where
  "is_lower c \<longleftrightarrow> (of_char c :: nat) \<ge> 97 \<and> (of_char c :: nat) \<le> 122"

definition is_upper :: "char \<Rightarrow> bool" where
  "is_upper c \<longleftrightarrow> (of_char c :: nat) \<ge> 65 \<and> (of_char c :: nat) \<le> 90"

text \<open>\<open>toLowerCase\<close> and \<open>toUpperCase\<close> over Latin-1: the ASCII letters and the accented
  ones; the multiplication and division signs have no case, and \<open>\<ss>\<close> upper-cases
  to two letters. (\<open>\<mu>\<close> and \<open>\<yen>\<close>-block letters whose upper case leaves Latin-1
  are kept as they are.)\<close>

definition lower_char :: "char \<Rightarrow> char" where
  "lower_char c = (let n = (of_char c :: nat) in
     if 65 \<le> n \<and> n \<le> 90 \<or> 192 \<le> n \<and> n \<le> 222 \<and> n \<noteq> 215 then char_of (n + 32) else c)"

definition upper_char :: "char \<Rightarrow> string" where
  "upper_char c = (let n = (of_char c :: nat) in
     if n = 223 then ''SS''
     else if 97 \<le> n \<and> n \<le> 122 \<or> 224 \<le> n \<and> n \<le> 254 \<and> n \<noteq> 247 then [char_of (n - 32)]
     else [c])"

definition toLowerCase :: "string \<Rightarrow> string" where
  "toLowerCase = map lower_char"

definition toUpperCase :: "string \<Rightarrow> string" where
  "toUpperCase s = concat (map upper_char s)"

lemma lower_char_idem [simp]: "lower_char (lower_char c) = lower_char c"
  by (auto simp: lower_char_def Let_def)

lemma toLowerCase_idem [simp]: "toLowerCase (toLowerCase s) = toLowerCase s"
  by (simp add: toLowerCase_def)

lemma toLowerCase_Nil [simp]: "toLowerCase [] = []"
  by (simp add: toLowerCase_def)

lemma toLowerCase_append [simp]: "toLowerCase (a @ b) = toLowerCase a @ toLowerCase b"
  by (simp add: toLowerCase_def)

lemma toLowerCase_eq_Nil [simp]: "toLowerCase s = [] \<longleftrightarrow> s = []"
  by (simp add: toLowerCase_def)

lemma length_toLowerCase [simp]: "length (toLowerCase s) = length s"
  by (simp add: toLowerCase_def)

section \<open>Trimming\<close>

definition trimStart :: "string \<Rightarrow> string" where
  "trimStart = dropWhile is_space"

definition trimEnd :: "string \<Rightarrow> string" where
  "trimEnd s = rev (dropWhile is_space (rev s))"

definition trim :: "string \<Rightarrow> string" where
  "trim s = trimEnd (trimStart s)"

lemmas trim_defs = trim_def trimStart_def trimEnd_def

text \<open>A string that \<open>trim\<close> leaves alone: empty, or bounded by non-spaces.\<close>

definition trimmed :: "string \<Rightarrow> bool" where
  "trimmed s \<longleftrightarrow> s = [] \<or> \<not> is_space (hd s) \<and> \<not> is_space (last s)"

lemma trim_Nil [simp]: "trim [] = []"
  by (simp add: trim_defs)

lemma trimEnd_snoc [simp]:
  "trimEnd (s @ [c]) = (if is_space c then trimEnd s else s @ [c])"
  by (simp add: trimEnd_def)

lemma trimEnd_Nil [simp]: "trimEnd [] = []"
  by (simp add: trimEnd_def)

lemma trimEnd_singleton [simp]: "trimEnd [c] = (if is_space c then [] else [c])"
  using trimEnd_snoc [of "[]" c] by simp

lemma last_trimEnd: "trimEnd s \<noteq> [] \<Longrightarrow> \<not> is_space (last (trimEnd s))"
  by (induction s rule: rev_induct) auto

lemma hd_trimEnd: "s \<noteq> [] \<Longrightarrow> \<not> is_space (hd s) \<Longrightarrow> trimEnd s \<noteq> [] \<and> hd (trimEnd s) = hd s"
proof (induction s rule: rev_induct)
  case Nil
  then show ?case by simp
next
  case (snoc c s)
  show ?case
  proof (cases "s = []")
    case True
    with snoc.prems show ?thesis by simp
  next
    case False
    with snoc show ?thesis by auto
  qed
qed

lemma hd_trimStart: "trimStart s \<noteq> [] \<Longrightarrow> \<not> is_space (hd (trimStart s))"
  unfolding trimStart_def by (rule hd_dropWhile)

lemma trim_trimmed [simp]: "trimmed (trim s)"
proof (cases "trimStart s = []")
  case True
  then show ?thesis by (simp add: trim_def trimmed_def)
next
  case False
  then have "\<not> is_space (hd (trimStart s))" by (rule hd_trimStart)
  with False have "trimEnd (trimStart s) \<noteq> [] \<and> hd (trimEnd (trimStart s)) = hd (trimStart s)"
    by (rule hd_trimEnd)
  with \<open>\<not> is_space (hd (trimStart s))\<close> show ?thesis
    using last_trimEnd [of "trimStart s"] by (simp add: trim_def trimmed_def)
qed

lemma trim_id: "trimmed s \<Longrightarrow> trim s = s"
proof -
  assume t: "trimmed s"
  show "trim s = s"
  proof (cases "s = []")
    case True
    then show ?thesis by simp
  next
    case False
    with t have h: "\<not> is_space (hd s)" and l: "\<not> is_space (last s)"
      by (auto simp: trimmed_def)
    from False h have "trimStart s = s"
      by (cases s) (auto simp: trimStart_def)
    moreover from False l have "trimEnd s = s"
      by (cases s rule: rev_cases) auto
    ultimately show ?thesis by (simp add: trim_def)
  qed
qed

lemma trim_idem [simp]: "trim (trim s) = trim s"
  by (rule trim_id) simp

lemma trim_no_space: "(\<forall>c \<in> set s. \<not> is_space c) \<Longrightarrow> trim s = s"
  by (rule trim_id) (auto simp: trimmed_def)

lemma trim_eq_Nil_iff: "trim s = [] \<longleftrightarrow> (\<forall>c \<in> set s. is_space c)"
proof
  assume a: "\<forall>c \<in> set s. is_space c"
  then have "trimStart s = []" by (simp add: trimStart_def)
  then show "trim s = []" by (simp add: trim_def)
next
  assume t: "trim s = []"
  have "trimStart s = []"
  proof (rule ccontr)
    assume n: "trimStart s \<noteq> []"
    with hd_trimStart [OF n] have "trimEnd (trimStart s) \<noteq> []"
      by (blast dest: hd_trimEnd)
    with t show False by (simp add: trim_def)
  qed
  then show "\<forall>c \<in> set s. is_space c" by (simp add: trimStart_def)
qed

lemma set_trim: "set (trim s) \<subseteq> set s"
proof -
  have "set (trimEnd x) \<subseteq> set x" for x
    by (auto simp: trimEnd_def dest: set_dropWhileD)
  moreover have "set (trimStart s) \<subseteq> set s"
    by (auto simp: trimStart_def dest: set_dropWhileD)
  ultimately show ?thesis unfolding trim_def by blast
qed

section \<open>Splitting and joining\<close>

text \<open>\<open>s.split(sep)\<close> for a separator of one character (or one of a class of
  characters): the pieces between the separators, the empty string giving one empty piece.\<close>

fun split_on :: "(char \<Rightarrow> bool) \<Rightarrow> string \<Rightarrow> string list" where
  "split_on p [] = [[]]"
| "split_on p (c # cs) =
     (if p c then [] # split_on p cs
      else (case split_on p cs of [] \<Rightarrow> [[c]] | w # ws \<Rightarrow> (c # w) # ws))"

fun join :: "'a list \<Rightarrow> 'a list list \<Rightarrow> 'a list" where
  "join sep [] = []"
| "join sep [x] = x"
| "join sep (x # y # ys) = x @ sep @ join sep (y # ys)"

lemma split_on_neq_Nil [simp]: "split_on p s \<noteq> []"
  by (induction s) (auto split: list.splits)

lemma split_on_none: "(\<forall>c \<in> set s. \<not> p c) \<Longrightarrow> split_on p s = [s]"
  by (induction s) auto

lemma split_on_append_sep:
  "(\<forall>c \<in> set w. \<not> p c) \<Longrightarrow> p c \<Longrightarrow> split_on p (w @ c # s) = w # split_on p s"
  by (induction w) auto

lemma split_on_pieces: "w \<in> set (split_on p s) \<Longrightarrow> c \<in> set w \<Longrightarrow> \<not> p c"
  by (induction s arbitrary: w) (fastforce split: if_splits list.splits)+

lemma set_split_on: "w \<in> set (split_on p s) \<Longrightarrow> set w \<subseteq> set s"
  by (induction s arbitrary: w) (fastforce split: if_splits list.splits)+

lemma join_Cons: "ws \<noteq> [] \<Longrightarrow> join sep (w # ws) = w @ sep @ join sep ws"
  by (cases ws) auto

lemma join_concat: "join sep (w # ws) = w @ concat (map (\<lambda>v. sep @ v) ws)"
  by (induction ws arbitrary: w) auto

text \<open>Splitting undoes joining with a separator no piece contains.\<close>

lemma split_on_join:
  "ws \<noteq> [] \<Longrightarrow> (\<forall>w \<in> set ws. \<forall>c \<in> set w. \<not> p c) \<Longrightarrow> p sep \<Longrightarrow>
     split_on p (join [sep] ws) = ws"
proof (induction ws)
  case Nil
  then show ?case by simp
next
  case (Cons w ws)
  show ?case
  proof (cases "ws = []")
    case True
    with Cons.prems show ?thesis by (simp add: split_on_none)
  next
    case False
    with Cons show ?thesis by (simp add: join_Cons split_on_append_sep)
  qed
qed

text \<open>The idiom \<open>text.split(sep).map(trim).filter(Boolean)\<close> of every list field.\<close>

definition split_list :: "(char \<Rightarrow> bool) \<Rightarrow> string \<Rightarrow> string list" where
  "split_list p s = filter (\<lambda>w. w \<noteq> []) (map trim (split_on p s))"

lemma split_list_items:
  assumes "w \<in> set (split_list p s)"
  shows "w \<noteq> []" and "trimmed w" and "\<forall>c \<in> set w. \<not> p c"
proof -
  from assms obtain v where v: "v \<in> set (split_on p s)" and w: "w = trim v" and "w \<noteq> []"
    by (auto simp: split_list_def)
  then show "w \<noteq> []" and "trimmed w" by simp_all
  show "\<forall>c \<in> set w. \<not> p c"
    using split_on_pieces [OF v] set_trim [of v] w by blast
qed

definition list_item :: "(char \<Rightarrow> bool) \<Rightarrow> string \<Rightarrow> bool" where
  "list_item p w \<longleftrightarrow> w \<noteq> [] \<and> trimmed w \<and> (\<forall>c \<in> set w. \<not> p c)"

lemma split_list_item: "w \<in> set (split_list p s) \<Longrightarrow> list_item p w"
  using split_list_items [of w p s] by (simp add: list_item_def)

lemma split_list_Nil [simp]: "split_list p [] = []"
  by (simp add: split_list_def)

lemma split_list_join:
  assumes "\<forall>w \<in> set ws. list_item p w" and "p sep"
  shows "split_list p (join [sep] ws) = ws"
proof (cases "ws = []")
  case True
  then show ?thesis by simp
next
  case False
  with assms have "split_on p (join [sep] ws) = ws"
    by (intro split_on_join) (auto simp: list_item_def)
  moreover have "map trim ws = ws"
    using assms(1) by (intro map_idI) (auto simp: list_item_def trim_id)
  moreover have "filter (\<lambda>w. w \<noteq> []) ws = ws"
    using assms(1) by (intro filter_True) (auto simp: list_item_def)
  ultimately show ?thesis by (simp add: split_list_def)
qed

section \<open>Defaults\<close>

text \<open>\<open>x ?? d\<close>, and \<open>x || d\<close> for strings and arrays' lengths.\<close>

definition orElse :: "'a option \<Rightarrow> 'a \<Rightarrow> 'a" where
  "orElse m d = (case m of None \<Rightarrow> d | Some x \<Rightarrow> x)"

lemma orElse_simps [simp]: "orElse None d = d" "orElse (Some x) d = x"
  by (simp_all add: orElse_def)

text \<open>\<open>if (text) object.key = text\<close>: an optional property that is left out when empty.\<close>

definition nonempty :: "'a list \<Rightarrow> 'a list option" where
  "nonempty xs = (if xs = [] then None else Some xs)"

lemma orElse_nonempty [simp]: "orElse (nonempty xs) [] = xs"
  by (simp add: nonempty_def)

lemma nonempty_Nil [simp]: "nonempty [] = None"
  by (simp add: nonempty_def)

lemma nonempty_eq_Some [simp]: "nonempty xs = Some ys \<longleftrightarrow> xs = ys \<and> ys \<noteq> []"
  by (auto simp: nonempty_def)

lemma nonempty_eq_None [simp]: "nonempty xs = None \<longleftrightarrow> xs = []"
  by (simp add: nonempty_def)

section \<open>Arrays\<close>

text \<open>\<open>Array.from(new Set(xs))\<close>: the first occurrence of every element, in order.\<close>

fun uniq :: "'a list \<Rightarrow> 'a list" where
  "uniq [] = []"
| "uniq (x # xs) = x # uniq (filter (\<lambda>y. y \<noteq> x) xs)"

lemma set_uniq [simp]: "set (uniq xs) = set xs"
  by (induction xs rule: uniq.induct) auto

lemma distinct_uniq [simp]: "distinct (uniq xs)"
  by (induction xs rule: uniq.induct) auto

lemma uniq_id: "distinct xs \<Longrightarrow> uniq xs = xs"
proof (induction xs)
  case Nil
  then show ?case by simp
next
  case (Cons x xs)
  then have "filter (\<lambda>y. y \<noteq> x) xs = xs" by (intro filter_True) auto
  with Cons show ?case by simp
qed

lemma uniq_idem [simp]: "uniq (uniq xs) = uniq xs"
  by (simp add: uniq_id)

lemma uniq_eq_Nil [simp]: "uniq xs = [] \<longleftrightarrow> xs = []"
  by (cases xs) auto

text \<open>\<open>xs.slice(0, n)\<close> and the last \<open>n\<close> elements.\<close>

definition lastn :: "nat \<Rightarrow> 'a list \<Rightarrow> 'a list" where
  "lastn n xs = drop (length xs - n) xs"

lemma length_lastn [simp]: "length (lastn n xs) = min n (length xs)"
  by (auto simp: lastn_def)

lemma lastn_short: "length xs \<le> n \<Longrightarrow> lastn n xs = xs"
  by (simp add: lastn_def)

lemma lastn_append_lastn: "lastn n (lastn n xs @ ys) = lastn n (xs @ ys)"
  by (cases "length xs \<le> n") (auto simp: lastn_def add.commute)

text \<open>\<open>xs.sort(cmp)\<close>, which is stable; \<open>le a b\<close> stands for \<open>cmp(a, b) <= 0\<close>.\<close>

fun insert_by :: "('a \<Rightarrow> 'a \<Rightarrow> bool) \<Rightarrow> 'a \<Rightarrow> 'a list \<Rightarrow> 'a list" where
  "insert_by le x [] = [x]"
| "insert_by le x (y # ys) = (if le x y then x # y # ys else y # insert_by le x ys)"

definition sort_by :: "('a \<Rightarrow> 'a \<Rightarrow> bool) \<Rightarrow> 'a list \<Rightarrow> 'a list" where
  "sort_by le xs = foldr (insert_by le) xs []"

lemma mset_insert_by [simp]: "mset (insert_by le x xs) = add_mset x (mset xs)"
  by (induction xs) auto

lemma mset_sort_by [simp]: "mset (sort_by le xs) = mset xs"
  by (induction xs) (auto simp: sort_by_def)

lemma set_sort_by [simp]: "set (sort_by le xs) = set xs"
  using mset_sort_by [of le xs] by (metis set_mset_mset)

lemma length_sort_by [simp]: "length (sort_by le xs) = length xs"
  using mset_sort_by [of le xs] by (metis size_mset)

lemma set_insert_by [simp]: "set (insert_by le x xs) = insert x (set xs)"
  by (induction xs) auto

lemma sorted_insert_by:
  assumes "transp le" and "\<And>x y. le x y \<or> le y x"
  shows "sorted_wrt le xs \<Longrightarrow> sorted_wrt le (insert_by le x xs)"
proof (induction xs)
  case (Cons y ys)
  then show ?case
    using assms transpD [OF assms(1)] by (auto intro: transpD [OF assms(1)])
qed simp

lemma sorted_sort_by:
  assumes "transp le" and "\<And>x y. le x y \<or> le y x"
  shows "sorted_wrt le (sort_by le xs)"
  by (induction xs) (simp_all add: sort_by_def sorted_insert_by [OF assms])

lemma sort_by_sorted: "sorted_wrt le xs \<Longrightarrow> sort_by le xs = xs"
proof (induction xs)
  case (Cons x xs)
  then have "foldr (insert_by le) xs [] = xs" by (simp add: sort_by_def)
  with Cons.prems show ?case by (cases xs) (simp_all add: sort_by_def)
qed (simp add: sort_by_def)

text \<open>\<open>xs.findIndex(p)\<close>, with \<^const>\<open>None\<close> for -1.\<close>

fun find_index :: "('a \<Rightarrow> bool) \<Rightarrow> 'a list \<Rightarrow> nat option" where
  "find_index p [] = None"
| "find_index p (x # xs) = (if p x then Some 0 else map_option Suc (find_index p xs))"

lemma find_index_Some:
  "find_index p xs = Some i \<Longrightarrow> i < length xs \<and> p (xs ! i) \<and> (\<forall>j < i. \<not> p (xs ! j))"
proof (induction xs arbitrary: i)
  case Nil
  then show ?case by simp
next
  case (Cons x xs)
  show ?case
  proof (cases "p x")
    case True
    with Cons.prems show ?thesis by auto
  next
    case False
    with Cons.prems obtain k where "find_index p xs = Some k" and "i = Suc k" by auto
    with Cons.IH [of k] False show ?thesis by (auto simp: less_Suc_eq_0_disj)
  qed
qed

lemma find_index_None: "find_index p xs = None \<longleftrightarrow> (\<forall>x \<in> set xs. \<not> p x)"
  by (induction xs) auto

section \<open>Substrings\<close>

definition startsWith :: "string \<Rightarrow> string \<Rightarrow> bool" where
  "startsWith s p \<longleftrightarrow> take (length p) s = p"

lemma startsWith_append [simp]: "startsWith (p @ s) p"
  by (simp add: startsWith_def)

lemma startsWith_Nil [simp]: "startsWith s []"
  by (simp add: startsWith_def)

lemma startsWith_iff: "startsWith s p \<longleftrightarrow> (\<exists>r. s = p @ r)"
  by (metis append_take_drop_id startsWith_append startsWith_def)

lemma startsWith_Cons [simp]: "startsWith (c # s) (d # p) \<longleftrightarrow> c = d \<and> startsWith s p"
  by (auto simp: startsWith_def)

lemma not_startsWith_Nil [simp]: "startsWith [] (d # p) \<longleftrightarrow> False"
  by (simp add: startsWith_def)

fun str_includes :: "string \<Rightarrow> string \<Rightarrow> bool" where
  "str_includes [] p = (p = [])"
| "str_includes (c # s) p = (startsWith (c # s) p \<or> str_includes s p)"

section \<open>Decimal numbers\<close>

definition digit_char :: "nat \<Rightarrow> char" where
  "digit_char d = char_of (48 + d)"

definition digit_val :: "char \<Rightarrow> nat" where
  "digit_val c = of_char c - 48"

text \<open>\<open>String(n)\<close> of a natural number, and \<open>Number(s)\<close> of a string of digits.\<close>

fun show_nat :: "nat \<Rightarrow> string" where
  "show_nat n = (if n < 10 then [digit_char n] else show_nat (n div 10) @ [digit_char (n mod 10)])"

declare show_nat.simps [simp del]

definition read_nat :: "string \<Rightarrow> nat" where
  "read_nat s = foldl (\<lambda>n c. 10 * n + digit_val c) 0 s"

definition show_int :: "int \<Rightarrow> string" where
  "show_int i = (if i < 0 then ''-'' @ show_nat (nat (- i)) else show_nat (nat i))"

definition all_digits :: "string \<Rightarrow> bool" where
  "all_digits s \<longleftrightarrow> s \<noteq> [] \<and> list_all is_digit s"

lemma of_char_digit_char: "d < 10 \<Longrightarrow> (of_char (digit_char d) :: nat) = 48 + d"
  by (simp add: digit_char_def)

lemma is_digit_digit_char [simp]: "d < 10 \<Longrightarrow> is_digit (digit_char d)"
  by (simp add: is_digit_def of_char_digit_char)

lemma digit_val_digit_char [simp]: "d < 10 \<Longrightarrow> digit_val (digit_char d) = d"
  by (simp add: digit_val_def of_char_digit_char)

lemma digit_not_space: "is_digit c \<Longrightarrow> \<not> is_space c"
  by (auto simp: is_digit_def is_space_def)

lemma show_nat_neq_Nil [simp]: "show_nat n \<noteq> []"
  by (subst show_nat.simps) simp

lemma all_digits_show_nat [simp]: "all_digits (show_nat n)"
proof (induction n rule: show_nat.induct)
  case (1 n)
  show ?case
  proof (cases "n < 10")
    case True
    then show ?thesis by (subst show_nat.simps) (simp add: all_digits_def)
  next
    case False
    with 1 have "all_digits (show_nat (n div 10))" by simp
    with False show ?thesis by (subst show_nat.simps) (simp add: all_digits_def)
  qed
qed

lemma read_nat_snoc: "read_nat (s @ [c]) = 10 * read_nat s + digit_val c"
  by (simp add: read_nat_def)

lemma read_show_nat [simp, codec_simps]: "read_nat (show_nat n) = n"
proof (induction n rule: show_nat.induct)
  case (1 n)
  show ?case
  proof (cases "n < 10")
    case True
    then show ?thesis by (subst show_nat.simps) (simp add: read_nat_def)
  next
    case False
    with 1 have "read_nat (show_nat (n div 10)) = n div 10" by simp
    with False show ?thesis
      by (subst show_nat.simps) (simp add: read_nat_snoc)
  qed
qed

lemma show_nat_inject [simp]: "show_nat m = show_nat n \<longleftrightarrow> m = n"
  using read_show_nat by metis

lemma show_nat_no_space: "c \<in> set (show_nat n) \<Longrightarrow> \<not> is_space c"
  using all_digits_show_nat [of n] by (auto simp: all_digits_def list_all_iff digit_not_space)

lemma trim_show_nat [simp, codec_simps]: "trim (show_nat n) = show_nat n"
  by (rule trim_no_space) (blast dest: show_nat_no_space)

section \<open>JSON strings\<close>

text \<open>\<open>JSON.stringify\<close> of a string: the two-character escapes, \<open>\u00XX\<close> for the other
  control characters, everything else as it is.\<close>

definition hex_digit :: "nat \<Rightarrow> char" where
  "hex_digit d = (if d < 10 then char_of (48 + d) else char_of (87 + d))"

definition json_char :: "char \<Rightarrow> string" where
  "json_char c = (let n = (of_char c :: nat) in
     if c = DQ then [BSLASH, DQ]
     else if c = BSLASH then [BSLASH, BSLASH]
     else if n = 8 then [BSLASH, CHR ''b'']
     else if n = 9 then [BSLASH, CHR ''t'']
     else if n = 10 then [BSLASH, CHR ''n'']
     else if n = 12 then [BSLASH, CHR ''f'']
     else if n = 13 then [BSLASH, CHR ''r'']
     else if n < 32 then [BSLASH] @ ''u00'' @ [hex_digit (n div 16), hex_digit (n mod 16)]
     else [c])"

definition json_string :: "string \<Rightarrow> string" where
  "json_string s = [DQ] @ concat (map json_char s) @ [DQ]"

end
