(* ===== verification/Filter_Text.thy ===== *)
theory Filter_Text
  imports Prelude
begin

text \<open>
  The filter text form of \<open>frontend/src/lib/filter-text.ts\<close>: the filter AST of the API, the
  tokenizer, the recursive-descent parser (class \<open>Parser\<close>) and the serializer, together
  with the AST helpers the query bar uses (\<open>andTerms\<close>, \<open>combineAnd\<close>, \<open>negate\<close>).

  The parser's index \<open>this.i\<close> is the list of tokens not consumed yet, so \<open>peek\<close> reads its
  head and \<open>next\<close> its tail; \<open>this.length\<close> is the parameter \<open>len\<close>. A thrown
  \<open>FilterSyntaxError\<close> is \<^const>\<open>Inl\<close>.
\<close>

section \<open>The filter AST\<close>

datatype BoolOp = And | Or

datatype FieldValueOp =
  Eq | Ne | Contains | Starts_with | Regex | Gt | Gte | Lt | Lte | Cidr

datatype FieldValuesOp = In | Not_in

datatype FieldExistsOp = Exists | Not_exists

datatype FilterExpr =
    BoolExpr BoolOp "FilterExpr list"
  | NotExpr FilterExpr
  | TextExpr string
  | FieldValueExpr FieldValueOp string string
  | FieldValuesExpr FieldValuesOp string "string list"
  | FieldExistsExpr FieldExistsOp string

section \<open>Errors and tokens\<close>

datatype FilterSyntaxError = FilterSyntaxError (err_message: string) (err_position: nat)

definition syntaxError :: "string \<Rightarrow> nat \<Rightarrow> FilterSyntaxError" where
  "syntaxError message position =
     FilterSyntaxError (message @ '' (at position '' @ show_nat (position + 1) @ '')'') position"

datatype TokenKind = KBare | KQuoted | KOp | KLparen | KRparen | KComma | KBang | KExists

record Token =
  tk_kind :: TokenKind
  tk_value :: string
  tk_pos :: nat

definition OPERATORS :: "string list" where
  "OPERATORS = [''!='', ''=~'', ''^='', ''>='', ''<='', ''='', ''~'', ''>'', ''<'']"

definition OP_TO_AST :: "(string \<times> FieldValueOp) list" where
  "OP_TO_AST =
     [(''='', Eq), (''!='', Ne), (''~'', Contains), (''^='', Starts_with), (''=~'', Regex),
      (''>'', Gt), (''>='', Gte), (''<'', Lt), (''<='', Lte)]"

definition AST_TO_OP :: "(FieldValueOp \<times> string) list" where
  "AST_TO_OP = map (\<lambda>(k, v). (v, k)) OP_TO_AST"

definition KEYWORDS :: "string list" where
  "KEYWORDS = [''and'', ''or'', ''not'', ''in'', ''cidr'']"

text \<open>The characters that end a bare word: \<open>[\s(),"=!~^<>:]\<close>.\<close>

definition delim :: "char \<Rightarrow> bool" where
  "delim c \<longleftrightarrow> is_space c \<or> c \<in> set [CHR ''('', CHR '')'', CHR '','', DQ, CHR ''='', CHR ''!'',
     CHR ''~'', CHR ''^'', CHR ''<'', CHR ''>'', CHR '':'']"

definition BARE_RE :: "string \<Rightarrow> bool" where
  "BARE_RE s \<longleftrightarrow> s \<noteq> [] \<and> list_all (\<lambda>c. \<not> delim c) s"

section \<open>The tokenizer\<close>

text \<open>The inner loop over a quoted string: \<open>i\<close> is the position of the next character,
  \<open>start\<close> that of the opening quote. The result is the text, the position after the
  closing quote and the input from there.\<close>

fun scan_quoted ::
  "nat \<Rightarrow> nat \<Rightarrow> string \<Rightarrow> string \<Rightarrow> FilterSyntaxError + (string \<times> nat \<times> string)" where
  "scan_quoted start i out [] = Inl (syntaxError ''unterminated quoted string'' start)"
| "scan_quoted start i out (ch # cs) =
     (if ch = BSLASH then
        (case cs of
           [] \<Rightarrow> Inl (syntaxError ''unterminated escape'' i)
         | nxt # cs' \<Rightarrow> scan_quoted start (i + 2) (out @ [nxt]) cs')
      else if ch = DQ then Inr (out, i + 1, cs)
      else scan_quoted start (i + 1) (out @ [ch]) cs)"

lemma scan_quoted_shorter:
  "scan_quoted start i out cs = Inr (v, j, rest) \<Longrightarrow> length rest < length cs"
  by (induction start i out cs rule: scan_quoted.induct)
    (auto split: if_splits list.splits)

lemma find_OPERATORS_nonempty: "List.find P OPERATORS = Some o1 \<Longrightarrow> o1 \<noteq> []"
  by (auto simp: OPERATORS_def split: if_splits)

text \<open>\<open>tokens.push\<close> in front of what the rest of the loop produces.\<close>

definition push_token ::
  "TokenKind \<Rightarrow> string \<Rightarrow> nat \<Rightarrow> FilterSyntaxError + Token list \<Rightarrow> FilterSyntaxError + Token list" where
  "push_token k v p r =
     (case r of Inl e \<Rightarrow> Inl e | Inr ts \<Rightarrow> Inr (\<lparr>tk_kind = k, tk_value = v, tk_pos = p\<rparr> # ts))"

text \<open>The main loop at position \<open>i\<close>, over the input from there on.\<close>

function tokenize_from :: "nat \<Rightarrow> string \<Rightarrow> FilterSyntaxError + Token list" where
  "tokenize_from i [] = Inr []"
| "tokenize_from i (c # cs) =
     (if is_space c then tokenize_from (i + 1) cs
      else if c = CHR ''('' then push_token KLparen [c] i (tokenize_from (i + 1) cs)
      else if c = CHR '')'' then push_token KRparen [c] i (tokenize_from (i + 1) cs)
      else if c = CHR '','' then push_token KComma [c] i (tokenize_from (i + 1) cs)
      else if c = CHR '':'' \<and> startsWith cs ''*''
        then push_token KExists '':*'' i (tokenize_from (i + 2) (drop 1 cs))
      else if c = DQ then
        (case scan_quoted i (i + 1) [] cs of
           Inl e \<Rightarrow> Inl e
         | Inr (v, j, rest) \<Rightarrow> push_token KQuoted v i (tokenize_from j rest))
      else
        (case List.find (startsWith (c # cs)) OPERATORS of
           Some opr \<Rightarrow>
             push_token KOp opr i (tokenize_from (i + length opr) (drop (length opr) (c # cs)))
         | None \<Rightarrow>
             if c = CHR ''!'' then push_token KBang [c] i (tokenize_from (i + 1) cs)
             else
               (let w = takeWhile (\<lambda>x. \<not> delim x) (c # cs) in
                if w = [] then Inl (syntaxError (''unexpected character '' @ json_string [c]) i)
                else push_token KBare w i
                       (tokenize_from (i + length w) (drop (length w) (c # cs))))))"
  by pat_completeness auto
termination
proof (relation "measure (\<lambda>(i, s). length s)", goal_cases)
  case (7 i c cs r p v j rest)
  then show ?case using scan_quoted_shorter by fastforce
next
  case (10 i c cs opr)
  then have "opr \<noteq> []" using find_OPERATORS_nonempty by blast
  then show ?case by (cases opr) auto
next
  case (9 i c cs w)
  then show ?case by (cases w) auto
qed auto

definition tokenize :: "string \<Rightarrow> FilterSyntaxError + Token list" where
  "tokenize input = tokenize_from 0 input"

section \<open>The parser\<close>

definition isKeyword :: "Token \<Rightarrow> string \<Rightarrow> bool" where
  "isKeyword t kw \<longleftrightarrow> tk_kind t = KBare \<and> toLowerCase (tk_value t) = kw"

definition is_word :: "Token \<Rightarrow> bool" where
  "is_word t \<longleftrightarrow> tk_kind t = KBare \<or> tk_kind t = KQuoted"

text \<open>\<open>flatten\<close> splices the arguments of a nested operator of the same kind.\<close>

definition flatten_arg :: "BoolOp \<Rightarrow> FilterExpr \<Rightarrow> FilterExpr list" where
  "flatten_arg op a = (case a of BoolExpr op' as \<Rightarrow> if op' = op then as else [a] | _ \<Rightarrow> [a])"

definition flatten :: "BoolOp \<Rightarrow> FilterExpr list \<Rightarrow> FilterExpr" where
  "flatten op args = BoolExpr op (concat (map (flatten_arg op) args))"

definition finish_args :: "BoolOp \<Rightarrow> FilterExpr list \<Rightarrow> FilterExpr" where
  "finish_args op args = (case args of [a] \<Rightarrow> a | _ \<Rightarrow> flatten op args)"

text \<open>The method \<open>value\<close>.\<close>

definition parse_value :: "nat \<Rightarrow> Token list \<Rightarrow> FilterSyntaxError + (string \<times> Token list)" where
  "parse_value len ts =
     (case ts of
        [] \<Rightarrow> Inl (syntaxError ''expected a value'' len)
      | t # ts' \<Rightarrow> if is_word t then Inr (tk_value t, ts')
                   else Inl (syntaxError ''expected a value'' (tk_pos t)))"

text \<open>The loop of \<open>term\<close> over the values of an \<open>in\<close> list, up to its closing parenthesis.\<close>

fun value_loop :: "nat \<Rightarrow> string list \<Rightarrow> Token list \<Rightarrow> FilterSyntaxError + (string list \<times> Token list)" where
  "value_loop len vs [] = Inl (syntaxError ''expected \")\"'' len)"
| "value_loop len vs (sep # ts) =
     (if tk_kind sep = KRparen then Inr (vs, ts)
      else if tk_kind sep \<noteq> KComma then Inl (syntaxError ''expected \",\" or \")\"'' (tk_pos sep))
      else (case ts of
              [] \<Rightarrow> Inl (syntaxError ''expected a value'' len)
            | t # ts' \<Rightarrow>
                if is_word t then value_loop len (vs @ [tk_value t]) ts'
                else Inl (syntaxError ''expected a value'' (tk_pos t))))"

definition parse_list ::
  "nat \<Rightarrow> FieldValuesOp \<Rightarrow> string \<Rightarrow> Token list \<Rightarrow> FilterSyntaxError + (FilterExpr \<times> Token list)" where
  "parse_list len listOp field ts =
     (case ts of
        [] \<Rightarrow> Inl (syntaxError ''expected \"(\" after in'' len)
      | open1 # ts1 \<Rightarrow>
          if tk_kind open1 \<noteq> KLparen
          then Inl (syntaxError ''expected \"(\" after in'' (tk_pos open1))
          else (case parse_value len ts1 of
                  Inl e \<Rightarrow> Inl e
                | Inr (v, ts2) \<Rightarrow>
                    (case value_loop len [v] ts2 of
                       Inl e \<Rightarrow> Inl e
                     | Inr (vs, ts3) \<Rightarrow> Inr (FieldValuesExpr listOp field vs, ts3))))"

definition followedByFieldOp :: "Token list \<Rightarrow> bool" where
  "followedByFieldOp ts =
     (case ts of
        [] \<Rightarrow> False
      | after # ts' \<Rightarrow>
          tk_kind after = KOp \<or> tk_kind after = KExists \<or>
          isKeyword after ''in'' \<or> isKeyword after ''cidr'' \<or>
          (isKeyword after ''not'' \<and> (case ts' of [] \<Rightarrow> False | t2 # _ \<Rightarrow> isKeyword t2 ''in'')))"

text \<open>The method \<open>term\<close>, after \<open>t = this.next()\<close>. The tokenizer only makes operator tokens
  from \<^const>\<open>OPERATORS\<close>, so the lookup in \<^const>\<open>OP_TO_AST\<close> never misses
  (lemma \<open>tokenize_ops_known\<close> of theory \<open>Filter_Errors\<close>).\<close>

definition field_op ::
  "nat \<Rightarrow> string \<Rightarrow> Token \<Rightarrow> Token list \<Rightarrow> FilterSyntaxError + (FilterExpr \<times> Token list)" where
  "field_op len field opt ts =
     (if tk_kind opt = KExists then Inr (FieldExistsExpr Exists field, ts)
      else if tk_kind opt = KOp then
        (case map_of OP_TO_AST (tk_value opt) of
           None \<Rightarrow> Inl (syntaxError ''unknown operator'' (tk_pos opt))
         | Some a \<Rightarrow>
             (case parse_value len ts of
                Inl e \<Rightarrow> Inl e
              | Inr (v, ts') \<Rightarrow> Inr (FieldValueExpr a field v, ts')))
      else if isKeyword opt ''cidr'' then
        (case parse_value len ts of
           Inl e \<Rightarrow> Inl e
         | Inr (v, ts') \<Rightarrow> Inr (FieldValueExpr Cidr field v, ts'))
      else if isKeyword opt ''not'' then parse_list len Not_in field (drop 1 ts)
      else parse_list len In field ts)"

definition parse_term :: "nat \<Rightarrow> Token \<Rightarrow> Token list \<Rightarrow> FilterSyntaxError + (FilterExpr \<times> Token list)" where
  "parse_term len t ts =
     (if \<not> is_word t then Inl (syntaxError (''unexpected '' @ json_string (tk_value t)) (tk_pos t))
      else if \<not> followedByFieldOp ts then
        (if tk_kind t = KBare \<and> toLowerCase (tk_value t) \<in> set KEYWORDS
         then Inl (syntaxError (''unexpected keyword '' @ tk_value t) (tk_pos t))
         else Inr (TextExpr (tk_value t), ts))
      else if tk_value t = [] then Inl (syntaxError ''empty field name'' (tk_pos t))
      else (case ts of
              [] \<Rightarrow> Inr (TextExpr (tk_value t), ts)
            | opt # ts' \<Rightarrow> field_op len (tk_value t) opt ts'))"

text \<open>\<open>"!" field ":*"\<close>, after the bang.\<close>

definition parse_bang :: "nat \<Rightarrow> Token list \<Rightarrow> FilterSyntaxError + (FilterExpr \<times> Token list)" where
  "parse_bang len ts =
     (case ts of
        [] \<Rightarrow> Inl (syntaxError ''expected a field name after \"!\"'' len)
      | field # ts1 \<Rightarrow>
          if \<not> is_word field
          then Inl (syntaxError ''expected a field name after \"!\"'' (tk_pos field))
          else (case ts1 of
                  [] \<Rightarrow> Inl (syntaxError ''expected \":*\" after \"!field\"'' len)
                | ex # ts2 \<Rightarrow>
                    if tk_kind ex \<noteq> KExists
                    then Inl (syntaxError ''expected \":*\" after \"!field\"'' (tk_pos ex))
                    else Inr (FieldExistsExpr Not_exists (tk_value field), ts2)))"

lemma parse_value_shorter: "parse_value len ts = Inr (v, r) \<Longrightarrow> length r < length ts"
  by (auto simp: parse_value_def split: list.splits if_splits)

lemma value_loop_shorter: "value_loop len vs ts = Inr (us, r) \<Longrightarrow> length r < length ts"
  by (induction len vs ts rule: value_loop.induct) (fastforce split: list.splits if_splits)+

lemma parse_list_shorter: "parse_list len l f ts = Inr (e, r) \<Longrightarrow> length r < length ts"
  by (fastforce simp: parse_list_def split: list.splits if_splits sum.splits
      dest: parse_value_shorter value_loop_shorter)

lemma field_op_shorter: "field_op len f opt ts = Inr (e, r) \<Longrightarrow> length r \<le> length ts"
  by (fastforce simp: field_op_def split: if_splits sum.splits option.splits
      dest: parse_value_shorter parse_list_shorter)

lemma parse_term_shorter: "parse_term len t ts = Inr (e, r) \<Longrightarrow> length r \<le> length ts"
  by (fastforce simp: parse_term_def split: if_splits list.splits dest: field_op_shorter)

lemma parse_bang_shorter: "parse_bang len ts = Inr (e, r) \<Longrightarrow> length r \<le> length ts"
  by (auto simp: parse_bang_def split: if_splits list.splits)

fun parser_rank ::
  "((nat \<times> Token list) + (nat \<times> FilterExpr list \<times> Token list)) +
   ((nat \<times> Token list) + ((nat \<times> FilterExpr list \<times> Token list) + (nat \<times> Token list))) \<Rightarrow> nat" where
  "parser_rank (Inl (Inl (len, ts))) = 3 * length ts + 2"
| "parser_rank (Inl (Inr (len, args, ts))) = 3 * length ts + 2"
| "parser_rank (Inr (Inl (len, ts))) = 3 * length ts + 1"
| "parser_rank (Inr (Inr (Inl (len, args, ts)))) = 3 * length ts + 1"
| "parser_rank (Inr (Inr (Inr (len, ts)))) = 3 * length ts"

text \<open>The mutually recursive methods \<open>orExpr\<close>, \<open>andExpr\<close> and \<open>unary\<close>, the two loops
  written as functions of their own. The recursion is nested (a loop goes on with the
  tokens a call has left), so termination rests on every method consuming tokens.\<close>

function orExpr :: "nat \<Rightarrow> Token list \<Rightarrow> FilterSyntaxError + (FilterExpr \<times> Token list)"
  and orLoop :: "nat \<Rightarrow> FilterExpr list \<Rightarrow> Token list \<Rightarrow> FilterSyntaxError + (FilterExpr \<times> Token list)"
  and andExpr :: "nat \<Rightarrow> Token list \<Rightarrow> FilterSyntaxError + (FilterExpr \<times> Token list)"
  and andLoop :: "nat \<Rightarrow> FilterExpr list \<Rightarrow> Token list \<Rightarrow> FilterSyntaxError + (FilterExpr \<times> Token list)"
  and unary :: "nat \<Rightarrow> Token list \<Rightarrow> FilterSyntaxError + (FilterExpr \<times> Token list)" where
  "orExpr len ts =
     (case andExpr len ts of
        Inl e \<Rightarrow> Inl e
      | Inr (a, ts') \<Rightarrow> orLoop len [a] ts')"
| "orLoop len args ts =
     (case ts of
        [] \<Rightarrow> Inr (finish_args Or args, ts)
      | t # ts' \<Rightarrow>
          if isKeyword t ''or'' then
            (case andExpr len ts' of
               Inl e \<Rightarrow> Inl e
             | Inr (a, ts'') \<Rightarrow> orLoop len (args @ [a]) ts'')
          else Inr (finish_args Or args, ts))"
| "andExpr len ts =
     (case unary len ts of
        Inl e \<Rightarrow> Inl e
      | Inr (a, ts') \<Rightarrow> andLoop len [a] ts')"
| "andLoop len args ts =
     (case ts of
        [] \<Rightarrow> Inr (finish_args And args, ts)
      | t # ts' \<Rightarrow>
          if tk_kind t = KRparen \<or> isKeyword t ''or'' then Inr (finish_args And args, ts)
          else
            (case unary len (if isKeyword t ''and'' then ts' else ts) of
               Inl e \<Rightarrow> Inl e
             | Inr (a, ts'') \<Rightarrow> andLoop len (args @ [a]) ts''))"
| "unary len ts =
     (case ts of
        [] \<Rightarrow> Inl (syntaxError ''expected a filter'' len)
      | t # ts' \<Rightarrow>
          if isKeyword t ''not'' then
            (case unary len ts' of
               Inl e \<Rightarrow> Inl e
             | Inr (a, r) \<Rightarrow> Inr (NotExpr a, r))
          else if tk_kind t = KBang then parse_bang len ts'
          else if tk_kind t = KLparen then
            (case orExpr len ts' of
               Inl e \<Rightarrow> Inl e
             | Inr (a, r) \<Rightarrow>
                 (case r of
                    [] \<Rightarrow> Inl (syntaxError ''expected \")\"'' len)
                  | close # r' \<Rightarrow>
                      if tk_kind close = KRparen then Inr (a, r')
                      else Inl (syntaxError ''expected \")\"'' (tk_pos close))))
          else parse_term len t ts')"
  by pat_completeness auto

lemma parser_consumes:
  "orExpr_orLoop_andExpr_andLoop_unary_dom (Inl (Inl (len, ts))) \<Longrightarrow>
     (\<forall>e r. orExpr len ts = Inr (e, r) \<longrightarrow> length r < length ts)"
  "orExpr_orLoop_andExpr_andLoop_unary_dom (Inl (Inr (len, args, ts))) \<Longrightarrow>
     (\<forall>e r. orLoop len args ts = Inr (e, r) \<longrightarrow> length r \<le> length ts)"
  "orExpr_orLoop_andExpr_andLoop_unary_dom (Inr (Inl (len, ts))) \<Longrightarrow>
     (\<forall>e r. andExpr len ts = Inr (e, r) \<longrightarrow> length r < length ts)"
  "orExpr_orLoop_andExpr_andLoop_unary_dom (Inr (Inr (Inl (len, args, ts)))) \<Longrightarrow>
     (\<forall>e r. andLoop len args ts = Inr (e, r) \<longrightarrow> length r \<le> length ts)"
  "orExpr_orLoop_andExpr_andLoop_unary_dom (Inr (Inr (Inr (len, ts)))) \<Longrightarrow>
     (\<forall>e r. unary len ts = Inr (e, r) \<longrightarrow> length r < length ts)"
proof (induction len ts and len args ts and len ts and len args ts and len ts
    rule: orExpr_orLoop_andExpr_andLoop_unary.pinduct)
  case (1 len ts)
  then show ?case
    by (fastforce simp: orExpr.psimps split: sum.splits)
next
  case (2 len args ts)
  then show ?case
    by (fastforce simp: orLoop.psimps split: sum.splits list.splits if_splits)
next
  case (3 len ts)
  then show ?case
    by (fastforce simp: andExpr.psimps split: sum.splits)
next
  case (4 len args ts)
  then show ?case
    by (fastforce simp: andLoop.psimps split: sum.splits list.splits if_splits)
next
  case (5 len ts)
  then show ?case
    by (fastforce simp: unary.psimps split: sum.splits list.splits if_splits
        dest: parse_bang_shorter parse_term_shorter)
qed

termination orExpr
  by (relation "measure parser_rank")
    (fastforce dest: parser_consumes split: if_splits)+

text \<open>These equations would unfold without end on symbolic token lists.\<close>

declare orExpr.simps [simp del] orLoop.simps [simp del] andExpr.simps [simp del]
  andLoop.simps [simp del] unary.simps [simp del]

lemmas parser_simps = orExpr.simps orLoop.simps andExpr.simps andLoop.simps unary.simps

definition parse :: "nat \<Rightarrow> Token list \<Rightarrow> FilterSyntaxError + FilterExpr" where
  "parse len ts =
     (case orExpr len ts of
        Inl e \<Rightarrow> Inl e
      | Inr (expr, r) \<Rightarrow>
          (case r of
             [] \<Rightarrow> Inr expr
           | t # _ \<Rightarrow>
               Inl (syntaxError
                 (''unexpected '' @ (if tk_kind t = KRparen then ''\")\"'' else json_string (tk_value t)))
                 (tk_pos t))))"

definition parseFilter :: "string \<Rightarrow> FilterSyntaxError + FilterExpr option" where
  "parseFilter text =
     (if trim text = [] then Inr None
      else (case tokenize text of
              Inl e \<Rightarrow> Inl e
            | Inr ts \<Rightarrow> (case parse (length text) ts of Inl e \<Rightarrow> Inl e | Inr e \<Rightarrow> Inr (Some e))))"

section \<open>The serializer\<close>

text \<open>The two global replacements of \<open>quote\<close>, in the order the code applies them.\<close>

definition replace_char :: "char \<Rightarrow> string \<Rightarrow> string \<Rightarrow> string" where
  "replace_char c r s = concat (map (\<lambda>x. if x = c then r else [x]) s)"

definition quoteAlways :: "string \<Rightarrow> string" where
  "quoteAlways v =
     [DQ] @ replace_char DQ [BSLASH, DQ] (replace_char BSLASH [BSLASH, BSLASH] v) @ [DQ]"

definition quote :: "string \<Rightarrow> string" where
  "quote v =
     (if v \<noteq> [] \<and> BARE_RE v \<and> toLowerCase v \<notin> set KEYWORDS then v
      else [DQ] @ replace_char DQ [BSLASH, DQ] (replace_char BSLASH [BSLASH, BSLASH] v) @ [DQ])"

text \<open>Precedences are doubled, so that the half step of the source is a whole number:
  \<open>or\<close> is 2, \<open>and\<close> is 4 and \<open>unary\<close> is 6.\<close>

definition bool_prec :: "BoolOp \<Rightarrow> nat" where
  "bool_prec op = (if op = Or then 2 else 4)"

fun fmt :: "FilterExpr \<Rightarrow> nat \<Rightarrow> string" where
  "fmt (BoolExpr op args) parentPrec =
     (let s = join (if op = Or then '' OR '' else '' AND '')
                (map (\<lambda>a. fmt a (bool_prec op + 1)) args)
      in if bool_prec op < parentPrec then ''('' @ s @ '')'' else s)"
| "fmt (NotExpr arg) parentPrec = ''NOT '' @ fmt arg 6"
| "fmt (TextExpr v) parentPrec = quoteAlways v"
| "fmt (FieldExistsExpr Exists field) parentPrec = quote field @ '':*''"
| "fmt (FieldExistsExpr Not_exists field) parentPrec = ''!'' @ quote field @ '':*''"
| "fmt (FieldValuesExpr op field values) parentPrec =
     quote field @ '' '' @ (if op = In then ''in'' else ''not in'') @
     '' ('' @ join '', '' (map quote values) @ '')''"
| "fmt (FieldValueExpr op field v) parentPrec =
     (if op = Cidr then quote field @ '' cidr '' @ quote v
      else if op = Regex then quote field @ ''=~'' @ quoteAlways v
      else quote field @ (case map_of AST_TO_OP op of None \<Rightarrow> ''undefined'' | Some o1 \<Rightarrow> o1) @ quote v)"

definition formatFilter :: "FilterExpr option \<Rightarrow> string" where
  "formatFilter expr = (case expr of None \<Rightarrow> [] | Some e \<Rightarrow> fmt e 0)"

section \<open>Terms and negation\<close>

definition andTerms :: "FilterExpr option \<Rightarrow> FilterExpr list" where
  "andTerms expr =
     (case expr of
        None \<Rightarrow> []
      | Some e \<Rightarrow> (case e of BoolExpr op args \<Rightarrow> if op = And then args else [e] | _ \<Rightarrow> [e]))"

definition combineAnd :: "FilterExpr list \<Rightarrow> FilterExpr option" where
  "combineAnd terms =
     (case terms of [] \<Rightarrow> None | [t] \<Rightarrow> Some t | _ \<Rightarrow> Some (flatten And terms))"

fun negate :: "FilterExpr \<Rightarrow> FilterExpr" where
  "negate (NotExpr arg) = arg"
| "negate (FieldValueExpr Eq field v) = FieldValueExpr Ne field v"
| "negate (FieldValueExpr Ne field v) = FieldValueExpr Eq field v"
| "negate (FieldValuesExpr In field vs) = FieldValuesExpr Not_in field vs"
| "negate (FieldValuesExpr Not_in field vs) = FieldValuesExpr In field vs"
| "negate (FieldExistsExpr Exists field) = FieldExistsExpr Not_exists field"
| "negate (FieldExistsExpr Not_exists field) = FieldExistsExpr Exists field"
| "negate expr = NotExpr expr"

text \<open>\<open>FIELD_VALUE_OPS\<close>: the operators the filter builder offers, with label and symbol.\<close>

datatype BuilderOp = FV FieldValueOp | FE FieldExistsOp | FVS FieldValuesOp

definition FIELD_VALUE_OPS :: "(BuilderOp \<times> string \<times> string) list" where
  "FIELD_VALUE_OPS =
     [(FV Eq, ''equals'', ''=''), (FV Ne, ''not equals'', ''!=''), (FV Contains, ''contains'', ''~''),
      (FV Starts_with, ''starts with'', ''^=''), (FV Regex, ''matches regex'', ''=~''),
      (FVS In, ''is one of'', ''in''), (FVS Not_in, ''is not one of'', ''not in''),
      (FE Exists, ''exists'', '':*''), (FE Not_exists, ''does not exist'', ''!:*''),
      (FV Gt, ''greater than'', ''>''), (FV Gte, ''at least'', ''>=''), (FV Lt, ''less than'', ''<''),
      (FV Lte, ''at most'', ''<=''), (FV Cidr, ''in CIDR'', ''cidr'')]"

end
