(* ===== verification/Filter_Errors.thy ===== *)
theory Filter_Errors
  imports Filter_Text
begin

text \<open>
  The errors of the filter text parser of \<open>src/frontend/src/lib/filter-text.ts\<close>: the tokenizer
  gives every token a position inside the text, and so every \<open>FilterSyntaxError\<close> of the
  tokenizer and of the parser points into the text or at its end. Operator tokens are always
  operators the parser knows.
\<close>

section \<open>Every syntax error points into the text\<close>

definition error_at :: "nat \<Rightarrow> FilterSyntaxError \<Rightarrow> bool" where
  "error_at n e \<longleftrightarrow> err_position e \<le> n \<and> (\<exists>m. e = syntaxError m (err_position e))"

lemma error_at_syntaxError [simp]: "error_at n (syntaxError m p) \<longleftrightarrow> p \<le> n"
  by (auto simp: error_at_def syntaxError_def)

lemma scan_quoted_error:
  "scan_quoted start i out s = Inl e \<Longrightarrow> start \<le> i \<Longrightarrow> error_at (i + length s) e"
  by (induction start i out s rule: scan_quoted.induct)
    (fastforce split: if_splits list.splits)+

lemma scan_quoted_position:
  "scan_quoted start i out s = Inr (v, j, rest) \<Longrightarrow> j + length rest = i + length s"
  by (induction start i out s rule: scan_quoted.induct) (auto split: if_splits list.splits)

definition tokens_within :: "nat \<Rightarrow> FilterSyntaxError + Token list \<Rightarrow> bool" where
  "tokens_within n r = (case r of Inl e \<Rightarrow> error_at n e | Inr ts \<Rightarrow> \<forall>t \<in> set ts. tk_pos t \<le> n)"

lemma tokens_within_push [simp]: "i \<le> n \<Longrightarrow> tokens_within n r \<Longrightarrow> tokens_within n (push_token k v i r)"
  by (auto simp: tokens_within_def push_token_def split: sum.splits)

lemma tokens_within_Inl [simp]: "tokens_within n (Inl e) \<longleftrightarrow> error_at n e"
  by (simp add: tokens_within_def)

lemma within_if:
  "(b \<Longrightarrow> tokens_within n x) \<Longrightarrow> (\<not> b \<Longrightarrow> tokens_within n y) \<Longrightarrow> tokens_within n (if b then x else y)"
  by simp

lemma within_scan:
  "(\<And>e. r = Inl e \<Longrightarrow> error_at n e) \<Longrightarrow> (\<And>v j s. r = Inr (v, j, s) \<Longrightarrow> tokens_within n (f v j s)) \<Longrightarrow>
   tokens_within n (case r of Inl e \<Rightarrow> Inl e | Inr (v, j, s) \<Rightarrow> f v j s)"
  by (auto split: sum.splits)

lemma within_option:
  "(\<And>x. m = Some x \<Longrightarrow> tokens_within n (f x)) \<Longrightarrow> (m = None \<Longrightarrow> tokens_within n y) \<Longrightarrow>
   tokens_within n (case m of Some x \<Rightarrow> f x | None \<Rightarrow> y)"
  by (auto split: option.splits)

lemmas within_intros = within_if within_scan within_option tokens_within_push

lemma length_drop_piece: "w \<noteq> [] \<Longrightarrow> length w \<le> length s \<Longrightarrow> length (drop (length w) s) < length s"
  by (cases w) auto

lemma tokenize_from_within: "tokens_within (i + length s) (tokenize_from i s)"
proof (induction s arbitrary: i rule: length_induct)
  case (1 s)
  then have IH: "tokens_within (j + length r) (tokenize_from j r)" if "length r < length s" for j r
    using that by blast
  show ?case
  proof (cases s)
    case Nil
    then show ?thesis by (simp add: tokens_within_def)
  next
    case (Cons c cs)
    define n where "n = i + length s"
    have step: "tokens_within n (tokenize_from (i + 1) cs)"
      using IH [of cs "i + 1"] by (simp add: n_def Cons)
    have ex: "tokens_within n (tokenize_from (i + 2) (drop 1 cs))" if "startsWith cs ''*''"
      using IH [of "drop 1 cs" "i + 2"] that by (cases cs) (simp_all add: n_def Cons)
    have quoted: "tokens_within n (tokenize_from j rest)"
      if "scan_quoted i (i + 1) [] cs = Inr (v, j, rest)" for v j rest
      using IH [of rest j] scan_quoted_shorter [OF that] scan_quoted_position [OF that]
      by (simp add: n_def Cons)
    have bad: "error_at n e" if "scan_quoted i (i + 1) [] cs = Inl e" for e
      using scan_quoted_error [OF that] by (simp add: n_def Cons)
    have opr: "tokens_within n (tokenize_from (i + length o1) (drop (length o1) s))"
      if f: "List.find (startsWith s) OPERATORS = Some o1" for o1
    proof -
      from f have "startsWith s o1" by (auto simp: find_Some_iff)
      then have "length o1 \<le> length s" by (auto simp: startsWith_iff)
      moreover have "o1 \<noteq> []" using find_OPERATORS_nonempty [OF f] .
      ultimately show ?thesis
        using IH [OF length_drop_piece, of o1 "i + length o1"] by (simp add: n_def)
    qed
    have bare: "tokens_within n (tokenize_from (i + length w) (drop (length w) s))"
      if "w = takeWhile (\<lambda>x. \<not> delim x) s" and "w \<noteq> []" for w
      using IH [OF length_drop_piece, of w "i + length w"] that
        length_takeWhile_le [of "\<lambda>x. \<not> delim x" s] by (simp add: n_def)
    have i: "i \<le> n" by (simp add: n_def)
    have "tokens_within n (tokenize_from i (c # cs))"
      unfolding tokenize_from.simps(2) [of i c cs] Let_def
      by (intro within_intros i step ex quoted bad opr [unfolded Cons]
          bare [OF refl, unfolded Cons]) (simp_all add: i)
    then show ?thesis by (simp only: n_def Cons)
  qed
qed

definition parsed_within :: "nat \<Rightarrow> FilterSyntaxError + ('a \<times> Token list) \<Rightarrow> bool" where
  "parsed_within n r =
     (case r of Inl e \<Rightarrow> error_at n e | Inr (a, ts) \<Rightarrow> list_all (\<lambda>t. tk_pos t \<le> n) ts)"

lemma parsed_within_simps [simp]:
  "parsed_within n (Inl e) \<longleftrightarrow> error_at n e"
  "parsed_within n (Inr (a, ts)) \<longleftrightarrow> list_all (\<lambda>t. tk_pos t \<le> n) ts"
  by (simp_all add: parsed_within_def)

lemma parsed_within_bind:
  "parsed_within n r \<Longrightarrow>
   (\<And>a ts. r = Inr (a, ts) \<Longrightarrow> list_all (\<lambda>t. tk_pos t \<le> n) ts \<Longrightarrow> parsed_within n (f a ts)) \<Longrightarrow>
   parsed_within n (case r of Inl e \<Rightarrow> Inl e | Inr (a, ts) \<Rightarrow> f a ts)"
  by (auto split: sum.splits)

lemma parse_value_within: "list_all (\<lambda>t. tk_pos t \<le> n) ts \<Longrightarrow> parsed_within n (parse_value n ts)"
  by (cases ts) (simp_all add: parse_value_def)

lemma value_loop_within: "list_all (\<lambda>t. tk_pos t \<le> n) ts \<Longrightarrow> parsed_within n (value_loop n vs ts)"
  by (induction n vs ts rule: value_loop.induct) (auto split: list.split)

lemma parse_list_within: "list_all (\<lambda>t. tk_pos t \<le> n) ts \<Longrightarrow> parsed_within n (parse_list n l f ts)"
  by (cases ts) (auto simp: parse_list_def intro!: parsed_within_bind parse_value_within value_loop_within)

lemma list_all_drop: "list_all P xs \<Longrightarrow> list_all P (drop k xs)"
  by (auto simp: list_all_iff dest: in_set_dropD)

lemma field_op_within:
  "list_all (\<lambda>t. tk_pos t \<le> n) ts \<Longrightarrow> tk_pos opt \<le> n \<Longrightarrow> parsed_within n (field_op n f opt ts)"
  by (auto simp: field_op_def list_all_drop intro!: parsed_within_bind parse_value_within parse_list_within
      split: option.split)

lemma parse_term_within:
  "list_all (\<lambda>t. tk_pos t \<le> n) ts \<Longrightarrow> tk_pos t \<le> n \<Longrightarrow> parsed_within n (parse_term n t ts)"
  by (cases ts) (simp_all add: parse_term_def field_op_within)

lemma parse_bang_within: "list_all (\<lambda>t. tk_pos t \<le> n) ts \<Longrightarrow> parsed_within n (parse_bang n ts)"
  by (auto simp: parse_bang_def split: list.split)

lemma parser_within:
  "list_all (\<lambda>t. tk_pos t \<le> n) ts \<Longrightarrow> parsed_within n (orExpr n ts)"
  "list_all (\<lambda>t. tk_pos t \<le> n) ts \<Longrightarrow> parsed_within n (orLoop n args ts)"
  "list_all (\<lambda>t. tk_pos t \<le> n) ts \<Longrightarrow> parsed_within n (andExpr n ts)"
  "list_all (\<lambda>t. tk_pos t \<le> n) ts \<Longrightarrow> parsed_within n (andLoop n args ts)"
  "list_all (\<lambda>t. tk_pos t \<le> n) ts \<Longrightarrow> parsed_within n (unary n ts)"
proof (induction n ts and n args ts and n ts and n args ts and n ts
    rule: orExpr_orLoop_andExpr_andLoop_unary.induct)
  case (1 n ts)
  then show ?case
    unfolding orExpr.simps [of n ts] by (blast intro: parsed_within_bind)
next
  case (2 n args ts)
  then show ?case
    unfolding orLoop.simps [of n args ts]
    by (cases ts) (auto intro!: parsed_within_bind)
next
  case (3 n ts)
  then show ?case
    unfolding andExpr.simps [of n ts] by (blast intro: parsed_within_bind)
next
  case (4 n args ts)
  then show ?case
    unfolding andLoop.simps [of n args ts]
    by (cases ts) (auto intro!: parsed_within_bind)
next
  case (5 n ts)
  show ?case
  proof (cases ts)
    case Nil
    then show ?thesis by (simp add: unary.simps)
  next
    case (Cons t ts')
    with "5.prems" have t: "tk_pos t \<le> n" and ts': "list_all (\<lambda>t. tk_pos t \<le> n) ts'" by simp_all
    have negated: "isKeyword t ''not'' \<Longrightarrow> parsed_within n (unary n ts')"
      by (rule "5.IH"(1) [OF Cons _ ts'])
    have group: "\<not> isKeyword t ''not'' \<Longrightarrow> tk_kind t \<noteq> KBang \<Longrightarrow> tk_kind t = KLparen \<Longrightarrow> parsed_within n (orExpr n ts')"
      by (rule "5.IH"(2) [OF Cons _ _ _ ts'])
    show ?thesis
      unfolding Cons unary.simps [of n "t # ts'"]
      by (auto intro!: parsed_within_bind negated group parse_bang_within parse_term_within t ts'
          split: list.split)
  qed
qed

lemma parseFilter_within: "parseFilter text = Inl e \<Longrightarrow> error_at (length text) e"
proof -
  assume err: "parseFilter text = Inl e"
  have lexed: "tokens_within (length text) (tokenize text)"
    using tokenize_from_within [of 0 "text"] by (simp add: tokenize_def)
  show ?thesis
  proof (cases "tokenize text")
    case (Inl d)
    with err lexed show ?thesis by (simp add: parseFilter_def split: if_splits)
  next
    case (Inr ts)
    with lexed have "list_all (\<lambda>t. tk_pos t \<le> length text) ts"
      by (simp add: tokens_within_def list_all_iff)
    then have "parsed_within (length text) (orExpr (length text) ts)" by (rule parser_within)
    with err Inr show ?thesis
      by (auto simp: parseFilter_def parse_def split: if_splits sum.splits list.splits)
  qed
qed

section \<open>Operator tokens are known operators\<close>

definition ops_known :: "FilterSyntaxError + Token list \<Rightarrow> bool" where
  "ops_known r = (case r of Inl e \<Rightarrow> True
     | Inr ts \<Rightarrow> \<forall>t \<in> set ts. tk_kind t = KOp \<longrightarrow> map_of OP_TO_AST (tk_value t) \<noteq> None)"

lemma OPERATORS_known: "List.find P OPERATORS = Some o1 \<Longrightarrow> map_of OP_TO_AST o1 \<noteq> None"
  by (auto simp: OPERATORS_def OP_TO_AST_def split: if_splits)

lemma find_OPERATORS_drop: "List.find P OPERATORS = Some o1 \<Longrightarrow> Suc n - length o1 \<le> n"
  using find_OPERATORS_nonempty [of P o1] by (cases o1) auto

lemma ops_known_push:
  "(k = KOp \<Longrightarrow> map_of OP_TO_AST v \<noteq> None) \<Longrightarrow> ops_known r \<Longrightarrow> ops_known (push_token k v i r)"
  by (auto simp: ops_known_def push_token_def split: sum.splits)

lemma tokenize_ops_known: "ops_known (tokenize_from i s)"
proof (induction s arbitrary: i rule: length_induct)
  case (1 s)
  then have IH: "\<And>u j. length u < length s \<Longrightarrow> ops_known (tokenize_from j u)" by blast
  have err: "\<And>d. ops_known (Inl d)" by (simp add: ops_known_def)
  have ifI: "\<And>b x y. (b \<Longrightarrow> ops_known x) \<Longrightarrow> (\<not> b \<Longrightarrow> ops_known y) \<Longrightarrow> ops_known (if b then x else y)" by simp
  have scanI: "\<And>r f. (\<And>v j u. r = Inr (v, j, u) \<Longrightarrow> ops_known (f v j u)) \<Longrightarrow>
      ops_known (case r of Inl e \<Rightarrow> Inl e | Inr (v, j, u) \<Rightarrow> f v j u)"
    by (auto simp: err split: sum.split)
  have findI: "\<And>m f y. (\<And>x. m = Some x \<Longrightarrow> ops_known (f x)) \<Longrightarrow> (m = None \<Longrightarrow> ops_known y) \<Longrightarrow>
      ops_known (case m of Some x \<Rightarrow> f x | None \<Rightarrow> y)"
    by (simp split: option.split)
  show ?case
  proof (cases s)
    case Nil
    then show ?thesis by (simp add: ops_known_def)
  next
    case (Cons c cs)
    show ?thesis
      unfolding Cons tokenize_from.simps(2) [of i c cs] Let_def
      by (intro ifI scanI findI ops_known_push err IH)
        (auto simp: Cons less_Suc_eq_le le_imp_less_Suc Suc_diff_le Suc_le_eq
          dest: scan_quoted_shorter find_OPERATORS_drop OPERATORS_known)
  qed
qed

section \<open>Properties\<close>

text \<open>C3. Every syntax error carries a position inside the text or just behind it, and its
  message ends with that position counted from one.\<close>

theorem parseFilter_error_position:
  "parseFilter t = Inl e \<Longrightarrow>
     err_position e \<le> length t \<and>
     (\<exists>m. err_message e = m @ '' (at position '' @ show_nat (err_position e + 1) @ '')'')"
  using parseFilter_within [of t e] by (cases e) (auto simp: error_at_def syntaxError_def)

theorem parseFilter_error_position_witness:
  "\<exists>e. parseFilter ''a=(b'' = Inl e \<and> err_position e = 2 \<and> err_position e \<le> length ''a=(b''"
proof -
  have "\<exists>e. parseFilter ''a=(b'' = Inl e \<and> err_position e = 2"
    by (rule exI [of _ "syntaxError ''expected a value'' 2"]) code_simp
  then show ?thesis using parseFilter_error_position by blast
qed

end
