(* ===== verification/Source_Templates.thy ===== *)
theory Source_Templates
  imports Prelude
begin

text \<open>
  Extract rules and source templates: the first part of
  \<open>src/frontend/src/features/sources/source-form.ts\<close>, over the types of
  \<open>src/frontend/src/api/operations.ts\<close> (of which the properties no function here reads,
  such as a template's JSON mapping, are left out).

  The module's counter \<open>ruleKeySeq\<close> is passed along explicitly: an operation that makes rules
  takes the counter and returns it beside its result.
\<close>

section \<open>Extract rules\<close>

record ExtractRuleForm =
  erf_key :: string
  erf_name :: string
  erf_contains :: string
  erf_prefix :: string
  erf_regex :: string

record ExtractRule =
  er_name :: "string option"
  er_contains :: "string option"
  er_prefix :: "string option"
  er_regex :: string

definition ruleKey :: "nat \<Rightarrow> string" where
  "ruleKey n = ''rule-'' @ show_nat n"

text \<open>\<open>newExtractRule\<close> with all four properties given, as both of its callers in this file do.\<close>

definition newExtractRule :: "ExtractRule \<Rightarrow> nat \<Rightarrow> ExtractRuleForm \<times> nat" where
  "newExtractRule r ruleKeySeq =
     (let n = ruleKeySeq + 1 in
      (\<lparr>erf_key = ruleKey n, erf_name = orElse (er_name r) [], erf_contains = orElse (er_contains r) [],
        erf_prefix = orElse (er_prefix r) [], erf_regex = er_regex r\<rparr>, n))"

fun newExtractRules :: "ExtractRule list \<Rightarrow> nat \<Rightarrow> ExtractRuleForm list \<times> nat" where
  "newExtractRules [] n = ([], n)"
| "newExtractRules (r # rs) n =
     (let (f, n1) = newExtractRule r n; (fs, n2) = newExtractRules rs n1 in (f # fs, n2))"

section \<open>Capture groups\<close>

text \<open>Behind \<open>(\<close>: the text after \<open>?P<\<close> or \<open>?<\<close>, where a group's name starts.\<close>

definition group_start :: "string \<Rightarrow> string option" where
  "group_start s =
     (if startsWith s ''?P<'' then Some (drop 3 s)
      else if startsWith s ''?<'' then Some (drop 2 s)
      else None)"

lemma group_start_length: "group_start s = Some r \<Longrightarrow> length r < length s"
  by (auto simp: group_start_def startsWith_iff split: if_splits)

function scan_groups :: "bool \<Rightarrow> string list \<Rightarrow> string \<Rightarrow> string list" where
  "scan_groups inClass names [] = names"
| "scan_groups inClass names (c # cs) =
     (if c = BSLASH then scan_groups inClass names (drop 1 cs)
      else if inClass then scan_groups (c \<noteq> CHR '']'') names cs
      else if c = CHR ''['' then scan_groups True names cs
      else if c \<noteq> CHR ''('' then scan_groups False names cs
      else (case group_start cs of
              None \<Rightarrow> scan_groups False names cs
            | Some r \<Rightarrow>
                let name = takeWhile (\<lambda>x. x \<noteq> CHR ''>'') r; rest = dropWhile (\<lambda>x. x \<noteq> CHR ''>'') r in
                if rest = [] then names
                else scan_groups False
                       (if name \<noteq> [] \<and> name \<notin> set names then names @ [name] else names) (tl rest)))"
  by pat_completeness auto

termination scan_groups
proof (relation "measure (\<lambda>(inClass, names, s). length s)", goal_cases)
  case (7 inClass names c cs r name rest)
  then have "length r < length cs" by (simp add: group_start_length)
  moreover have "length (dropWhile (\<lambda>x. x \<noteq> CHR ''>'') r) \<le> length r" by (rule length_dropWhile_le)
  ultimately have "length (tl rest) < length cs" using 7 by (simp only: length_tl)
  then show ?case by simp
qed auto

declare scan_groups.simps(2) [simp del]

definition captureGroupNames :: "string \<Rightarrow> string list" where
  "captureGroupNames regex = (if regex = [] then [] else scan_groups False [] regex)"

definition extractFieldNames :: "ExtractRuleForm \<Rightarrow> string list" where
  "extractFieldNames rule = map (\<lambda>n. trim (erf_prefix rule) @ n) (captureGroupNames (erf_regex rule))"

section \<open>Templates\<close>

record TemplateField =
  tf_name :: string
  tf_description :: string
  tf_example :: "string option"

record TemplateStep =
  ts_title :: string
  ts_body :: "string option"
  ts_config :: "string option"
  ts_language :: "string option"

record TemplatePart =
  tp_id :: string
  tp_title :: string
  tp_description :: string
  tp_default :: "bool option"
  tp_fields :: "TemplateField list option"
  tp_analyses :: "string list option"
  tp_steps :: "TemplateStep list option"

record TemplateSetup =
  tset_sender :: string
  tset_summary :: string
  tset_steps :: "TemplateStep list option"
  tset_closing :: "TemplateStep list option"

record SourceTemplate =
  st_id :: string
  st_title :: string
  st_description :: string
  st_extract :: "ExtractRule list option"
  st_fields :: "TemplateField list option"
  st_analyses :: "string list option"
  st_parts :: "TemplatePart list option"
  st_setup :: TemplateSetup

definition TEMPLATE_NONE :: string where
  "TEMPLATE_NONE = []"

definition templateById :: "SourceTemplate list \<Rightarrow> string \<Rightarrow> SourceTemplate option" where
  "templateById templates id1 =
     (if id1 \<noteq> [] then List.find (\<lambda>t. st_id t = id1) templates else None)"

record Choice =
  ch_value :: string
  ch_label :: string
  ch_hint :: string

definition templateChoices :: "SourceTemplate list \<Rightarrow> Choice list" where
  "templateChoices templates =
     map (\<lambda>t. \<lparr>ch_value = st_id t, ch_label = st_title t, ch_hint = st_description t\<rparr>) templates @
     [\<lparr>ch_value = TEMPLATE_NONE, ch_label = ''Anything else'',
       ch_hint = ''Syslog as it arrives. Fields can still be pulled out with extract rules below.''\<rparr>]"

text \<open>\<open>template?.parts ?? []\<close>.\<close>

definition template_part_list :: "SourceTemplate option \<Rightarrow> TemplatePart list" where
  "template_part_list template = (case template of None \<Rightarrow> [] | Some t \<Rightarrow> orElse (st_parts t) [])"

definition templateDefaultParts :: "SourceTemplate option \<Rightarrow> string list" where
  "templateDefaultParts template =
     map tp_id (filter (\<lambda>p. orElse (tp_default p) False) (template_part_list template))"

definition resolveTemplateParts :: "SourceTemplate option \<Rightarrow> string list \<Rightarrow> string list" where
  "resolveTemplateParts template stored =
     (let parts = template_part_list template in
      if parts = [] then []
      else if stored = [] then templateDefaultParts template
      else (let want = set (map (\<lambda>i. toLowerCase (trim i)) stored) in
            map tp_id (filter (\<lambda>p. toLowerCase (tp_id p) \<in> want) parts)))"

definition selectedTemplateParts :: "SourceTemplate option \<Rightarrow> string list \<Rightarrow> TemplatePart list" where
  "selectedTemplateParts template stored =
     (let on = set (resolveTemplateParts template stored) in
      filter (\<lambda>p. tp_id p \<in> on) (template_part_list template))"

definition toggleTemplatePart :: "SourceTemplate option \<Rightarrow> string list \<Rightarrow> string \<Rightarrow> bool \<Rightarrow> string list" where
  "toggleTemplatePart template stored id1 on =
     (let resolved = set (resolveTemplateParts template stored);
          current = (if on then insert id1 resolved else resolved - {id1})
      in map tp_id (filter (\<lambda>p. tp_id p \<in> current) (template_part_list template)))"

definition templateFields :: "SourceTemplate option \<Rightarrow> string list \<Rightarrow> TemplateField list" where
  "templateFields template parts =
     (case template of None \<Rightarrow> [] | Some t \<Rightarrow> orElse (st_fields t) []) @
     concat (map (\<lambda>p. orElse (tp_fields p) []) (selectedTemplateParts template parts))"

definition templateAnalyses :: "SourceTemplate option \<Rightarrow> string list \<Rightarrow> string list" where
  "templateAnalyses template parts =
     uniq ((case template of None \<Rightarrow> [] | Some t \<Rightarrow> orElse (st_analyses t) []) @
       concat (map (\<lambda>p. orElse (tp_analyses p) []) (selectedTemplateParts template parts)))"

section \<open>The setup guide\<close>

record TemplateStepGroup =
  sg_key :: string
  sg_part :: "TemplatePart option"
  sg_steps :: "TemplateStep list"
  sg_start :: nat

definition GENERATED_CONFIG_STEP :: TemplateStep where
  "GENERATED_CONFIG_STEP =
     \<lparr>ts_title = ''Replace nxlog.conf with this, then restart the NXLog service'',
      ts_body = Some (
        ''Built from the parts ticked above: one input block per part, one output, and one route carrying them all. '' @
        ''Change SYSLOGC_HOST to this server'' @ RSQUO @ ''s own name before using it '' @ EMDASH @
        '' it ships as an example, and the name has to '' @
        ''match the TLS certificate or NXLog refuses the connection, which looks like nothing arriving rather than like '' @
        ''a mistake. Then restart with: Restart-Service nxlog''),
      ts_config = None,
      ts_language = Some ''apache''\<rparr>"

definition step_runs :: "SourceTemplate \<Rightarrow> string list \<Rightarrow> (string \<times> TemplatePart option \<times> TemplateStep list) list" where
  "step_runs template parts =
     (let first = orElse (tset_steps (st_setup template)) [];
          closing = orElse (tset_closing (st_setup template)) []
      in (if first \<noteq> [] then [(''setup'', None, first)] else []) @
         concat (map (\<lambda>part. if orElse (tp_steps part) [] \<noteq> []
                              then [(''part:'' @ tp_id part, Some part, orElse (tp_steps part) [])] else [])
           (selectedTemplateParts (Some template) parts)) @
         (if orElse (st_parts template) [] \<noteq> [] then [(''config'', None, [GENERATED_CONFIG_STEP])] else []) @
         (if closing \<noteq> [] then [(''closing'', None, closing)] else []))"

definition push_run ::
  "TemplateStepGroup list \<Rightarrow> string \<times> TemplatePart option \<times> TemplateStep list \<Rightarrow> TemplateStepGroup list" where
  "push_run out run =
     (case run of (key, part, steps) \<Rightarrow>
        out @ [\<lparr>sg_key = key, sg_part = part, sg_steps = steps,
                sg_start = (if out = [] then 0 else sg_start (last out) + length (sg_steps (last out)))\<rparr>])"

definition templateSteps :: "SourceTemplate \<Rightarrow> string list \<Rightarrow> TemplateStepGroup list" where
  "templateSteps template parts = foldl push_run [] (step_runs template parts)"

definition CONFIG_LANGUAGES :: "(string \<times> string) list" where
  "CONFIG_LANGUAGES =
     [(''apache'', ''configuration file''), (''ini'', ''configuration file''), (''batch'', ''Windows commands''),
      (''powershell'', ''PowerShell''), (''shell'', ''shell commands''), (''sh'', ''shell commands''),
      (''bash'', ''shell commands''), (''yaml'', ''YAML''), (''json'', ''JSON''), (''xml'', ''XML''), (''sql'', ''SQL'')]"

definition configLanguageLabel :: "string option \<Rightarrow> string" where
  "configLanguageLabel language =
     (let key = (case language of None \<Rightarrow> [] | Some l \<Rightarrow> toLowerCase (trim l)) in
      case map_of CONFIG_LANGUAGES key of
        Some label \<Rightarrow> label
      | None \<Rightarrow> if key \<noteq> [] then key else ''configuration'')"

section \<open>Switching templates\<close>

definition sameRule :: "ExtractRuleForm \<Rightarrow> ExtractRule \<Rightarrow> bool" where
  "sameRule a b \<longleftrightarrow>
     trim (erf_regex a) = trim (er_regex b) \<and> trim (erf_prefix a) = trim (orElse (er_prefix b) [])"

definition template_rules :: "SourceTemplate option \<Rightarrow> ExtractRule list" where
  "template_rules template = (case template of None \<Rightarrow> [] | Some t \<Rightarrow> orElse (st_extract t) [])"

text \<open>The rules, the template id and the parts of the form after \<open>applyTemplate\<close>; the form itself is
  in theory \<open>Source_Form\<close>.\<close>

definition kept_rules :: "ExtractRuleForm list \<Rightarrow> SourceTemplate option \<Rightarrow> ExtractRuleForm list" where
  "kept_rules rules previous = filter (\<lambda>r. \<not> list_ex (sameRule r) (template_rules previous)) rules"

definition switch_rules ::
  "ExtractRuleForm list \<Rightarrow> SourceTemplate option \<Rightarrow> SourceTemplate option \<Rightarrow> nat \<Rightarrow> ExtractRuleForm list \<times> nat" where
  "switch_rules rules nxt previous ruleKeySeq =
     (let kept = kept_rules rules previous;
          (added, n) = newExtractRules
            (filter (\<lambda>r. \<not> list_ex (\<lambda>k. sameRule k r) kept) (template_rules nxt)) ruleKeySeq
      in (added @ kept, n))"

section \<open>What the definitions guarantee\<close>

lemma scan_groups_distinct:
  "distinct names \<Longrightarrow> distinct (scan_groups inClass names s)"
  by (induction inClass names s rule: scan_groups.induct)
    (auto simp: scan_groups.simps(2) Let_def split: option.split)

text \<open>A name a scan adds stands in the pattern between \<open>(?P<\<close> or \<open>(?<\<close> and \<open>>\<close>.\<close>

definition names_group :: "string \<Rightarrow> string \<Rightarrow> bool" where
  "names_group s name \<longleftrightarrow>
     name \<noteq> [] \<and> CHR ''>'' \<notin> set name \<and>
     (\<exists>a b. s = a @ ''(?P<'' @ name @ ''>'' @ b \<or> s = a @ ''(?<'' @ name @ ''>'' @ b)"

lemma names_group_append: "names_group s name \<Longrightarrow> names_group (a @ s) name"
  unfolding names_group_def by (metis append.assoc)

lemma names_group_Cons: "names_group s name \<Longrightarrow> names_group (c # s) name"
  using names_group_append [of s name "[c]"] by simp

lemma names_group_drop: "names_group (drop n s) name \<Longrightarrow> names_group s name"
  using names_group_append [of "drop n s" name "take n s"] by simp

lemma group_start_cases:
  "group_start s = Some r \<Longrightarrow> s = ''?P<'' @ r \<or> s = ''?<'' @ r"
  by (auto simp: group_start_def startsWith_iff split: if_splits)

lemma group_start_named:
  assumes "group_start cs = Some r" and "rest = dropWhile (\<lambda>x. x \<noteq> CHR ''>'') r" and "rest \<noteq> []"
    and "name = takeWhile (\<lambda>x. x \<noteq> CHR ''>'') r"
  shows "name \<noteq> [] \<Longrightarrow> names_group (CHR ''('' # cs) name"
    and "names_group (tl rest) n \<Longrightarrow> names_group (CHR ''('' # cs) n"
proof -
  have "hd rest = CHR ''>''"
    using assms(2,3) hd_dropWhile [of "\<lambda>x. x \<noteq> CHR ''>''" r] by blast
  then have hd: "rest = CHR ''>'' # tl rest" using assms(3) list.collapse [of rest] by simp
  have r: "r = name @ CHR ''>'' # tl rest"
    using takeWhile_dropWhile_id [of "\<lambda>x. x \<noteq> CHR ''>''" r] assms(2,4) hd by metis
  have no: "CHR ''>'' \<notin> set name" using assms(4) by (auto dest: set_takeWhileD)
  obtain p where p: "cs = p @ r" "p = ''?P<'' \<or> p = ''?<''"
    using group_start_cases [OF assms(1)] by auto
  show "names_group (CHR ''('' # cs) name" if "name \<noteq> []"
    unfolding names_group_def
    using that no p r by (intro conjI exI [of _ "[]"] exI [of _ "tl rest"]) auto
  show "names_group (CHR ''('' # cs) n" if "names_group (tl rest) n"
    using names_group_append [OF that, of "CHR ''('' # p @ name @ ''>''"] p r by simp
qed

lemma scan_groups_named:
  "n \<in> set (scan_groups inClass names s) \<Longrightarrow> n \<in> set names \<or> names_group s n"
proof (induction inClass names s rule: scan_groups.induct)
  case (2 inClass names c cs)
  note step = "2.prems" [unfolded scan_groups.simps(2) [of inClass names c cs]]
  show ?case
  proof (cases "c \<noteq> BSLASH \<and> \<not> inClass \<and> c = CHR ''(''")
    case False
    with step "2.IH"(1-4) show ?thesis
      by (auto split: if_splits option.splits dest: names_group_Cons names_group_drop)
  next
    case True
    note paren = this
    show ?thesis
    proof (cases "group_start cs")
      case None
      with paren step "2.IH"(5) show ?thesis by (auto dest: names_group_Cons split: if_splits)
    next
      case (Some r)
      let ?name = "takeWhile (\<lambda>x. x \<noteq> CHR ''>'') r" and ?rest = "dropWhile (\<lambda>x. x \<noteq> CHR ''>'') r"
      let ?names = "if ?name \<noteq> [] \<and> ?name \<notin> set names then names @ [?name] else names"
      show ?thesis
      proof (cases "?rest = []")
        case True
        with paren Some step show ?thesis by (auto simp: Let_def split: if_splits)
      next
        case False
        have "n \<in> set (scan_groups False ?names (tl ?rest))"
          using paren Some step False by (auto simp: Let_def split: if_splits)
        then have "n \<in> set ?names \<or> names_group (tl ?rest) n"
          using "2.IH"(6) [OF _ _ _ _ Some refl refl False] paren by auto
        then show ?thesis
          using group_start_named [OF Some refl False refl] paren by (auto split: if_splits)
      qed
    qed
  qed
qed simp

lemma captureGroupNames_named: "n \<in> set (captureGroupNames s) \<Longrightarrow> names_group s n"
  by (auto simp: captureGroupNames_def dest: scan_groups_named split: if_splits)

section \<open>Parts\<close>

text \<open>A template whose part ids are told apart by the comparison the code makes.\<close>

definition parts_wf :: "SourceTemplate option \<Rightarrow> bool" where
  "parts_wf template \<longleftrightarrow>
     inj_on (toLowerCase \<circ> tp_id) (set (template_part_list template)) \<and>
     list_all (\<lambda>p. trimmed (tp_id p)) (template_part_list template)"

lemma resolve_explicit:
  assumes "parts_wf t" and "stored \<noteq> []" and "set stored \<subseteq> tp_id ` set (template_part_list t)"
  shows "resolveTemplateParts t stored = map tp_id (filter (\<lambda>p. tp_id p \<in> set stored) (template_part_list t))"
proof -
  have trims: "i \<in> set stored \<Longrightarrow> trim i = i" for i
    using assms(1,3) by (auto simp: parts_wf_def list_all_iff trim_id)
  have "toLowerCase (tp_id p) \<in> (\<lambda>i. toLowerCase (trim i)) ` set stored \<longleftrightarrow> tp_id p \<in> set stored"
    if p: "p \<in> set (template_part_list t)" for p
  proof
    assume "toLowerCase (tp_id p) \<in> (\<lambda>i. toLowerCase (trim i)) ` set stored"
    then obtain i where i: "i \<in> set stored" "toLowerCase (tp_id p) = toLowerCase i" using trims by auto
    with assms(3) obtain q where q: "q \<in> set (template_part_list t)" "i = tp_id q" by auto
    with i p assms(1) have "p = q" by (auto simp: parts_wf_def inj_on_def)
    with i q show "tp_id p \<in> set stored" by simp
  next
    assume "tp_id p \<in> set stored"
    then show "toLowerCase (tp_id p) \<in> (\<lambda>i. toLowerCase (trim i)) ` set stored"
      using trims by (auto intro!: image_eqI [of _ _ "tp_id p"])
  qed
  then have "filter (\<lambda>p. toLowerCase (tp_id p) \<in> (\<lambda>i. toLowerCase (trim i)) ` set stored) (template_part_list t) =
      filter (\<lambda>p. tp_id p \<in> set stored) (template_part_list t)"
    by (intro filter_cong) auto
  moreover have "template_part_list t \<noteq> []" using assms(2,3) by (cases stored) auto
  ultimately show ?thesis using assms(2) by (simp add: resolveTemplateParts_def)
qed

lemma toggle_subset: "set (toggleTemplatePart t stored i on) \<subseteq> tp_id ` set (template_part_list t)"
  by (auto simp: toggleTemplatePart_def Let_def)

lemma resolve_subset: "set (resolveTemplateParts t stored) \<subseteq> tp_id ` set (template_part_list t)"
  by (auto simp: resolveTemplateParts_def templateDefaultParts_def Let_def split: if_splits)

lemma set_toggle:
  "set (toggleTemplatePart t stored i on) =
     {j \<in> tp_id ` set (template_part_list t).
        (if j = i then on else j \<in> set (resolveTemplateParts t stored))}"
  using resolve_subset [of t stored] by (auto simp: toggleTemplatePart_def Let_def)

lemma resolve_toggle:
  assumes "parts_wf t" and "toggleTemplatePart t stored i on \<noteq> []"
  shows "resolveTemplateParts t (toggleTemplatePart t stored i on) = toggleTemplatePart t stored i on"
proof -
  let ?new = "toggleTemplatePart t stored i on"
  have "map tp_id (filter (\<lambda>p. tp_id p \<in> set ?new) (template_part_list t)) = ?new"
    unfolding set_toggle by (auto simp: toggleTemplatePart_def Let_def intro!: arg_cong [of _ _ "map tp_id"] filter_cong)
  then show ?thesis using resolve_explicit [OF assms toggle_subset] by simp
qed

section \<open>Numbering the guide\<close>

lemma push_run_length: "length (foldl push_run out runs) = length out + length runs"
  by (induction runs arbitrary: out) (auto simp: push_run_def split: prod.splits)

definition numbered :: "TemplateStepGroup list \<Rightarrow> bool" where
  "numbered gs \<longleftrightarrow> (\<forall>i < length gs. sg_start (gs ! i) = length (concat (map sg_steps (take i gs))))"

lemma concat_snoc_last:
  "gs \<noteq> [] \<Longrightarrow> length (concat (map sg_steps gs)) =
     length (concat (map sg_steps (butlast gs))) + length (sg_steps (last gs))"
  by (induction gs rule: rev_induct) auto

lemma push_run_numbered: "numbered gs \<Longrightarrow> numbered (push_run gs run)"
proof -
  assume n: "numbered gs"
  obtain k p s where run: "run = (k, p, s)" by (cases run)
  have last: "gs \<noteq> [] \<Longrightarrow> sg_start (last gs) + length (sg_steps (last gs)) = length (concat (map sg_steps gs))"
    using n concat_snoc_last [of gs]
    by (auto simp: numbered_def last_conv_nth butlast_conv_take)
  show ?thesis
    unfolding numbered_def
  proof (intro allI impI)
    fix i assume "i < length (push_run gs run)"
    then consider "i < length gs" | "i = length gs" by (auto simp: push_run_def run less_Suc_eq)
    then show "sg_start (push_run gs run ! i) = length (concat (map sg_steps (take i (push_run gs run))))"
    proof cases
      case 1
      with n show ?thesis by (simp add: numbered_def push_run_def run nth_append)
    next
      case 2
      with last show ?thesis by (auto simp: push_run_def run)
    qed
  qed
qed

lemma templateSteps_numbered: "numbered (templateSteps t parts)"
proof -
  have "numbered (foldl push_run gs runs)" if "numbered gs" for gs runs
    using that by (induction runs arbitrary: gs) (auto intro: push_run_numbered)
  then show ?thesis unfolding templateSteps_def by (simp add: numbered_def)
qed

lemma push_run_steps: "map (\<lambda>g. (sg_key g, sg_part g, sg_steps g)) (foldl push_run out runs) =
    map (\<lambda>g. (sg_key g, sg_part g, sg_steps g)) out @ runs"
  by (induction runs arbitrary: out) (auto simp: push_run_def split: prod.splits)

section \<open>Rule keys\<close>

definition keys_fresh :: "nat \<Rightarrow> ExtractRuleForm list \<Rightarrow> bool" where
  "keys_fresh n rules \<longleftrightarrow>
     distinct (map erf_key rules) \<and> (\<forall>r \<in> set rules. \<exists>k. 1 \<le> k \<and> k \<le> n \<and> erf_key r = ruleKey k)"

lemma ruleKey_inject [simp]: "ruleKey m = ruleKey n \<longleftrightarrow> m = n"
  by (simp add: ruleKey_def)

lemma newExtractRules_keys:
  "newExtractRules rs n = (fs, n') \<Longrightarrow>
     n' = n + length rs \<and> map erf_key fs = map ruleKey [Suc n..<Suc n']"
proof (induction rs arbitrary: n fs n')
  case Nil
  then show ?case by simp
next
  case (Cons r rs)
  obtain gs m where rec: "newExtractRules rs (Suc n) = (gs, m)" by fastforce
  with Cons.IH have "m = Suc n + length rs" "map erf_key gs = map ruleKey [Suc (Suc n)..<Suc m]" by blast+
  with rec Cons.prems show ?case
    by (auto simp: newExtractRule_def Let_def upt_conv_Cons simp del: upt_Suc)
qed

lemma newExtractRules_fields:
  "newExtractRules rs n = (fs, n') \<Longrightarrow>
     map (\<lambda>f. (erf_name f, erf_contains f, erf_prefix f, erf_regex f)) fs =
     map (\<lambda>r. (orElse (er_name r) [], orElse (er_contains r) [], orElse (er_prefix r) [], er_regex r)) rs"
  by (induction rs arbitrary: n fs n') (auto simp: newExtractRule_def Let_def split: prod.splits)

lemma newExtractRules_same:
  "newExtractRules rs n = (fs, n') \<Longrightarrow> list_all2 sameRule fs rs"
proof (induction rs arbitrary: n fs n')
  case (Cons r rs)
  then show ?case by (auto simp: newExtractRule_def Let_def sameRule_def split: prod.splits)
qed auto

lemma keys_fresh_filter: "keys_fresh n rules \<Longrightarrow> keys_fresh n (filter P rules)"
  by (auto simp: keys_fresh_def distinct_map intro: inj_on_subset)

lemma newExtractRules_fresh:
  assumes "newExtractRules rs n = (fs, n')" and "keys_fresh n rules"
  shows "keys_fresh n' (fs @ rules)"
proof -
  from newExtractRules_keys [OF assms(1)] have n': "n' = n + length rs"
    and ks: "map erf_key fs = map ruleKey [Suc n..<Suc n']" by blast+
  have new: "\<exists>k. n < k \<and> k \<le> n' \<and> erf_key f = ruleKey k" if "f \<in> set fs" for f
  proof -
    from that have "erf_key f \<in> set (map erf_key fs)" by simp
    then show ?thesis unfolding ks by (auto simp: Suc_le_eq less_Suc_eq_le simp del: upt_Suc)
  qed
  have old: "\<exists>k. 1 \<le> k \<and> k \<le> n \<and> erf_key r = ruleKey k" if "r \<in> set rules" for r
    using assms(2) that by (auto simp: keys_fresh_def)
  have "distinct (map erf_key fs)"
    unfolding ks by (simp add: distinct_map inj_on_def del: upt_Suc)
  moreover have "set (map erf_key fs) \<inter> set (map erf_key rules) = {}"
    using new old by fastforce
  ultimately show ?thesis
    using assms(2) new old n' unfolding keys_fresh_def
    by (auto simp: distinct_append) (metis Suc_leI le_add1 le_trans less_Suc_eq_0_disj not_less_eq_eq)+
qed

lemma switch_rules_fresh:
  "switch_rules rules nxt previous n = (rs, n') \<Longrightarrow> keys_fresh n rules \<Longrightarrow> keys_fresh n' rs"
  by (auto simp: switch_rules_def Let_def kept_rules_def split: prod.splits
      intro!: newExtractRules_fresh keys_fresh_filter)

lemma switch_rules_covers:
  assumes "switch_rules rules nxt previous n = (rs, n')" and "r \<in> set (template_rules nxt)"
  shows "\<exists>k \<in> set rs. sameRule k r"
proof -
  let ?kept = "kept_rules rules previous"
  let ?new = "filter (\<lambda>r. \<not> list_ex (\<lambda>k. sameRule k r) ?kept) (template_rules nxt)"
  obtain added where a: "newExtractRules ?new n = (added, n')" and rs: "rs = added @ ?kept"
    using assms(1) by (auto simp: switch_rules_def Let_def split: prod.splits)
  show ?thesis
  proof (cases "r \<in> set ?new")
    case True
    then obtain i where "i < length ?new" "?new ! i = r" unfolding in_set_conv_nth by blast
    with newExtractRules_same [OF a] have "sameRule (added ! i) r" "added ! i \<in> set added"
      by (auto simp: list_all2_conv_all_nth)
    with rs show ?thesis by auto
  next
    case False
    with assms(2) rs show ?thesis by (auto simp: list_ex_iff)
  qed
qed

lemma switch_rules_undo:
  assumes "switch_rules rules (Some t) None n = (rs, n1)" and "switch_rules rs None (Some t) n1 = (rs2, n2)"
  shows "rs2 = kept_rules rules (Some t) \<and> n2 = n1"
proof -
  let ?new = "filter (\<lambda>r. \<not> list_ex (\<lambda>k. sameRule k r) rules) (template_rules (Some t))"
  obtain added where a: "newExtractRules ?new n = (added, n1)" and rs: "rs = added @ rules"
    using assms(1) by (auto simp: switch_rules_def kept_rules_def template_rules_def Let_def split: prod.splits)
  have "filter (\<lambda>r. \<not> list_ex (sameRule r) (template_rules (Some t))) added = []"
  proof (rule ccontr)
    assume "filter (\<lambda>r. \<not> list_ex (sameRule r) (template_rules (Some t))) added \<noteq> []"
    then obtain f where f: "f \<in> set added" "\<not> list_ex (sameRule f) (template_rules (Some t))"
      by (auto simp: filter_empty_conv)
    then obtain i where i: "i < length added" "added ! i = f" by (auto simp: in_set_conv_nth)
    with newExtractRules_same [OF a] have "sameRule f (?new ! i)" "?new ! i \<in> set ?new"
      by (auto simp: list_all2_conv_all_nth simp del: set_filter)
    with f show False by (auto simp: list_ex_iff)
  qed
  with assms(2) rs show ?thesis
    by (simp add: switch_rules_def kept_rules_def template_rules_def)
qed

section \<open>Properties\<close>

text \<open>The names shown for a pattern are distinct, and each is the name of a group the pattern spells
  as \<open>(?P<name>\<close> or \<open>(?<name>\<close>.\<close>

lemma captureGroupNames_sound:
  "distinct (captureGroupNames regex) \<and> list_all (names_group regex) (captureGroupNames regex)"
  by (simp add: list_all_iff captureGroupNames_named) (simp add: captureGroupNames_def scan_groups_distinct)

text \<open>Ticking or unticking a part is what the source then carries: as long as one part is left, the
  stored list resolves to itself, holds the part exactly when it was ticked, and keeps every other.\<close>

lemma toggleTemplatePart_resolves:
  assumes "parts_wf t" and "toggleTemplatePart t stored i on \<noteq> []"
  shows "resolveTemplateParts t (toggleTemplatePart t stored i on) = toggleTemplatePart t stored i on \<and>
    set (toggleTemplatePart t stored i on) =
      {j \<in> tp_id ` set (template_part_list t).
         (if j = i then on else j \<in> set (resolveTemplateParts t stored))}"
  using resolve_toggle [OF assms] set_toggle by blast

definition sample_part :: "string \<Rightarrow> bool \<Rightarrow> TemplatePart" where
  "sample_part i d =
     \<lparr>tp_id = i, tp_title = i, tp_description = [], tp_default = Some d, tp_fields = None,
      tp_analyses = Some [i], tp_steps = Some [\<lparr>ts_title = i, ts_body = None, ts_config = None, ts_language = None\<rparr>]\<rparr>"

definition sample_template :: SourceTemplate where
  "sample_template =
     \<lparr>st_id = ''win'', st_title = ''Windows'', st_description = [],
      st_extract = Some [\<lparr>er_name = None, er_contains = None, er_prefix = None, er_regex = ''(?P<a>x)''\<rparr>],
      st_fields = None, st_analyses = None,
      st_parts = Some [sample_part ''security'' True, sample_part ''iis'' False],
      st_setup = \<lparr>tset_sender = ''NXLog'', tset_summary = [], tset_steps = None,
                  tset_closing = Some [\<lparr>ts_title = ''c'', ts_body = None, ts_config = None, ts_language = None\<rparr>]\<rparr>\<rparr>"

lemma toggleTemplatePart_resolves_witness:
  "resolveTemplateParts (Some sample_template) (toggleTemplatePart (Some sample_template) [] ''iis'' True) =
     [''security'', ''iis'']"
proof -
  have t: "toggleTemplatePart (Some sample_template) [] ''iis'' True = [''security'', ''iis'']" by code_simp
  have "parts_wf (Some sample_template)"
    by (simp add: parts_wf_def template_part_list_def sample_template_def sample_part_def inj_on_def toLowerCase_def
        lower_char_def trimmed_def is_space_def)
  with toggleTemplatePart_resolves [of "Some sample_template" "[]" "''iis''" True] t show ?thesis by simp
qed

text \<open>Unticking the last part leaves an empty list, which is read as the defaults: the part comes back.\<close>

lemma toggle_last_part:
  "toggleTemplatePart (Some sample_template) [''security''] ''security'' False = [] \<and>
   resolveTemplateParts (Some sample_template) [] = [''security'']"
  by code_simp

text \<open>The setup guide is one numbered sequence: it holds the template's steps, those of each carried
  part, the generated configuration and the closing steps in that order, and each group
  starts where the ones before it end.\<close>

lemma templateSteps_sequence:
  "map (\<lambda>g. (sg_key g, sg_part g, sg_steps g)) (templateSteps t parts) = step_runs t parts \<and>
   numbered (templateSteps t parts)"
  using push_run_steps [of "[]" "step_runs t parts"] templateSteps_numbered by (simp add: templateSteps_def)



end
