(* ===== verification/Js_Numbers.thy ===== *)
theory Js_Numbers
  imports Complex_Main "HOL-Library.Word" Prelude
begin

text \<open>
  JavaScript numbers as the sources use them: \<open>Number(text)\<close>, comparison, rounding and the
  32-bit operators. A finite number is its exact rational value; the rounding of a
  double to 53 bits and the sign of zero are not modelled.
\<close>

unbundle bit_operations_syntax

datatype JsNum = NaN | PosInf | NegInf | Num rat

section \<open>Number of a string\<close>

text \<open>A \<open>StrDecimalLiteral\<close> without its sign: digits, a fraction and an exponent.\<close>

definition exponent_part :: "string \<Rightarrow> int option" where
  "exponent_part s =
     (case s of
        [] \<Rightarrow> Some 0
      | c # r \<Rightarrow>
          if c = CHR ''e'' \<or> c = CHR ''E'' then
            (case r of
               [] \<Rightarrow> None
             | d # r' \<Rightarrow>
                 if d = CHR ''-'' then (if all_digits r' then Some (- int (read_nat r')) else None)
                 else if d = CHR ''+'' then (if all_digits r' then Some (int (read_nat r')) else None)
                 else if all_digits r then Some (int (read_nat r)) else None)
          else None)"

definition scale10 :: "rat \<Rightarrow> int \<Rightarrow> rat" where
  "scale10 q e = (if 0 \<le> e then q * 10 ^ nat e else q / 10 ^ nat (- e))"

definition decimal_literal :: "string \<Rightarrow> rat option" where
  "decimal_literal s =
     (let ip = takeWhile is_digit s;
          r = dropWhile is_digit s;
          dot = (r \<noteq> [] \<and> hd r = CHR ''.'');
          fp = (if dot then takeWhile is_digit (tl r) else []);
          r2 = (if dot then dropWhile is_digit (tl r) else r)
      in if ip = [] \<and> fp = [] then None
         else map_option (scale10 (of_nat (read_nat ip) + of_nat (read_nat fp) / 10 ^ length fp))
                (exponent_part r2))"

definition radix_digit :: "char \<Rightarrow> nat option" where
  "radix_digit c =
     (let n = (of_char c :: nat) in
      if 48 \<le> n \<and> n \<le> 57 then Some (n - 48)
      else if 97 \<le> n \<and> n \<le> 122 then Some (n - 87)
      else if 65 \<le> n \<and> n \<le> 90 then Some (n - 55)
      else None)"

definition radix_literal :: "nat \<Rightarrow> string \<Rightarrow> nat option" where
  "radix_literal b s =
     (if s \<noteq> [] \<and> list_all (\<lambda>c. case radix_digit c of None \<Rightarrow> False | Some d \<Rightarrow> d < b) s
      then Some (foldl (\<lambda>n c. b * n + the (radix_digit c)) 0 s) else None)"

definition of_rat_option :: "rat option \<Rightarrow> JsNum" where
  "of_rat_option m = (case m of None \<Rightarrow> NaN | Some q \<Rightarrow> Num q)"

definition unsigned_number :: "string \<Rightarrow> JsNum" where
  "unsigned_number s =
     (if s = ''Infinity'' then PosInf else of_rat_option (decimal_literal s))"

definition js_neg :: "JsNum \<Rightarrow> JsNum" where
  "js_neg x = (case x of NaN \<Rightarrow> NaN | PosInf \<Rightarrow> NegInf | NegInf \<Rightarrow> PosInf | Num q \<Rightarrow> Num (- q))"

definition Number :: "string \<Rightarrow> JsNum" where
  "Number s =
     (case trim s of
        [] \<Rightarrow> Num 0
      | c # r \<Rightarrow>
          if c = CHR ''0'' \<and> r \<noteq> [] \<and> hd r \<in> set ''xX''
          then of_rat_option (map_option of_nat (radix_literal 16 (tl r)))
          else if c = CHR ''0'' \<and> r \<noteq> [] \<and> hd r \<in> set ''oO''
          then of_rat_option (map_option of_nat (radix_literal 8 (tl r)))
          else if c = CHR ''0'' \<and> r \<noteq> [] \<and> hd r \<in> set ''bB''
          then of_rat_option (map_option of_nat (radix_literal 2 (tl r)))
          else if c = CHR ''-'' then js_neg (unsigned_number r)
          else if c = CHR ''+'' then unsigned_number r
          else unsigned_number (c # r))"

section \<open>Comparison and arithmetic\<close>

fun js_less :: "JsNum \<Rightarrow> JsNum \<Rightarrow> bool" where
  "js_less (Num a) (Num b) = (a < b)"
| "js_less NegInf (Num b) = True"
| "js_less NegInf PosInf = True"
| "js_less (Num a) PosInf = True"
| "js_less _ _ = False"

fun js_eq :: "JsNum \<Rightarrow> JsNum \<Rightarrow> bool" where
  "js_eq NaN _ = False"
| "js_eq _ NaN = False"
| "js_eq a b = (a = b)"

definition js_le :: "JsNum \<Rightarrow> JsNum \<Rightarrow> bool" where
  "js_le a b \<longleftrightarrow> js_less a b \<or> js_eq a b"

fun js_minus :: "JsNum \<Rightarrow> JsNum \<Rightarrow> JsNum" where
  "js_minus (Num a) (Num b) = Num (a - b)"
| "js_minus NaN _ = NaN"
| "js_minus _ NaN = NaN"
| "js_minus PosInf PosInf = NaN"
| "js_minus NegInf NegInf = NaN"
| "js_minus PosInf _ = PosInf"
| "js_minus NegInf _ = NegInf"
| "js_minus _ PosInf = NegInf"
| "js_minus _ NegInf = PosInf"

definition isInteger :: "JsNum \<Rightarrow> bool" where
  "isInteger x = (case x of Num q \<Rightarrow> of_int \<lfloor>q\<rfloor> = q | _ \<Rightarrow> False)"

text \<open>\<open>Math.trunc\<close>, \<open>Math.round\<close> (halves go up) and \<open>ToUint32\<close>.\<close>

definition trunc_rat :: "rat \<Rightarrow> int" where
  "trunc_rat q = (if q < 0 then \<lceil>q\<rceil> else \<lfloor>q\<rfloor>)"

definition Math_round :: "rat \<Rightarrow> int" where
  "Math_round q = \<lfloor>q + 1 / 2\<rfloor>"

definition toUint32 :: "JsNum \<Rightarrow> 32 word" where
  "toUint32 x = (case x of Num q \<Rightarrow> word_of_int (trunc_rat q) | _ \<Rightarrow> 0)"

text \<open>\<open>a << b\<close> on 32 bits: the shift count is taken modulo 32.\<close>

definition shl32 :: "32 word \<Rightarrow> JsNum \<Rightarrow> 32 word" where
  "shl32 w n = push_bit (unat (toUint32 n AND 31)) w"

section \<open>Facts\<close>

lemma js_less_irrefl [simp]: "\<not> js_less a a"
  by (cases a) auto

lemma js_less_trans: "js_less a b \<Longrightarrow> js_less b c \<Longrightarrow> js_less a c"
  by (cases a; cases b; cases c) auto

lemma js_not_less: "a \<noteq> NaN \<Longrightarrow> b \<noteq> NaN \<Longrightarrow> (\<not> js_less a b) = js_le b a"
  by (cases a; cases b) (auto simp: js_le_def)

lemma js_le_NaN [simp]: "\<not> js_le NaN b" "\<not> js_le a NaN"
  by (cases b; simp add: js_le_def) (cases a; simp add: js_le_def)

lemma all_digits_takeWhile: "all_digits s \<Longrightarrow> takeWhile is_digit s = s"
  by (simp add: all_digits_def list_all_iff takeWhile_eq_all_conv)

lemma all_digits_dropWhile: "all_digits s \<Longrightarrow> dropWhile is_digit s = []"
  by (simp add: all_digits_def list_all_iff)

lemma decimal_literal_digits: "all_digits s \<Longrightarrow> decimal_literal s = Some (of_nat (read_nat s))"
  by (auto simp: decimal_literal_def all_digits_takeWhile all_digits_dropWhile exponent_part_def
      scale10_def read_nat_def all_digits_def)

lemma digit_not_sign: "is_digit c \<Longrightarrow> c \<noteq> CHR ''-'' \<and> c \<noteq> CHR ''+''"
  by (auto simp: is_digit_def)

lemma digits_not_letters:
  "is_digit c \<Longrightarrow> c \<notin> set ''xXoObB''"
  by (auto simp: is_digit_def)

lemma all_digits_trim: "all_digits s \<Longrightarrow> trim s = s"
  by (rule trim_no_space) (auto simp: all_digits_def list_all_iff digit_not_space)

lemma Number_digits [simp]:
  assumes "all_digits s"
  shows "Number s = Num (of_nat (read_nat s))"
proof -
  obtain c r where s: "s = c # r" and c: "is_digit c" and r: "list_all is_digit r"
    using assms by (cases s) (auto simp: all_digits_def)
  have h: "r \<noteq> [] \<Longrightarrow> hd r \<notin> set ''xXoObB''"
    using r digits_not_letters [of "hd r"] by (cases r) auto
  have "s \<noteq> ''Infinity''" using s c by (auto simp: is_digit_def)
  then have "unsigned_number s = Num (of_nat (read_nat s))"
    by (simp add: unsigned_number_def decimal_literal_digits [OF assms] of_rat_option_def)
  moreover have "trim (c # r) = c # r" using all_digits_trim [OF assms] s by simp
  then have "Number s = unsigned_number s"
    using h digit_not_sign [OF c] by (auto simp: Number_def s)
  ultimately show ?thesis by simp
qed

lemma Number_show_nat: "Number (show_nat n) = Num (of_nat n)"
  by simp

lemma Number_trim [simp]: "Number (trim s) = Number s"
  by (simp add: Number_def)

lemma Math_round_int [simp]: "Math_round (of_int i) = i"
  by (simp add: Math_round_def floor_eq_iff)

lemma Math_round_near: "\<bar>of_int (Math_round q) - q\<bar> \<le> 1 / 2"
proof -
  have "of_int (Math_round q) \<le> q + 1 / 2" and "q + 1 / 2 < of_int (Math_round q) + 1"
    unfolding Math_round_def by linarith+
  then show ?thesis unfolding abs_le_iff by linarith
qed

lemma number_examples:
  "Number ''  42 '' = Num 42" "Number '''' = Num 0" "Number ''1e3'' = Num 1000" "Number ''abc'' = NaN"
  "Number ''0x1F'' = Num 31" "Number ''-.5'' = Num (-1/2)" "Number ''1.'' = Num 1" "Number ''.'' = NaN"
  by code_simp+

end
