(* ===== verification/Form_Fields.thy ===== *)
theory Form_Fields
  imports Prelude Js_Numbers "HOL-Library.AList"
begin

text \<open>
  Text fields of the two editors (sources and forward targets): the normal forms of optional
  texts and of lists typed one per line, and what reading them back gives.
\<close>

definition text_item :: "string \<Rightarrow> bool" where
  "text_item s \<longleftrightarrow> s \<noteq> [] \<and> trimmed s"

definition opt_text :: "string option \<Rightarrow> bool" where
  "opt_text m = (case m of None \<Rightarrow> True | Some s \<Rightarrow> text_item s)"

definition list_sep :: "char \<Rightarrow> bool" where
  "list_sep c \<longleftrightarrow> c = NL \<or> c = CHR '',''"

definition opt_items :: "string list option \<Rightarrow> bool" where
  "opt_items m = (case m of None \<Rightarrow> True | Some xs \<Rightarrow> xs \<noteq> [] \<and> list_all (list_item list_sep) xs)"

lemma text_item_trim [simp]: "text_item s \<Longrightarrow> trim s = s"
  by (simp add: text_item_def trim_id)

lemma nonempty_text [simp]: "opt_text m \<Longrightarrow> nonempty (trim (orElse m [])) = m"
  by (cases m) (auto simp: opt_text_def text_item_def nonempty_def trim_id)

lemma opt_text_nonempty_trim [simp]: "opt_text (nonempty (trim s))"
  by (auto simp: opt_text_def text_item_def nonempty_def)

lemma list_texts_join: "list_all (list_item list_sep) xs \<Longrightarrow> split_list list_sep (join [NL] xs) = xs"
  using split_list_join [of xs list_sep NL] by (simp add: list_all_iff list_sep_def)

lemma nonempty_list_texts [simp]:
  "opt_items m \<Longrightarrow> nonempty (split_list list_sep (join [NL] (orElse m []))) = m"
  by (cases m) (auto simp: opt_items_def list_texts_join nonempty_def)

lemma opt_items_list_texts [simp]: "opt_items (nonempty (split_list list_sep s))"
  using split_list_item by (auto simp: opt_items_def nonempty_def list_all_iff)

lemma opt_text_Some [simp]: "opt_text (Some s) = text_item s"
  by (simp add: opt_text_def)

lemma opt_text_None [simp]: "opt_text None"
  by (simp add: opt_text_def)

lemma text_item_neq_Nil [simp]: "\<not> text_item []"
  by (simp add: text_item_def)

lemma text_item_Nil_neq: "text_item s \<Longrightarrow> s \<noteq> []"
  by (simp add: text_item_def)

lemma opt_text_blank [simp]: "opt_text m \<Longrightarrow> trim (orElse m []) = [] \<longleftrightarrow> m = None"
  by (cases m) (auto simp: text_item_def trim_id)

lemma opt_text_value [simp]: "opt_text m \<Longrightarrow> m \<noteq> None \<Longrightarrow> Some (trim (orElse m [])) = m"
  by (cases m) (auto simp: text_item_def trim_id)

lemma update_not_Nil [simp]: "AList.update k v al \<noteq> []"
  by (induction al) auto

lemma opt_list_text [simp]: "m \<noteq> Some [] \<Longrightarrow> nonempty (orElse m []) = m"
  by (cases m) (auto simp: nonempty_def)

end
