(* ===== verification/Source_Form.thy ===== *)
theory Source_Form
  imports Source_Templates Form_Fields
begin

text \<open>
  The source editor: the second part of \<open>src/frontend/src/features/sources/source-form.ts\<close>, the
  conversions between the editor's form and the \<open>SourceConfig\<close> the API stores.

  A form field is named by its property name. An object keyed by fields, rules or labels is
  an association list in insertion order; filling in errors is a state that every check
  passes on.
\<close>

section \<open>The stored configuration\<close>

datatype SourceType = Syslog | Http_json
datatype Protocol = Udp | Tcp | Tls
datatype SourceFormat = Fmt_auto | Fmt_rfc5424 | Fmt_rfc3164
datatype RawMessage = Raw_always | Raw_on_error | Raw_never
datatype HostnameFallback = Fallback_none | Fallback_ip
datatype SdFlatten = Sd_full | Sd_short
datatype Framing = Framing_auto | Octet_counting | Framing_lf | Framing_nul
datatype TlsVersion = V1_2 | V1_3
datatype ClientAuth = Auth_none | Auth_request | Require_and_verify
datatype TlsMode = Mode_acme | Mode_paste | Mode_files

record SourceUDPConfig =
  udp_sockets :: "nat option"
  udp_read_buffer_bytes :: "string option"

record SourceACMEConfig =
  acme_enabled :: "bool option"
  acme_domains :: "string list option"
  acme_email :: "string option"
  acme_staging :: "bool option"
  acme_accept_terms :: "bool option"
  acme_skip_preflight :: "bool option"

record SourceTLSConfig =
  tls_cert_file :: "string option"
  tls_key_file :: "string option"
  tls_cert :: "string option"
  tls_key :: "string option"
  tls_min_version :: "TlsVersion option"
  tls_client_auth :: "ClientAuth option"
  tls_client_ca_file :: "string option"
  tls_client_ca :: "string option"
  tls_acme :: "SourceACMEConfig option"

record SourceConfig =
  sc_name :: string
  sc_type :: SourceType
  sc_protocol :: "Protocol option"
  sc_address :: "string option"
  sc_format :: "SourceFormat option"
  sc_timezone :: "string option"
  sc_allowed_cidrs :: "string list option"
  sc_max_message_bytes :: "string option"
  sc_raw_message :: "RawMessage option"
  sc_hostname_fallback :: "HostnameFallback option"
  sc_sd_flatten :: "SdFlatten option"
  sc_labels :: "(string \<times> string) list option"
  sc_framing :: "Framing option"
  sc_max_connections :: "nat option"
  sc_idle_timeout :: "string option"
  sc_udp :: "SourceUDPConfig option"
  sc_tls :: "SourceTLSConfig option"
  sc_extract :: "ExtractRule list option"
  sc_template :: "string option"
  sc_template_parts :: "string list option"

record ManagedSource =
  ms_id :: "string option"
  ms_config :: SourceConfig
  ms_enabled :: bool
  ms_key_stored :: "bool option"

section \<open>The form\<close>

record SourceFormState =
  f_name :: string
  f_type :: SourceType
  f_enabled :: bool
  f_protocol :: Protocol
  f_address :: string
  f_format :: SourceFormat
  f_timezone :: string
  f_allowed_cidrs :: string
  f_max_message_bytes :: string
  f_raw_message :: RawMessage
  f_hostname_fallback :: HostnameFallback
  f_sd_flatten :: SdFlatten
  f_labels :: string
  f_framing :: Framing
  f_max_connections :: string
  f_idle_timeout :: string
  f_udp_sockets :: string
  f_udp_read_buffer_bytes :: string
  f_tls_mode :: TlsMode
  f_tls_cert_file :: string
  f_tls_key_file :: string
  f_tls_cert :: string
  f_tls_key :: string
  f_tls_key_stored :: bool
  f_tls_min_version :: TlsVersion
  f_tls_client_auth :: ClientAuth
  f_tls_client_ca_file :: string
  f_tls_client_ca :: string
  f_tls_acme_domains :: string
  f_tls_acme_email :: string
  f_tls_acme_staging :: bool
  f_tls_acme_accept_terms :: bool
  f_tls_acme_skip_preflight :: bool
  f_extract :: "ExtractRuleForm list"
  f_template :: string
  f_template_parts :: "string list"

definition DEFAULT_SOURCE_FORM :: SourceFormState where
  "DEFAULT_SOURCE_FORM =
     \<lparr>f_name = [], f_type = Syslog, f_enabled = True, f_protocol = Udp, f_address = '':5514'', f_format = Fmt_auto,
      f_timezone = ''UTC'', f_allowed_cidrs = [], f_max_message_bytes = [], f_raw_message = Raw_on_error,
      f_hostname_fallback = Fallback_none, f_sd_flatten = Sd_full, f_labels = [], f_framing = Framing_auto,
      f_max_connections = [], f_idle_timeout = [], f_udp_sockets = [], f_udp_read_buffer_bytes = [],
      f_tls_mode = Mode_paste, f_tls_cert_file = [], f_tls_key_file = [], f_tls_cert = [], f_tls_key = [],
      f_tls_key_stored = False, f_tls_min_version = V1_2, f_tls_client_auth = Auth_none,
      f_tls_client_ca_file = [], f_tls_client_ca = [], f_tls_acme_domains = [], f_tls_acme_email = [],
      f_tls_acme_staging = True, f_tls_acme_accept_terms = False, f_tls_acme_skip_preflight = False,
      f_extract = [], f_template = TEMPLATE_NONE, f_template_parts = []\<rparr>"

definition applyTemplate ::
  "SourceFormState \<Rightarrow> SourceTemplate option \<Rightarrow> SourceTemplate option \<Rightarrow> nat \<Rightarrow> SourceFormState \<times> nat" where
  "applyTemplate form nxt previous ruleKeySeq =
     (let (rules, n) = switch_rules (f_extract form) nxt previous ruleKeySeq in
      (form\<lparr>f_template := (case nxt of None \<Rightarrow> TEMPLATE_NONE | Some t \<Rightarrow> st_id t),
            f_template_parts := templateDefaultParts nxt,
            f_extract := rules\<rparr>, n))"

record SourceSections =
  sec_network :: bool
  sec_stream :: bool
  sec_udp :: bool
  sec_tls :: bool

definition sourceSections :: "SourceFormState \<Rightarrow> SourceSections" where
  "sourceSections f =
     (let syslog = (f_type f = Syslog) in
      \<lparr>sec_network = syslog,
       sec_stream = (syslog \<and> (f_protocol f = Tcp \<or> f_protocol f = Tls)),
       sec_udp = (syslog \<and> f_protocol f = Udp),
       sec_tls = (syslog \<and> f_protocol f = Tls)\<rparr>)"

definition tlsMode :: "SourceTLSConfig option \<Rightarrow> bool \<Rightarrow> TlsMode" where
  "tlsMode tls keyStored =
     (let acme = Option.bind tls tls_acme;
          cert = orElse (Option.bind tls tls_cert) [];
          cert_file = orElse (Option.bind tls tls_cert_file) [];
          key_file = orElse (Option.bind tls tls_key_file) []
      in if orElse (Option.bind acme acme_enabled) False then Mode_acme
         else if trim cert \<noteq> [] \<or> keyStored then Mode_paste
         else if cert_file \<noteq> [] \<or> key_file \<noteq> [] then Mode_files
         else f_tls_mode DEFAULT_SOURCE_FORM)"

definition count_text :: "nat option \<Rightarrow> string" where
  "count_text m = (case m of None \<Rightarrow> [] | Some n \<Rightarrow> if n = 0 then [] else show_nat n)"

definition configToForm :: "ManagedSource \<Rightarrow> nat \<Rightarrow> SourceFormState \<times> nat" where
  "configToForm source ruleKeySeq =
     (let c = ms_config source;
          tls = sc_tls c;
          acme = Option.bind tls tls_acme;
          (rules, n) = newExtractRules (orElse (sc_extract c) []) ruleKeySeq
      in (\<lparr>f_name = sc_name c,
           f_type = sc_type c,
           f_enabled = ms_enabled source,
           f_protocol = orElse (sc_protocol c) Udp,
           f_address = orElse (sc_address c) [],
           f_format = orElse (sc_format c) Fmt_auto,
           f_timezone = orElse (sc_timezone c) ''UTC'',
           f_allowed_cidrs = join [NL] (orElse (sc_allowed_cidrs c) []),
           f_max_message_bytes = orElse (sc_max_message_bytes c) [],
           f_raw_message = orElse (sc_raw_message c) Raw_on_error,
           f_hostname_fallback = orElse (sc_hostname_fallback c) Fallback_none,
           f_sd_flatten = orElse (sc_sd_flatten c) Sd_full,
           f_labels = join [NL] (map (\<lambda>(k, v). k @ ''='' @ v) (orElse (sc_labels c) [])),
           f_framing = orElse (sc_framing c) Framing_auto,
           f_max_connections = count_text (sc_max_connections c),
           f_idle_timeout = orElse (sc_idle_timeout c) [],
           f_udp_sockets = count_text (Option.bind (sc_udp c) udp_sockets),
           f_udp_read_buffer_bytes = orElse (Option.bind (sc_udp c) udp_read_buffer_bytes) [],
           f_tls_mode = tlsMode tls (orElse (ms_key_stored source) False),
           f_tls_cert_file = orElse (Option.bind tls tls_cert_file) [],
           f_tls_key_file = orElse (Option.bind tls tls_key_file) [],
           f_tls_cert = orElse (Option.bind tls tls_cert) [],
           f_tls_key = [],
           f_tls_key_stored = orElse (ms_key_stored source) False,
           f_tls_min_version = orElse (Option.bind tls tls_min_version) V1_2,
           f_tls_client_auth = orElse (Option.bind tls tls_client_auth) Auth_none,
           f_tls_client_ca_file = orElse (Option.bind tls tls_client_ca_file) [],
           f_tls_client_ca = orElse (Option.bind tls tls_client_ca) [],
           f_tls_acme_domains = join [NL] (orElse (Option.bind acme acme_domains) []),
           f_tls_acme_email = orElse (Option.bind acme acme_email) [],
           f_tls_acme_staging =
             (if orElse (Option.bind acme acme_enabled) False then orElse (Option.bind acme acme_staging) False
              else f_tls_acme_staging DEFAULT_SOURCE_FORM),
           f_tls_acme_accept_terms = orElse (Option.bind acme acme_accept_terms) False,
           f_tls_acme_skip_preflight = orElse (Option.bind acme acme_skip_preflight) False,
           f_extract = rules,
           f_template = orElse (sc_template c) TEMPLATE_NONE,
           f_template_parts = orElse (sc_template_parts c) []\<rparr>, n))"

section \<open>Errors\<close>

record SourceErrors =
  se_fields :: "(string \<times> string) list"
  se_rules :: "(nat \<times> string) list"
  se_general :: "string list"

definition emptySourceErrors :: SourceErrors where
  "emptySourceErrors = \<lparr>se_fields = [], se_rules = [], se_general = []\<rparr>"

definition fieldError :: "string \<Rightarrow> string \<Rightarrow> SourceErrors \<Rightarrow> SourceErrors" where
  "fieldError field message e = e\<lparr>se_fields := AList.update field message (se_fields e)\<rparr>"

definition fieldErrorIf :: "bool \<Rightarrow> string \<Rightarrow> string \<Rightarrow> SourceErrors \<Rightarrow> SourceErrors" where
  "fieldErrorIf b field message e = (if b then fieldError field message e else e)"

definition hasErrors :: "SourceErrors \<Rightarrow> bool" where
  "hasErrors e \<longleftrightarrow> se_general e \<noteq> [] \<or> se_fields e \<noteq> [] \<or> se_rules e \<noteq> []"

section \<open>From the form to the configuration\<close>

definition lines :: "string \<Rightarrow> string list" where
  "lines t = split_list list_sep t"

definition parseCount :: "string \<Rightarrow> string \<Rightarrow> SourceErrors \<Rightarrow> nat option \<times> SourceErrors" where
  "parseCount v field errors =
     (let t = trim v in
      if t = [] then (None, errors)
      else (case Number t of
              Num q \<Rightarrow>
                if \<not> isInteger (Num q) \<or> q < 0
                then (None, fieldError field ''Must be a whole number of 0 or more.'' errors)
                else (Some (nat \<lfloor>q\<rfloor>), errors)
            | _ \<Rightarrow> (None, fieldError field ''Must be a whole number of 0 or more.'' errors)))"

fun label_lines :: "string list \<Rightarrow> (string \<times> string) list \<Rightarrow> string + (string \<times> string) list" where
  "label_lines [] out = Inr out"
| "label_lines (line # ls) out =
     (let t = trim line; k = takeWhile (\<lambda>c. c \<noteq> CHR ''='') t; r = dropWhile (\<lambda>c. c \<noteq> CHR ''='') t in
      if t = [] then label_lines ls out
      else if r = [] \<or> k = [] then Inl t
      else label_lines ls (AList.update (trim k) (trim (tl r)) out))"

definition parseLabels :: "string \<Rightarrow> SourceErrors \<Rightarrow> (string \<times> string) list option \<times> SourceErrors" where
  "parseLabels t errors =
     (case label_lines (split_on (\<lambda>c. c = NL) t) [] of
        Inl line \<Rightarrow>
          (None, fieldError ''labels''
             (''Use one key=value per line ('' @ LDQUO @ line @ RDQUO @ '' has no key).'') errors)
      | Inr out \<Rightarrow> (nonempty out, errors))"

definition tlsConfig :: "SourceFormState \<Rightarrow> SourceErrors \<Rightarrow> SourceTLSConfig \<times> SourceErrors" where
  "tlsConfig f errors =
     (let tls0 = \<lparr>tls_cert_file = None, tls_key_file = None, tls_cert = None, tls_key = None,
                  tls_min_version = Some (f_tls_min_version f), tls_client_auth = Some (f_tls_client_auth f),
                  tls_client_ca_file = None, tls_client_ca = None, tls_acme = None\<rparr>;
          (tls1, e1) =
            (case f_tls_mode f of
               Mode_acme \<Rightarrow>
                 (let domains = lines (f_tls_acme_domains f);
                      acme = \<lparr>acme_enabled = Some True, acme_domains = Some domains,
                              acme_email = nonempty (trim (f_tls_acme_email f)),
                              acme_staging = Some (f_tls_acme_staging f),
                              acme_accept_terms = Some (f_tls_acme_accept_terms f),
                              acme_skip_preflight = Some (f_tls_acme_skip_preflight f)\<rparr>
                  in (tls0\<lparr>tls_acme := Some acme\<rparr>,
                      fieldErrorIf (\<not> f_tls_acme_accept_terms f) ''tls_acme_accept_terms''
                        ''Asking an authority for a certificate accepts its subscriber agreement.''
                        (fieldErrorIf (domains = []) ''tls_acme_domains''
                           ''At least one hostname is required to ask for a certificate.'' errors)))
             | Mode_paste \<Rightarrow>
                 (let cert = trim (f_tls_cert f); key = trim (f_tls_key f)
                  in (tls0\<lparr>tls_cert := nonempty cert, tls_key := nonempty key\<rparr>,
                      if cert = [] then
                        fieldError ''tls_cert'' ''The certificate is required; paste it in PEM form.'' errors
                      else fieldErrorIf (key = [] \<and> \<not> f_tls_key_stored f) ''tls_key''
                        ''The private key for this certificate is required.'' errors))
             | Mode_files \<Rightarrow>
                 (let cert = trim (f_tls_cert_file f); key = trim (f_tls_key_file f)
                  in (tls0\<lparr>tls_cert_file := nonempty cert, tls_key_file := nonempty key\<rparr>,
                      fieldErrorIf (key = []) ''tls_key_file'' ''A path on the Syslogc host is required.''
                        (fieldErrorIf (cert = []) ''tls_cert_file'' ''A path on the Syslogc host is required.'' errors))));
          ca = trim (if f_tls_mode f = Mode_files then f_tls_client_ca_file f else f_tls_client_ca f)
      in (if ca = [] then tls1
          else if f_tls_mode f = Mode_files then tls1\<lparr>tls_client_ca_file := Some ca\<rparr>
          else tls1\<lparr>tls_client_ca := Some ca\<rparr>, e1))"

definition rule_error :: "ExtractRuleForm \<Rightarrow> string option" where
  "rule_error r =
     (let regex = trim (erf_regex r) in
      if regex = [] then Some ''A pattern is required.''
      else if captureGroupNames regex = []
      then Some ''The pattern has no named capture groups, so it would produce no fields.''
      else None)"

definition rule_config :: "ExtractRuleForm \<Rightarrow> ExtractRule" where
  "rule_config r =
     \<lparr>er_name = nonempty (trim (erf_name r)),
      er_contains = (if trim (erf_contains r) = [] then None else Some (erf_contains r)),
      er_prefix = nonempty (trim (erf_prefix r)),
      er_regex = trim (erf_regex r)\<rparr>"

fun extract_errors :: "nat \<Rightarrow> ExtractRuleForm list \<Rightarrow> SourceErrors \<Rightarrow> SourceErrors" where
  "extract_errors i [] errors = errors"
| "extract_errors i (r # rs) errors =
     extract_errors (Suc i) rs
       (case rule_error r of
          None \<Rightarrow> errors
        | Some m \<Rightarrow> errors\<lparr>se_rules := AList.update i m (se_rules errors)\<rparr>)"

definition extractRules :: "ExtractRuleForm list \<Rightarrow> SourceErrors \<Rightarrow> ExtractRule list \<times> SourceErrors" where
  "extractRules forms errors = (map rule_config forms, extract_errors 0 forms errors)"

text \<open>The payload put together from its parts, omitting what does not apply to the chosen type and
  protocol.\<close>

definition payload ::
  "SourceFormState \<Rightarrow> (string \<times> string) list option \<Rightarrow> nat option \<Rightarrow> nat option \<Rightarrow>
   SourceTLSConfig option \<Rightarrow> ExtractRule list \<Rightarrow> SourceConfig" where
  "payload f labels1 maxConn sockets tls rules =
     (let s = sourceSections f; buffer = nonempty (trim (f_udp_read_buffer_bytes f)) in
      \<lparr>sc_name = trim (f_name f),
       sc_type = f_type f,
       sc_protocol = (if sec_network s then Some (f_protocol f) else None),
       sc_address = (if sec_network s then Some (trim (f_address f)) else None),
       sc_format = Some (f_format f),
       sc_timezone = Some (if trim (f_timezone f) = [] then ''UTC'' else trim (f_timezone f)),
       sc_allowed_cidrs = nonempty (lines (f_allowed_cidrs f)),
       sc_max_message_bytes = nonempty (trim (f_max_message_bytes f)),
       sc_raw_message = Some (f_raw_message f),
       sc_hostname_fallback = Some (f_hostname_fallback f),
       sc_sd_flatten = Some (f_sd_flatten f),
       sc_labels = labels1,
       sc_framing = (if sec_stream s then Some (f_framing f) else None),
       sc_max_connections = maxConn,
       sc_idle_timeout = (if sec_stream s then nonempty (trim (f_idle_timeout f)) else None),
       sc_udp = (if sec_udp s \<and> (sockets \<noteq> None \<or> buffer \<noteq> None)
                 then Some \<lparr>udp_sockets = sockets, udp_read_buffer_bytes = buffer\<rparr> else None),
       sc_tls = tls,
       sc_extract = nonempty rules,
       sc_template = nonempty (f_template f),
       sc_template_parts = (if f_template f \<noteq> [] then nonempty (f_template_parts f) else None)\<rparr>)"

definition formToConfig :: "SourceFormState \<Rightarrow> SourceConfig \<times> SourceErrors" where
  "formToConfig f =
     (let s = sourceSections f;
          e0 = fieldErrorIf (trim (f_name f) = []) ''name'' ''Name is required.'' emptySourceErrors;
          e1 = fieldErrorIf (sec_network s \<and> trim (f_address f) = []) ''address'' ''Address is required.'' e0;
          (labels1, e2) = parseLabels (f_labels f) e1;
          (maxConn, e3) = (if sec_stream s then parseCount (f_max_connections f) ''max_connections'' e2 else (None, e2));
          (sockets, e4) = (if sec_udp s then parseCount (f_udp_sockets f) ''udp_sockets'' e3 else (None, e3));
          (tls, e5) = (if sec_tls s then (let (t, e) = tlsConfig f e4 in (Some t, e)) else (None, e4));
          (rules, e6) = extractRules (f_extract f) e5
      in (payload f labels1 maxConn sockets tls rules, e6))"

end
