(* ===== verification/Source_Roundtrip.thy ===== *)
theory Source_Roundtrip
  imports Source_Form
begin

text \<open>
  Saving and reopening a source: a form the editor accepts gives a configuration in normal
  form, and a configuration in normal form survives being opened in the editor and saved
  again. The normal form is what an operator would have written by hand: trimmed texts, absent
  rather than empty properties, and TLS material of one kind only.
\<close>

section \<open>Errors only accumulate\<close>

lemma hasErrors_iff: "hasErrors e \<longleftrightarrow> e \<noteq> emptySourceErrors"
  by (auto simp: hasErrors_def emptySourceErrors_def)

lemma fieldError_neq [simp]: "fieldError f m e \<noteq> emptySourceErrors"
  by (cases e) (simp add: fieldError_def emptySourceErrors_def)

lemma fieldErrorIf_empty [simp]:
  "fieldErrorIf b f m e = emptySourceErrors \<longleftrightarrow> \<not> b \<and> e = emptySourceErrors"
  by (simp add: fieldErrorIf_def)

lemma parseCount_empty: "snd (parseCount v f e) = emptySourceErrors \<Longrightarrow> e = emptySourceErrors"
  by (auto simp: parseCount_def Let_def split: JsNum.splits if_splits)

lemma parseLabels_empty: "snd (parseLabels t e) = emptySourceErrors \<Longrightarrow> e = emptySourceErrors"
  by (auto simp: parseLabels_def split: sum.splits)

lemma tlsConfig_empty: "snd (tlsConfig f e) = emptySourceErrors \<Longrightarrow> e = emptySourceErrors"
  by (auto simp: tlsConfig_def Let_def split: TlsMode.splits if_splits)

lemma extract_errors_empty:
  "extract_errors i rs e = emptySourceErrors \<longleftrightarrow> e = emptySourceErrors \<and> list_all (\<lambda>r. rule_error r = None) rs"
proof (induction rs arbitrary: i e)
  case (Cons r rs)
  have "e\<lparr>se_rules := AList.update i m (se_rules e)\<rparr> \<noteq> emptySourceErrors" for m
    by (cases e) (simp add: emptySourceErrors_def)
  then show ?case by (auto simp: Cons.IH split: option.split)
qed simp

section \<open>Normal configurations\<close>

definition label_wf :: "string \<times> string \<Rightarrow> bool" where
  "label_wf l = (case l of (k, v) \<Rightarrow>
     text_item k \<and> CHR ''='' \<notin> set k \<and> NL \<notin> set k \<and> trimmed v \<and> NL \<notin> set v)"

definition opt_labels :: "(string \<times> string) list option \<Rightarrow> bool" where
  "opt_labels m = (case m of None \<Rightarrow> True | Some ls \<Rightarrow> ls \<noteq> [] \<and> list_all label_wf ls \<and> distinct (map fst ls))"

definition rule_normal :: "ExtractRule \<Rightarrow> bool" where
  "rule_normal r \<longleftrightarrow>
     opt_text (er_name r) \<and> opt_text (er_prefix r) \<and>
     (case er_contains r of None \<Rightarrow> True | Some s \<Rightarrow> trim s \<noteq> []) \<and>
     text_item (er_regex r) \<and> captureGroupNames (er_regex r) \<noteq> []"

text \<open>TLS material of exactly one kind; \<open>keyStored\<close> is what the API reports beside the configuration.\<close>

definition tls_normal :: "bool \<Rightarrow> SourceTLSConfig \<Rightarrow> bool" where
  "tls_normal keyStored t \<longleftrightarrow>
     tls_min_version t \<noteq> None \<and> tls_client_auth t \<noteq> None \<and> tls_key t = None \<and>
     (case tls_acme t of
        Some a \<Rightarrow>
          acme_enabled a = Some True \<and> acme_domains a \<noteq> None \<and> opt_items (acme_domains a) \<and>
          opt_text (acme_email a) \<and> acme_staging a \<noteq> None \<and> acme_accept_terms a = Some True \<and>
          acme_skip_preflight a \<noteq> None \<and> tls_cert t = None \<and> tls_cert_file t = None \<and>
          tls_key_file t = None \<and> tls_client_ca_file t = None \<and> opt_text (tls_client_ca t)
      | None \<Rightarrow>
          (if keyStored
           then tls_cert t \<noteq> None \<and> opt_text (tls_cert t) \<and> tls_cert_file t = None \<and>
                tls_key_file t = None \<and> tls_client_ca_file t = None \<and> opt_text (tls_client_ca t)
           else tls_cert t = None \<and> tls_cert_file t \<noteq> None \<and> opt_text (tls_cert_file t) \<and>
                tls_key_file t \<noteq> None \<and> opt_text (tls_key_file t) \<and>
                tls_client_ca t = None \<and> opt_text (tls_client_ca_file t)))"

definition config_normal :: "bool \<Rightarrow> SourceConfig \<Rightarrow> bool" where
  "config_normal keyStored c \<longleftrightarrow>
     text_item (sc_name c) \<and>
     (if sc_type c = Syslog
      then sc_protocol c \<noteq> None \<and> sc_address c \<noteq> None \<and> opt_text (sc_address c)
      else sc_protocol c = None \<and> sc_address c = None) \<and>
     sc_format c \<noteq> None \<and> sc_timezone c \<noteq> None \<and> opt_text (sc_timezone c) \<and>
     opt_items (sc_allowed_cidrs c) \<and> opt_text (sc_max_message_bytes c) \<and>
     sc_raw_message c \<noteq> None \<and> sc_hostname_fallback c \<noteq> None \<and> sc_sd_flatten c \<noteq> None \<and>
     opt_labels (sc_labels c) \<and>
     (if sc_protocol c = Some Tcp \<or> sc_protocol c = Some Tls
      then sc_framing c \<noteq> None \<and> opt_text (sc_idle_timeout c)
      else sc_framing c = None \<and> sc_max_connections c = None \<and> sc_idle_timeout c = None) \<and>
     (case sc_udp c of
        None \<Rightarrow> True
      | Some u \<Rightarrow> sc_protocol c = Some Udp \<and> opt_text (udp_read_buffer_bytes u) \<and>
                  (udp_sockets u \<noteq> None \<or> udp_read_buffer_bytes u \<noteq> None)) \<and>
     (case sc_tls c of
        None \<Rightarrow> sc_protocol c \<noteq> Some Tls
      | Some t \<Rightarrow> sc_protocol c = Some Tls \<and> tls_normal keyStored t) \<and>
     (case sc_extract c of None \<Rightarrow> True | Some rs \<Rightarrow> rs \<noteq> [] \<and> list_all rule_normal rs) \<and>
     (case sc_template c of None \<Rightarrow> sc_template_parts c = None | Some t \<Rightarrow> t \<noteq> []) \<and>
     sc_template_parts c \<noteq> Some []"

text \<open>A count of zero is shown as an empty field, so it does not come back.\<close>

definition counts_nonzero :: "SourceConfig \<Rightarrow> bool" where
  "counts_nonzero c \<longleftrightarrow>
     sc_max_connections c \<noteq> Some 0 \<and> Option.bind (sc_udp c) udp_sockets \<noteq> Some 0"

section \<open>Fields one by one\<close>

lemma lines_join: "list_all (list_item list_sep) xs \<Longrightarrow> lines (join [NL] xs) = xs"
  by (simp add: lines_def list_texts_join)

lemma nonempty_lines [simp]: "opt_items m \<Longrightarrow> nonempty (lines (join [NL] (orElse m []))) = m"
  by (simp add: lines_def)

lemma opt_items_lines [simp]: "opt_items (nonempty (lines s))"
  by (simp add: lines_def)

lemma parseCount_text: "m \<noteq> Some 0 \<Longrightarrow> parseCount (count_text m) f e = (m, e)"
  by (cases m) (auto simp: parseCount_def count_text_def isInteger_def)

lemma is_space_eq [simp]: "\<not> is_space (CHR ''='')"
  by (simp add: is_space_def)

lemma label_text:
  assumes "label_wf (k, v)"
  shows "trim (k @ ''='' @ v) = k @ ''='' @ v"
    and "takeWhile (\<lambda>c. c \<noteq> CHR ''='') (k @ ''='' @ v) = k"
    and "dropWhile (\<lambda>c. c \<noteq> CHR ''='') (k @ ''='' @ v) = CHR ''='' # v"
proof -
  have "trimmed (k @ ''='' @ v)"
    using assms by (auto simp: label_wf_def text_item_def trimmed_def)
  then show "trim (k @ ''='' @ v) = k @ ''='' @ v" by (rule trim_id)
  have k: "c \<in> set k \<Longrightarrow> c \<noteq> CHR ''=''" for c using assms by (auto simp: label_wf_def)
  then show "takeWhile (\<lambda>c. c \<noteq> CHR ''='') (k @ ''='' @ v) = k"
    by (simp add: takeWhile_append2)
  show "dropWhile (\<lambda>c. c \<noteq> CHR ''='') (k @ ''='' @ v) = CHR ''='' # v"
    using k by (simp add: dropWhile_append2)
qed

lemma update_fresh: "k \<notin> fst ` set al \<Longrightarrow> AList.update k v al = al @ [(k, v)]"
  by (induction al) auto

lemma label_lines_texts:
  "list_all label_wf ls \<Longrightarrow> distinct (map fst (out @ ls)) \<Longrightarrow>
     label_lines (map (\<lambda>(k, v). k @ ''='' @ v) ls) out = Inr (out @ ls)"
proof (induction ls arbitrary: out)
  case (Cons l ls)
  obtain k v where l: "l = (k, v)" by (cases l)
  with Cons.prems have kv: "label_wf (k, v)" by simp
  then have "trim k = k" "k \<noteq> []" "trim v = v"
    by (auto simp: label_wf_def text_item_def trim_id)
  moreover have "AList.update k v out = out @ [(k, v)]"
    using Cons.prems l by (intro update_fresh) auto
  moreover have "label_lines (map (\<lambda>(k, v). k @ ''='' @ v) ls) (out @ [(k, v)]) = Inr ((out @ [(k, v)]) @ ls)"
    using Cons.prems l by (intro Cons.IH) auto
  ultimately show ?case using label_text [OF kv] l by (simp add: Let_def)
qed simp

lemma parseLabels_text:
  assumes "opt_labels m"
  shows "parseLabels (join [NL] (map (\<lambda>(k, v). k @ ''='' @ v) (orElse m []))) e = (m, e)"
proof (cases m)
  case None
  then show ?thesis by (simp add: parseLabels_def)
next
  case (Some ls)
  with assms have ls: "ls \<noteq> []" "list_all label_wf ls" "distinct (map fst ls)"
    by (auto simp: opt_labels_def)
  have "\<forall>w \<in> set (map (\<lambda>(k, v). k @ ''='' @ v) ls). \<forall>c \<in> set w. c \<noteq> NL"
    using ls(2) by (fastforce simp: list_all_iff label_wf_def char_consts)
  then have "split_on (\<lambda>c. c = NL) (join [NL] (map (\<lambda>(k, v). k @ ''='' @ v) ls)) = map (\<lambda>(k, v). k @ ''='' @ v) ls"
    using ls(1) by (intro split_on_join) auto
  then show ?thesis
    using Some ls label_lines_texts [of ls "[]"] by (simp add: parseLabels_def nonempty_def)
qed

lemma label_lines_wf:
  assumes "label_lines ts out = Inr ls" and "list_all label_wf out" and "distinct (map fst out)"
    and "list_all (\<lambda>t. NL \<notin> set t) ts"
  shows "list_all label_wf ls \<and> distinct (map fst ls)"
  using assms
proof (induction ts arbitrary: out)
  case (Cons t ts)
  let ?t = "trim t"
  let ?k = "takeWhile (\<lambda>c. c \<noteq> CHR ''='') ?t" and ?r = "dropWhile (\<lambda>c. c \<noteq> CHR ''='') ?t"
  show ?case
  proof (cases "?t = []")
    case True
    with Cons show ?thesis by (simp add: Let_def)
  next
    case False
    with Cons.prems(1) have r: "?r \<noteq> []" and k: "?k \<noteq> []"
      and rec: "label_lines ts (AList.update (trim ?k) (trim (tl ?r)) out) = Inr ls"
      by (auto simp: Let_def split: if_splits)
    have sub: "set ?k \<subseteq> set t" "set (tl ?r) \<subseteq> set t"
      using set_trim [of t] by (auto dest!: set_takeWhileD list.set_sel(2) [OF r] set_dropWhileD)
    have "\<not> is_space (hd ?t)" using False trim_trimmed [of t] by (auto simp: trimmed_def)
    then have "\<not> is_space (hd ?k)" using k by (cases ?t) (auto split: if_splits)
    then have "trim ?k \<noteq> []" using k by (cases ?k) (auto simp: trim_eq_Nil_iff)
    moreover have "CHR ''='' \<notin> set (trim ?k)" using set_trim [of ?k] by (auto dest!: set_takeWhileD)
    moreover have "NL \<notin> set (trim ?k)" "NL \<notin> set (trim (tl ?r))"
      using Cons.prems(4) sub set_trim [of ?k] set_trim [of "tl ?r"] by auto
    ultimately have "label_wf (trim ?k, trim (tl ?r))" by (simp add: label_wf_def text_item_def)
    then have "list_all label_wf (AList.update (trim ?k) (trim (tl ?r)) out)"
      using Cons.prems(2) by (induction out) auto
    moreover have "distinct (map fst (AList.update (trim ?k) (trim (tl ?r)) out))"
      using Cons.prems(3) by (rule distinct_update)
    ultimately show ?thesis using Cons.IH [OF rec] Cons.prems(4) by simp
  qed
qed simp

lemma parseLabels_wf: "parseLabels t e = (m, emptySourceErrors) \<Longrightarrow> opt_labels m"
proof -
  assume a: "parseLabels t e = (m, emptySourceErrors)"
  then obtain out where out: "label_lines (split_on (\<lambda>c. c = NL) t) [] = Inr out" "m = nonempty out"
    by (auto simp: parseLabels_def split: sum.splits)
  have "list_all (\<lambda>t. NL \<notin> set t) (split_on (\<lambda>c. c = NL) t)"
    using split_on_pieces by (fastforce simp: list_all_iff)
  with label_lines_wf [OF out(1)] have "list_all label_wf out \<and> distinct (map fst out)" by simp
  with out(2) show ?thesis by (auto simp: opt_labels_def nonempty_def)
qed

section \<open>TLS material\<close>

lemma tlsMode_normal:
  assumes "tls_normal ks t"
  shows "tlsMode (Some t) ks =
    (if tls_acme t \<noteq> None then Mode_acme else if ks then Mode_paste else Mode_files)"
  using assms by (auto simp: tls_normal_def tlsMode_def Let_def dest: text_item_Nil_neq split: option.splits if_splits)

lemma tlsConfig_form:
  assumes tls: "sc_tls (ms_config src) = Some t" and ks: "orElse (ms_key_stored src) False = ks"
    and wf: "tls_normal ks t"
  shows "tlsConfig (fst (configToForm src n)) e = (t, e)"
proof -
  let ?f = "fst (configToForm src n)"
  have mode: "f_tls_mode ?f = (if tls_acme t \<noteq> None then Mode_acme else if ks then Mode_paste else Mode_files)"
    using tlsMode_normal [OF wf] tls ks by (simp add: configToForm_def Let_def split: prod.split)
  have sel: "f_tls_cert_file ?f = orElse (tls_cert_file t) []" "f_tls_key_file ?f = orElse (tls_key_file t) []"
    "f_tls_cert ?f = orElse (tls_cert t) []" "f_tls_key ?f = []" "f_tls_key_stored ?f = ks"
    "f_tls_min_version ?f = orElse (tls_min_version t) V1_2"
    "f_tls_client_auth ?f = orElse (tls_client_auth t) Auth_none"
    "f_tls_client_ca_file ?f = orElse (tls_client_ca_file t) []" "f_tls_client_ca ?f = orElse (tls_client_ca t) []"
    using tls ks by (simp_all add: configToForm_def Let_def split: prod.split)
  show ?thesis
  proof (cases "tls_acme t")
    case None
    show ?thesis
      using None wf mode unfolding tlsConfig_def Let_def sel mode
      by (cases t; cases ks)
        (auto simp: tls_normal_def fieldErrorIf_def text_item_def trim_id nonempty_def split: if_splits)
  next
    case (Some a)
    have en: "acme_enabled a = Some True" using wf Some by (simp add: tls_normal_def)
    have acme: "f_tls_acme_domains ?f = join [NL] (orElse (acme_domains a) [])"
      "f_tls_acme_email ?f = orElse (acme_email a) []"
      "f_tls_acme_staging ?f = orElse (acme_staging a) False"
      "f_tls_acme_accept_terms ?f = orElse (acme_accept_terms a) False"
      "f_tls_acme_skip_preflight ?f = orElse (acme_skip_preflight a) False"
      using tls Some en by (simp_all add: configToForm_def Let_def split: prod.split)
    obtain ds where ds: "acme_domains a = Some ds" "ds \<noteq> []" "lines (join [NL] ds) = ds"
      using wf Some by (auto simp: tls_normal_def opt_items_def lines_join)
    have m: "f_tls_mode ?f = Mode_acme" using mode Some by simp
    have none: "tls_cert t = None" "tls_key t = None" "tls_cert_file t = None" "tls_key_file t = None"
        "tls_client_ca_file t = None" "tls_min_version t \<noteq> None" "tls_client_auth t \<noteq> None"
        "opt_text (tls_client_ca t)"
      and some: "acme_staging a \<noteq> None" "acme_accept_terms a = Some True" "acme_skip_preflight a \<noteq> None"
        "opt_text (acme_email a)"
      using wf Some by (simp_all add: tls_normal_def)
    have "\<lparr>acme_enabled = Some True, acme_domains = Some ds, acme_email = acme_email a,
        acme_staging = Some (orElse (acme_staging a) False), acme_accept_terms = Some True,
        acme_skip_preflight = Some (orElse (acme_skip_preflight a) False)\<rparr> = a"
      using en ds(1) some by (cases a) auto
    then show ?thesis
      unfolding tlsConfig_def Let_def sel acme m using none some ds Some
      by (cases t) (auto simp: fieldErrorIf_def)
  qed
qed

text \<open>What the API keeps and returns of TLS material: everything but the private key.\<close>

definition redact_tls :: "SourceTLSConfig \<Rightarrow> SourceTLSConfig" where
  "redact_tls t = t\<lparr>tls_key := None\<rparr>"

definition redact :: "SourceConfig \<Rightarrow> SourceConfig" where
  "redact c = c\<lparr>sc_tls := map_option redact_tls (sc_tls c)\<rparr>"

lemma tlsConfig_normal:
  assumes "tlsConfig f e = (t, emptySourceErrors)"
  shows "tls_normal (f_tls_mode f = Mode_paste) (redact_tls t)"
proof (cases "f_tls_mode f")
  case Mode_acme
  have "opt_items (nonempty (lines (f_tls_acme_domains f)))" by simp
  then have "lines (f_tls_acme_domains f) \<noteq> [] \<Longrightarrow> opt_items (Some (lines (f_tls_acme_domains f)))"
    by (simp add: nonempty_def)
  with Mode_acme assms show ?thesis
    by (auto simp: tlsConfig_def tls_normal_def redact_tls_def Let_def text_item_def split: if_splits)
next
  case Mode_paste
  with assms show ?thesis
    by (auto simp: tlsConfig_def tls_normal_def redact_tls_def Let_def text_item_def nonempty_def split: if_splits)
next
  case Mode_files
  with assms show ?thesis
    by (auto simp: tlsConfig_def tls_normal_def redact_tls_def Let_def text_item_def nonempty_def split: if_splits)
qed

section \<open>Extract rules\<close>

lemma rule_config_new:
  "rule_normal r \<Longrightarrow> rule_config (fst (newExtractRule r n)) = r \<and> rule_error (fst (newExtractRule r n)) = None"
  by (cases r) (auto simp: rule_normal_def rule_config_def rule_error_def newExtractRule_def Let_def
      opt_text_def text_item_def trim_id nonempty_def split: option.splits)

lemma extractRules_new:
  "list_all rule_normal rs \<Longrightarrow>
     map rule_config (fst (newExtractRules rs n)) = rs \<and>
     list_all (\<lambda>r. rule_error r = None) (fst (newExtractRules rs n))"
proof (induction rs arbitrary: n)
  case (Cons r rs)
  obtain f m where f: "newExtractRule r n = (f, m)" by fastforce
  obtain fs k where fs: "newExtractRules rs m = (fs, k)" by fastforce
  from Cons.prems have "rule_config f = r \<and> rule_error f = None" using rule_config_new [of r n] f by simp
  moreover have "map rule_config fs = rs \<and> list_all (\<lambda>r. rule_error r = None) fs"
    using Cons.IH [of m] Cons.prems fs by simp
  ultimately show ?case using f fs by simp
qed simp

lemma rule_config_normal: "rule_error r = None \<Longrightarrow> rule_normal (rule_config r)"
  by (auto simp: rule_error_def rule_config_def rule_normal_def Let_def text_item_def split: if_splits)

section \<open>Opening and saving a configuration\<close>

lemma sections_form:
  "sourceSections (fst (configToForm src n)) =
     (let c = ms_config src; syslog = (sc_type c = Syslog); p = orElse (sc_protocol c) Udp in
      \<lparr>sec_network = syslog, sec_stream = (syslog \<and> (p = Tcp \<or> p = Tls)),
       sec_udp = (syslog \<and> p = Udp), sec_tls = (syslog \<and> p = Tls)\<rparr>)"
  by (simp add: sourceSections_def configToForm_def Let_def split: prod.split)

lemma form_fields:
  assumes "f = fst (configToForm src n)" and "c = ms_config src"
  shows "f_name f = sc_name c" "f_type f = sc_type c" "f_protocol f = orElse (sc_protocol c) Udp"
    "f_address f = orElse (sc_address c) []" "f_format f = orElse (sc_format c) Fmt_auto"
    "f_timezone f = orElse (sc_timezone c) ''UTC''"
    "f_allowed_cidrs f = join [NL] (orElse (sc_allowed_cidrs c) [])"
    "f_max_message_bytes f = orElse (sc_max_message_bytes c) []"
    "f_raw_message f = orElse (sc_raw_message c) Raw_on_error"
    "f_hostname_fallback f = orElse (sc_hostname_fallback c) Fallback_none"
    "f_sd_flatten f = orElse (sc_sd_flatten c) Sd_full"
    "f_labels f = join [NL] (map (\<lambda>(k, v). k @ ''='' @ v) (orElse (sc_labels c) []))"
    "f_framing f = orElse (sc_framing c) Framing_auto"
    "f_max_connections f = count_text (sc_max_connections c)"
    "f_idle_timeout f = orElse (sc_idle_timeout c) []"
    "f_udp_sockets f = count_text (Option.bind (sc_udp c) udp_sockets)"
    "f_udp_read_buffer_bytes f = orElse (Option.bind (sc_udp c) udp_read_buffer_bytes) []"
    "f_extract f = fst (newExtractRules (orElse (sc_extract c) []) n)"
    "f_template f = orElse (sc_template c) []"
    "f_template_parts f = orElse (sc_template_parts c) []"
  using assms by (simp_all add: configToForm_def Let_def TEMPLATE_NONE_def split: prod.split)

lemma stream_normal:
  assumes "config_normal ks c"
  shows "sc_type c = Syslog \<longleftrightarrow> sc_protocol c \<noteq> None"
    and "sc_protocol c \<noteq> Some Udp \<Longrightarrow> sc_udp c = None"
    and "sc_tls c = None \<longleftrightarrow> sc_protocol c \<noteq> Some Tls"
  using assms by (auto simp: config_normal_def split: option.splits if_splits)

lemma udp_normal:
  assumes "config_normal ks c"
  shows "(if Option.bind (sc_udp c) udp_sockets \<noteq> None \<or> Option.bind (sc_udp c) udp_read_buffer_bytes \<noteq> None
      then Some \<lparr>udp_sockets = Option.bind (sc_udp c) udp_sockets,
                 udp_read_buffer_bytes = Option.bind (sc_udp c) udp_read_buffer_bytes\<rparr> else None) = sc_udp c"
    and "opt_text (Option.bind (sc_udp c) udp_read_buffer_bytes)"
  using assms by (auto simp: config_normal_def split: option.splits)

lemma extract_normal:
  assumes "config_normal ks c"
  shows "extractRules (fst (newExtractRules (orElse (sc_extract c) []) n)) emptySourceErrors =
    (orElse (sc_extract c) [], emptySourceErrors)" and "sc_extract c \<noteq> Some []"
proof -
  have "list_all rule_normal (orElse (sc_extract c) [])"
    using assms by (auto simp: config_normal_def split: option.splits)
  then show "extractRules (fst (newExtractRules (orElse (sc_extract c) []) n)) emptySourceErrors =
      (orElse (sc_extract c) [], emptySourceErrors)"
    using extractRules_new [of "orElse (sc_extract c) []" n]
    by (simp add: extractRules_def extract_errors_empty)
  show "sc_extract c \<noteq> Some []" using assms by (auto simp: config_normal_def)
qed

lemma formToConfig_configToForm:
  assumes wf: "config_normal (orElse (ms_key_stored src) False) (ms_config src)"
    and nz: "counts_nonzero (ms_config src)"
  shows "formToConfig (fst (configToForm src n)) = (ms_config src, emptySourceErrors)"
proof -
  define c where "c = ms_config src"
  define f where "f = fst (configToForm src n)"
  define s where "s = sourceSections f"
  note fields = form_fields [OF f_def c_def]
  note wf = wf [folded c_def] and nz = nz [folded c_def]
  note sec = sections_form [of src n, folded f_def c_def s_def, unfolded Let_def]
  have net: "sec_network s \<longleftrightarrow> sc_protocol c \<noteq> None"
    and stream: "sec_stream s \<longleftrightarrow> sc_protocol c = Some Tcp \<or> sc_protocol c = Some Tls"
    and udp: "sec_udp s \<longleftrightarrow> sc_protocol c = Some Udp"
    and tls: "sec_tls s \<longleftrightarrow> sc_protocol c = Some Tls"
    unfolding sec using stream_normal(1) [OF wf] by (cases "sc_protocol c"; auto)+
  have name: "trim (sc_name c) = sc_name c" "sc_name c \<noteq> []"
    using wf by (auto simp: config_normal_def text_item_def trim_id)
  have address: "sec_network s \<Longrightarrow> trim (orElse (sc_address c) []) \<noteq> []"
    "(if sec_network s then Some (trim (orElse (sc_address c) [])) else None) = sc_address c"
    "(if sec_network s then Some (orElse (sc_protocol c) Udp) else None) = sc_protocol c"
    using wf net by (auto simp: config_normal_def split: if_splits)
  have labels: "parseLabels (f_labels f) emptySourceErrors = (sc_labels c, emptySourceErrors)"
    unfolding fields using wf by (intro parseLabels_text) (simp add: config_normal_def)
  have max: "(if sec_stream s then parseCount (f_max_connections f) ''max_connections'' emptySourceErrors
      else (None, emptySourceErrors)) = (sc_max_connections c, emptySourceErrors)"
    unfolding fields using wf nz stream
    by (auto simp: parseCount_text config_normal_def counts_nonzero_def split: if_splits)
  have sockets: "(if sec_udp s then parseCount (f_udp_sockets f) ''udp_sockets'' emptySourceErrors
      else (None, emptySourceErrors)) = (Option.bind (sc_udp c) udp_sockets, emptySourceErrors)"
    unfolding fields using nz udp stream_normal(2) [OF wf]
    by (auto simp: parseCount_text counts_nonzero_def)
  have tlsc: "(if sec_tls s then (let (t, e) = tlsConfig f emptySourceErrors in (Some t, e))
      else (None, emptySourceErrors)) = (sc_tls c, emptySourceErrors)"
  proof (cases "sc_tls c")
    case None
    with tls stream_normal(3) [OF wf] show ?thesis by simp
  next
    case (Some t)
    with wf have "sc_protocol c = Some Tls" "tls_normal (orElse (ms_key_stored src) False) t"
      by (auto simp: config_normal_def)
    with Some tls tlsConfig_form [of src t] show ?thesis by (simp add: f_def c_def)
  qed
  have rules: "extractRules (f_extract f) emptySourceErrors = (orElse (sc_extract c) [], emptySourceErrors)"
    unfolding fields by (rule extract_normal [OF wf])
  have timezone: "(if trim (orElse (sc_timezone c) ''UTC'') = [] then ''UTC'' else trim (orElse (sc_timezone c) ''UTC'')) =
      the (sc_timezone c)" "sc_timezone c \<noteq> None"
    using wf by (auto simp: config_normal_def text_item_def trim_id)
  have some: "sc_format c \<noteq> None" "sc_raw_message c \<noteq> None" "sc_hostname_fallback c \<noteq> None"
      "sc_sd_flatten c \<noteq> None" "opt_items (sc_allowed_cidrs c)" "opt_text (sc_max_message_bytes c)"
    using wf by (simp_all add: config_normal_def)
  have framing: "(if sec_stream s then Some (orElse (sc_framing c) Framing_auto) else None) = sc_framing c"
      "(if sec_stream s then nonempty (trim (orElse (sc_idle_timeout c) [])) else None) = sc_idle_timeout c"
    using wf stream by (auto simp: config_normal_def split: if_splits)
  have tmpl: "nonempty (orElse (sc_template c) []) = sc_template c"
      "(if orElse (sc_template c) [] \<noteq> [] then nonempty (orElse (sc_template_parts c) []) else None) = sc_template_parts c"
    using wf by (auto simp: config_normal_def split: option.splits)
  have udpc: "(if sec_udp s \<and> (Option.bind (sc_udp c) udp_sockets \<noteq> None \<or>
        nonempty (trim (f_udp_read_buffer_bytes f)) \<noteq> None)
      then Some \<lparr>udp_sockets = Option.bind (sc_udp c) udp_sockets,
                 udp_read_buffer_bytes = nonempty (trim (f_udp_read_buffer_bytes f))\<rparr> else None) = sc_udp c"
    unfolding fields nonempty_text [OF udp_normal(2) [OF wf]]
    using udp_normal(1) [OF wf] udp stream_normal(2) [OF wf] by (cases "sec_udp s") simp_all
  have e1: "fieldErrorIf (sec_network s \<and> trim (f_address f) = []) ''address'' ''Address is required.''
      (fieldErrorIf (trim (f_name f) = []) ''name'' ''Name is required.'' emptySourceErrors) = emptySourceErrors"
    unfolding fields using name address(1) by (auto simp: fieldErrorIf_def)
  have "formToConfig f = (c, emptySourceErrors)"
    unfolding formToConfig_def Let_def s_def [symmetric] e1 labels prod.case max sockets tlsc [unfolded Let_def] rules
    unfolding payload_def Let_def s_def [symmetric] udpc
    unfolding fields name address framing tmpl timezone
    using some timezone(2) extract_normal(2) [OF wf] by (cases c) auto
  then show ?thesis by (simp add: f_def c_def)
qed

section \<open>Saving a form\<close>

lemma formToConfig_accepted:
  assumes "formToConfig f = (c, emptySourceErrors)"
  defines "s \<equiv> sourceSections f"
  shows "\<exists>ls m k t.
    trim (f_name f) \<noteq> [] \<and> (sec_network s \<longrightarrow> trim (f_address f) \<noteq> []) \<and>
    parseLabels (f_labels f) emptySourceErrors = (ls, emptySourceErrors) \<and>
    (\<not> sec_stream s \<longrightarrow> m = None) \<and>
    (if sec_tls s then \<exists>u. t = Some u \<and> tlsConfig f emptySourceErrors = (u, emptySourceErrors) else t = None) \<and>
    list_all (\<lambda>r. rule_error r = None) (f_extract f) \<and>
    c = payload f ls m k t (map rule_config (f_extract f))"
proof -
  let ?e1 = "fieldErrorIf (sec_network s \<and> trim (f_address f) = []) ''address'' ''Address is required.''
      (fieldErrorIf (trim (f_name f) = []) ''name'' ''Name is required.'' emptySourceErrors)"
  obtain ls e2 where labels: "parseLabels (f_labels f) ?e1 = (ls, e2)" by fastforce
  obtain m e3 where max: "(if sec_stream s then parseCount (f_max_connections f) ''max_connections'' e2 else (None, e2)) = (m, e3)"
    by fastforce
  obtain k e4 where sockets: "(if sec_udp s then parseCount (f_udp_sockets f) ''udp_sockets'' e3 else (None, e3)) = (k, e4)"
    by fastforce
  obtain t e5 where tls: "(if sec_tls s then (let (t, e) = tlsConfig f e4 in (Some t, e)) else (None, e4)) = (t, e5)"
    by fastforce
  note eq = assms(1) [unfolded formToConfig_def Let_def, folded s_def, unfolded labels prod.case max sockets
      tls [unfolded Let_def] extractRules_def prod.inject]
  have e5: "e5 = emptySourceErrors" and rules: "list_all (\<lambda>r. rule_error r = None) (f_extract f)"
    using eq by (simp_all add: extract_errors_empty)
  have e4: "e4 = emptySourceErrors"
    using tls e5 tlsConfig_empty [of f e4] by (auto simp: Let_def split: if_splits prod.splits)
  have e3: "e3 = emptySourceErrors"
    using sockets e4 parseCount_empty [of "f_udp_sockets f" "''udp_sockets''" e3] by (cases "sec_udp s") simp_all
  have e2: "e2 = emptySourceErrors"
    using max e3 parseCount_empty [of "f_max_connections f" "''max_connections''" e2] by (cases "sec_stream s") simp_all
  have e1: "?e1 = emptySourceErrors"
    using labels e2 parseLabels_empty [of "f_labels f" ?e1] by simp
  have t: "if sec_tls s then \<exists>u. t = Some u \<and> tlsConfig f emptySourceErrors = (u, emptySourceErrors) else t = None"
    using tls e4 e5 by (cases "tlsConfig f e4") (simp split: if_splits)
  have name: "trim (f_name f) \<noteq> [] \<and> (sec_network s \<longrightarrow> trim (f_address f) \<noteq> [])"
    using e1 by auto
  have ls: "parseLabels (f_labels f) emptySourceErrors = (ls, emptySourceErrors)" using labels e1 e2 by simp
  have m: "\<not> sec_stream s \<longrightarrow> m = None" using max by (auto split: if_splits)
  have c: "c = payload f ls m k t (map rule_config (f_extract f))" using eq by simp
  show ?thesis using name ls m t rules c by (intro exI [of _ ls] exI [of _ m] exI [of _ k] exI [of _ t]) simp
qed

lemma formToConfig_normal:
  assumes "formToConfig f = (c, emptySourceErrors)"
  shows "config_normal (f_tls_mode f = Mode_paste) (redact c)"
proof -
  define s where "s = sourceSections f"
  obtain ls m k t where name: "trim (f_name f) \<noteq> []"
    and address: "sec_network s \<longrightarrow> trim (f_address f) \<noteq> []"
    and ls: "parseLabels (f_labels f) emptySourceErrors = (ls, emptySourceErrors)"
    and m: "\<not> sec_stream s \<longrightarrow> m = None"
    and t: "if sec_tls s then \<exists>u. t = Some u \<and> tlsConfig f emptySourceErrors = (u, emptySourceErrors) else t = None"
    and rules: "list_all (\<lambda>r. rule_error r = None) (f_extract f)"
    and c: "c = payload f ls m k t (map rule_config (f_extract f))"
    using formToConfig_accepted [OF assms, folded s_def] by (elim exE conjE) (rule that)
  have tls: "case map_option redact_tls t of None \<Rightarrow> \<not> sec_tls s
      | Some u \<Rightarrow> sec_tls s \<and> tls_normal (f_tls_mode f = Mode_paste) u"
    using t tlsConfig_normal [of f emptySourceErrors] by (auto split: if_splits)
  have labels: "opt_labels ls" using ls by (rule parseLabels_wf)
  have normal: "list_all rule_normal (map rule_config (f_extract f))"
    using rules rule_config_normal by (auto simp: list_all_iff)
  have sec: "sec_network s \<longleftrightarrow> f_type f = Syslog"
    "sec_stream s \<longleftrightarrow> f_type f = Syslog \<and> (f_protocol f = Tcp \<or> f_protocol f = Tls)"
    "sec_udp s \<longleftrightarrow> f_type f = Syslog \<and> f_protocol f = Udp"
    "sec_tls s \<longleftrightarrow> f_type f = Syslog \<and> f_protocol f = Tls"
    by (simp_all add: s_def sourceSections_def Let_def)
  let ?c = "redact c"
  have sel: "sc_name ?c = trim (f_name f)" "sc_type ?c = f_type f"
    "sc_protocol ?c = (if sec_network s then Some (f_protocol f) else None)"
    "sc_address ?c = (if sec_network s then Some (trim (f_address f)) else None)"
    "sc_format ?c = Some (f_format f)" "sc_raw_message ?c = Some (f_raw_message f)"
    "sc_timezone ?c = Some (if trim (f_timezone f) = [] then ''UTC'' else trim (f_timezone f))"
    "sc_allowed_cidrs ?c = nonempty (lines (f_allowed_cidrs f))"
    "sc_max_message_bytes ?c = nonempty (trim (f_max_message_bytes f))"
    "sc_hostname_fallback ?c = Some (f_hostname_fallback f)" "sc_sd_flatten ?c = Some (f_sd_flatten f)"
    "sc_labels ?c = ls" "sc_framing ?c = (if sec_stream s then Some (f_framing f) else None)"
    "sc_max_connections ?c = m" "sc_tls ?c = map_option redact_tls t"
    "sc_idle_timeout ?c = (if sec_stream s then nonempty (trim (f_idle_timeout f)) else None)"
    "sc_extract ?c = nonempty (map rule_config (f_extract f))" "sc_template ?c = nonempty (f_template f)"
    "sc_template_parts ?c = (if f_template f \<noteq> [] then nonempty (f_template_parts f) else None)"
    "sc_udp ?c = (if sec_udp s \<and> (k \<noteq> None \<or> nonempty (trim (f_udp_read_buffer_bytes f)) \<noteq> None)
       then Some \<lparr>udp_sockets = k, udp_read_buffer_bytes = nonempty (trim (f_udp_read_buffer_bytes f))\<rparr> else None)"
    unfolding c payload_def Let_def s_def [symmetric] redact_def by simp_all
  have network: "if f_type f = Syslog then sc_protocol ?c \<noteq> None \<and> sc_address ?c \<noteq> None \<and> opt_text (sc_address ?c)
      else sc_protocol ?c = None \<and> sc_address ?c = None"
    unfolding sel using sec(1) address by (simp add: text_item_def)
  have stream: "if sc_protocol ?c = Some Tcp \<or> sc_protocol ?c = Some Tls
      then sc_framing ?c \<noteq> None \<and> opt_text (sc_idle_timeout ?c)
      else sc_framing ?c = None \<and> sc_max_connections ?c = None \<and> sc_idle_timeout ?c = None"
    unfolding sel using sec(1,2) m by simp
  have udp: "case sc_udp ?c of None \<Rightarrow> True | Some u \<Rightarrow> sc_protocol ?c = Some Udp \<and>
      opt_text (udp_read_buffer_bytes u) \<and> (udp_sockets u \<noteq> None \<or> udp_read_buffer_bytes u \<noteq> None)"
    unfolding sel using sec(1,3) by auto
  have tls2: "case sc_tls ?c of None \<Rightarrow> sc_protocol ?c \<noteq> Some Tls
      | Some u \<Rightarrow> sc_protocol ?c = Some Tls \<and> tls_normal (f_tls_mode f = Mode_paste) u"
    using tls sec(1,4) unfolding sel by (auto split: option.splits)
  have utc: "trimmed ''UTC''" by code_simp
  have rest: "opt_text (sc_timezone ?c)" "case sc_extract ?c of None \<Rightarrow> True | Some rs \<Rightarrow> rs \<noteq> [] \<and> list_all rule_normal rs"
    "case sc_template ?c of None \<Rightarrow> sc_template_parts ?c = None | Some t \<Rightarrow> t \<noteq> []" "sc_template_parts ?c \<noteq> Some []"
    unfolding sel using normal utc by (auto simp: nonempty_def text_item_def)
  show ?thesis
    unfolding config_normal_def
    using network stream udp tls2 rest name labels by (simp only: sel) (simp add: text_item_def)
qed

section \<open>Properties\<close>


definition sample_source :: ManagedSource where
  "sample_source =
     \<lparr>ms_id = Some ''7'',
      ms_config =
        \<lparr>sc_name = ''edge'', sc_type = Syslog, sc_protocol = Some Tls, sc_address = Some '':6514'',
         sc_format = Some Fmt_auto, sc_timezone = Some ''UTC'', sc_allowed_cidrs = Some [''10.0.0.0/8'', ''::1/128''],
         sc_max_message_bytes = None, sc_raw_message = Some Raw_always, sc_hostname_fallback = Some Fallback_ip,
         sc_sd_flatten = Some Sd_full, sc_labels = Some [(''site'', ''hq''), (''rack'', '''')],
         sc_framing = Some Framing_lf, sc_max_connections = Some 64, sc_idle_timeout = None, sc_udp = None,
         sc_tls = Some \<lparr>tls_cert_file = None, tls_key_file = None, tls_cert = Some ''PEM'', tls_key = None,
                        tls_min_version = Some V1_3, tls_client_auth = Some Auth_none,
                        tls_client_ca_file = None, tls_client_ca = None, tls_acme = None\<rparr>,
         sc_extract = Some [\<lparr>er_name = None, er_contains = Some '' user '', er_prefix = Some ''u_'',
                             er_regex = ''(?P<name>x)''\<rparr>],
         sc_template = None, sc_template_parts = None\<rparr>,
      ms_enabled = True, ms_key_stored = Some True\<rparr>"



definition sample_form :: SourceFormState where
  "sample_form = DEFAULT_SOURCE_FORM\<lparr>f_name := '' dns '', f_labels := [CHR ''a'', CHR '' '', CHR ''='', CHR ''1'', NL]\<rparr>"


text \<open>A source switched from pasted material to files keeps its key on the server, and the editor then opens
  it as pasted: the paths are there, but the form asks for a certificate.\<close>

lemma files_with_stored_key:
  assumes "tls_acme t = None" and "tls_cert t = None" and "tls_cert_file t = Some p"
  shows "tlsMode (Some t) True = Mode_paste"
  using assms by (simp add: tlsMode_def Let_def)

end
