(* ===== verification/Problems.thy ===== *)
theory Problems
  imports Prelude "HOL-Library.AList"
begin

text \<open>
  Placing a server's validation problem (RFC 9457) on the fields of a form. The source editor
  (\<open>src/frontend/src/features/sources/source-form.ts\<close>) and the forward target dialog
  (\<open>src/frontend/src/features/forwarding/forward-form.ts\<close>) each have a copy of this code; the two copies
  differ in their table of fields, in the prefix they strip and in what they collect errors
  in, and these are the parameters here. The regular expressions of the code are written out
  as scanners.
\<close>

record ProblemError =
  pe_pointer :: "string option"
  pe_message :: "string option"

record Problem =
  problem_code :: string
  problem_detail :: "string option"
  problem_errors :: "ProblemError list option"

section \<open>Keys and pointers\<close>

text \<open>\<open>configField\<close>: the longest prefix of the dotted key that has a field of its own.\<close>

fun config_field_prefix :: "(string \<times> string) list \<Rightarrow> string list \<Rightarrow> nat \<Rightarrow> string option" where
  "config_field_prefix tbl parts 0 = None"
| "config_field_prefix tbl parts (Suc n) =
     (case map_of tbl (join ''.'' (take (Suc n) parts)) of
        Some field \<Rightarrow> Some field
      | None \<Rightarrow> config_field_prefix tbl parts n)"

definition configField :: "(string \<times> string) list \<Rightarrow> string \<Rightarrow> string option" where
  "configField tbl key =
     (let parts = split_on (\<lambda>c. c = CHR ''.'') key in config_field_prefix tbl parts (length parts))"

text \<open>\<open>pointer.replace(/^\/?config\/?/, '')\<close>.\<close>

definition strip_slash :: "string \<Rightarrow> string" where
  "strip_slash s = (case s of [] \<Rightarrow> [] | c # r \<Rightarrow> if c = CHR ''/'' then r else s)"

definition pointer_path :: "string \<Rightarrow> string" where
  "pointer_path pointer =
     (let s = strip_slash pointer in
      if startsWith s ''config'' then strip_slash (drop 6 s) else pointer)"

definition slashes_to_dots :: "string \<Rightarrow> string" where
  "slashes_to_dots s = map (\<lambda>c. if c = CHR ''/'' then CHR ''.'' else c) s"

text \<open>\<open>message.split(/;\s*/)\<close>.\<close>

definition clauses :: "string \<Rightarrow> string list" where
  "clauses message =
     (case split_on (\<lambda>c. c = CHR '';'') message of
        [] \<Rightarrow> []
      | w # ws \<Rightarrow> w # map trimStart ws)"

text \<open>\<open>/^([a-z_]+(?:\.[a-z_]+){0,2})/\<close>.\<close>

definition key_char :: "char \<Rightarrow> bool" where
  "key_char c \<longleftrightarrow> is_lower c \<or> c = CHR ''_''"

fun key_groups :: "nat \<Rightarrow> string \<Rightarrow> string" where
  "key_groups (Suc n) (c # r) =
     (let w = takeWhile key_char r in
      if c = CHR ''.'' \<and> w \<noteq> [] then c # w @ key_groups n (dropWhile key_char r) else [])"
| "key_groups _ _ = []"

definition key_prefix :: "string \<Rightarrow> string option" where
  "key_prefix s =
     (let w = takeWhile key_char s in
      if w = [] then None else Some (w @ key_groups 2 (dropWhile key_char s)))"

section \<open>Placing messages\<close>

definition problem_entries :: "Problem option \<Rightarrow> string \<Rightarrow> (string \<times> string) list" where
  "problem_entries problem fallback =
     (let detail = orElse (Option.bind problem problem_detail) fallback in
      case orElse (Option.bind problem problem_errors) [] of
        [] \<Rightarrow> [([], detail)]
      | es \<Rightarrow> map (\<lambda>e. (orElse (pe_pointer e) [],
                    if orElse (pe_message e) [] \<noteq> [] then orElse (pe_message e) [] else detail)) es)"

definition place_text ::
  "(string \<times> string) list \<Rightarrow> (string \<Rightarrow> string \<Rightarrow> 'e \<Rightarrow> 'e) \<Rightarrow> (string \<Rightarrow> 'e \<Rightarrow> 'e) \<Rightarrow> string \<Rightarrow> 'e \<Rightarrow> 'e" where
  "place_text tbl addField addGeneral txt errors =
     (case Option.bind (key_prefix txt) (configField tbl) of
        Some field \<Rightarrow> addField field txt errors
      | None \<Rightarrow> addGeneral txt errors)"

definition place_clause :: "(string \<Rightarrow> string) \<Rightarrow> (string \<Rightarrow> 'e \<Rightarrow> 'e) \<Rightarrow> string \<Rightarrow> 'e \<Rightarrow> 'e" where
  "place_clause strip place clause errors =
     (let txt = trim (strip clause) in if txt = [] then errors else place txt errors)"

definition entry_field :: "(string \<times> string) list \<Rightarrow> string \<Rightarrow> string option" where
  "entry_field tbl pointer =
     (let path = pointer_path pointer in
      if path \<noteq> [] then configField tbl (slashes_to_dots path) else None)"

definition place_entry ::
  "(string \<times> string) list \<Rightarrow> (string \<Rightarrow> string) \<Rightarrow> (string \<Rightarrow> string \<Rightarrow> 'e \<Rightarrow> 'e) \<Rightarrow>
   (string \<Rightarrow> 'e \<Rightarrow> 'e) \<Rightarrow> string \<times> string \<Rightarrow> 'e \<Rightarrow> 'e" where
  "place_entry tbl strip addField place entry errors =
     (case entry_field tbl (fst entry) of
        Some field \<Rightarrow> addField field (snd entry) errors
      | None \<Rightarrow> fold (place_clause strip place) (clauses (snd entry)) errors)"

definition place_problem ::
  "(string \<times> string) list \<Rightarrow> (string \<Rightarrow> string) \<Rightarrow> (string \<Rightarrow> string \<Rightarrow> 'e \<Rightarrow> 'e) \<Rightarrow> (string \<Rightarrow> 'e \<Rightarrow> 'e) \<Rightarrow>
   (string \<Rightarrow> 'e \<Rightarrow> 'e) \<Rightarrow> ('e \<Rightarrow> bool) \<Rightarrow> 'e \<Rightarrow> Problem option \<Rightarrow> string \<Rightarrow> 'e" where
  "place_problem tbl strip addField addGeneral place has none0 problem fallback =
     (let errors = fold (place_entry tbl strip addField place) (problem_entries problem fallback) none0 in
      if has errors then errors else addGeneral fallback errors)"

text \<open>\<open>addFieldError\<close> on the object of messages.\<close>

definition append_message :: "'k \<Rightarrow> string \<Rightarrow> ('k \<times> string) list \<Rightarrow> ('k \<times> string) list" where
  "append_message k message msgs =
     AList.update k
       (case map_of msgs k of
          None \<Rightarrow> message
        | Some existing \<Rightarrow> if existing = [] then message else existing @ '' '' @ message) msgs"

section \<open>Facts\<close>

lemma config_field_prefix_range: "config_field_prefix tbl parts n = Some f \<Longrightarrow> f \<in> snd ` set tbl"
  by (induction n) (auto split: option.splits dest!: map_of_SomeD intro: rev_image_eqI)

lemma configField_range: "configField tbl key = Some f \<Longrightarrow> f \<in> snd ` set tbl"
  by (auto simp: configField_def Let_def dest: config_field_prefix_range)

lemma str_includes_append1: "str_includes a x \<Longrightarrow> str_includes (a @ b) x"
proof (induction a)
  case Nil
  then show ?case by (cases b) simp_all
next
  case (Cons c a)
  have "startsWith (c # a) x \<Longrightarrow> startsWith ((c # a) @ b) x"
    unfolding startsWith_iff by (metis append.assoc)
  with Cons show ?case by auto
qed

lemma str_includes_self [simp]: "str_includes x x"
  by (cases x) (auto simp: startsWith_def)

lemma str_includes_append2: "str_includes b x \<Longrightarrow> str_includes (a @ b) x"
  by (induction a) auto

lemma str_includes_Nil [simp]: "str_includes x []"
  by (cases x) simp_all

lemma map_of_append_message:
  "map_of (append_message k m msgs) j =
     (if j = k then Some (case map_of msgs k of None \<Rightarrow> m
        | Some e \<Rightarrow> if e = [] then m else e @ '' '' @ m) else map_of msgs j)"
  by (simp add: append_message_def update_conv')

definition mentioned :: "('k \<times> string) list \<Rightarrow> string \<Rightarrow> bool" where
  "mentioned msgs x \<longleftrightarrow> (\<exists>k m. map_of msgs k = Some m \<and> str_includes m x)"

lemma append_message_mentions: "mentioned (append_message k m msgs) m"
  unfolding mentioned_def
  by (rule exI [of _ k]) (auto simp: map_of_append_message str_includes_append2 split: option.split)

lemma append_message_keeps:
  assumes "mentioned msgs x"
  shows "mentioned (append_message k m msgs) x"
proof -
  obtain j v where j: "map_of msgs j = Some v" "str_includes v x" using assms by (auto simp: mentioned_def)
  show ?thesis
  proof (cases "j = k \<and> v = []")
    case True
    with j have "x = []" by simp
    then show ?thesis unfolding mentioned_def by (auto simp: map_of_append_message)
  next
    case False
    with j show ?thesis
      unfolding mentioned_def
      by (intro exI [of _ j]) (auto simp: map_of_append_message str_includes_append1 [of v x "'' '' @ m", simplified])
  qed
qed

section \<open>The contract of an error collection\<close>

text \<open>What of an entry must be readable: its whole message, or each clause of it.\<close>

definition entry_readable ::
  "('e \<Rightarrow> string \<Rightarrow> bool) \<Rightarrow> (string \<Rightarrow> string) \<Rightarrow> (string \<times> string) list \<Rightarrow> (string \<Rightarrow> string) \<Rightarrow>
   'e \<Rightarrow> string \<times> string \<Rightarrow> bool" where
  "entry_readable mentions kept tbl strip e en =
     (case entry_field tbl (fst en) of
        Some f \<Rightarrow> mentions e (snd en)
      | None \<Rightarrow> \<forall>c \<in> set (clauses (snd en)). trim (strip c) \<noteq> [] \<longrightarrow> mentions e (kept (trim (strip c))))"

text \<open>What a form's errors promise: a message added stays readable, and so do all added before it.\<close>

locale error_sink =
  fixes addField :: "string \<Rightarrow> string \<Rightarrow> 'e \<Rightarrow> 'e"
    and addGeneral :: "string \<Rightarrow> 'e \<Rightarrow> 'e"
    and has :: "'e \<Rightarrow> bool"
    and mentions :: "'e \<Rightarrow> string \<Rightarrow> bool"
  assumes field_mentions: "mentions (addField f m e) m"
    and field_keeps: "mentions e x \<Longrightarrow> mentions (addField f m e) x"
    and general_mentions: "mentions (addGeneral m e) m"
    and general_keeps: "mentions e x \<Longrightarrow> mentions (addGeneral m e) x"
    and mentions_has: "mentions e x \<Longrightarrow> has e"
begin

lemma place_text_mentions: "mentions (place_text tbl addField addGeneral t e) t"
  by (simp add: place_text_def field_mentions general_mentions split: option.split)

lemma place_text_keeps: "mentions e x \<Longrightarrow> mentions (place_text tbl addField addGeneral t e) x"
  by (simp add: place_text_def field_keeps general_keeps split: option.split)

end

text \<open>A way of placing a text that has the same promise.\<close>

locale placing = error_sink addField addGeneral has mentions
  for addField :: "string \<Rightarrow> string \<Rightarrow> 'e \<Rightarrow> 'e" and addGeneral :: "string \<Rightarrow> 'e \<Rightarrow> 'e"
    and has :: "'e \<Rightarrow> bool" and mentions :: "'e \<Rightarrow> string \<Rightarrow> bool" +
  fixes place :: "string \<Rightarrow> 'e \<Rightarrow> 'e" and kept :: "string \<Rightarrow> string"
  assumes place_mentions: "mentions (place t e) (kept t)"
    and place_keeps: "mentions e x \<Longrightarrow> mentions (place t e) x"
begin

lemma place_clause_keeps: "mentions e x \<Longrightarrow> mentions (place_clause strip place c e) x"
  by (simp add: place_clause_def Let_def place_keeps)

lemma place_clauses_keep: "mentions e x \<Longrightarrow> mentions (fold (place_clause strip place) cs e) x"
  by (induction cs arbitrary: e) (simp_all add: place_clause_keeps)

lemma place_clauses_mention:
  "c \<in> set cs \<Longrightarrow> trim (strip c) \<noteq> [] \<Longrightarrow>
   mentions (fold (place_clause strip place) cs e) (kept (trim (strip c)))"
proof (induction cs arbitrary: e)
  case (Cons d cs)
  show ?case
  proof (cases "c = d")
    case True
    with Cons.prems have "mentions (place_clause strip place d e) (kept (trim (strip c)))"
      by (simp add: place_clause_def Let_def place_mentions)
    then show ?thesis by (simp add: place_clauses_keep)
  next
    case False
    with Cons show ?thesis by simp
  qed
qed simp

lemma place_entry_keeps: "mentions e x \<Longrightarrow> mentions (place_entry tbl strip addField place en e) x"
  by (simp add: place_entry_def place_clauses_keep field_keeps split: option.split)

lemma place_entries_keep: "mentions e x \<Longrightarrow> mentions (fold (place_entry tbl strip addField place) ens e) x"
  by (induction ens arbitrary: e) (simp_all add: place_entry_keeps)

lemma place_entries_readable:
  "en \<in> set ens \<Longrightarrow> entry_readable mentions kept tbl strip (fold (place_entry tbl strip addField place) ens e) en"
proof (induction ens arbitrary: e)
  case (Cons d ens)
  show ?case
  proof (cases "en = d")
    case True
    have "entry_readable mentions kept tbl strip (place_entry tbl strip addField place d e) d"
      by (auto simp: entry_readable_def place_entry_def field_mentions place_clauses_mention split: option.split)
    with True show ?thesis
      by (auto simp: entry_readable_def place_entries_keep split: option.splits)
  next
    case False
    with Cons show ?thesis by simp
  qed
qed simp

lemma place_problem_has: "has (place_problem tbl strip addField addGeneral place has none0 problem fallback)"
  by (simp add: place_problem_def Let_def mentions_has [OF general_mentions])

lemma place_problem_readable:
  "en \<in> set (problem_entries problem fallback) \<Longrightarrow>
   entry_readable mentions kept tbl strip (place_problem tbl strip addField addGeneral place has none0 problem fallback) en"
  using place_entries_readable [of en "problem_entries problem fallback" tbl strip none0]
  by (auto simp: place_problem_def Let_def entry_readable_def general_keeps split: option.splits)

end

end
