(* ===== verification/Source_Problems.thy ===== *)
theory Source_Problems
  imports Source_Form Problems
begin

text \<open>
  The last part of \<open>src/frontend/src/features/sources/source-form.ts\<close>: server problems placed on the
  editor's fields and rules, route parameters, and how a certificate, an ACME order and a
  source's state are shown.
\<close>

section \<open>Server problems\<close>

definition SOURCE_CONFIG_FIELD :: "(string \<times> string) list" where
  "SOURCE_CONFIG_FIELD =
     [(''name'', ''name''), (''template'', ''template''), (''type'', ''type''), (''protocol'', ''protocol''),
      (''address'', ''address''), (''format'', ''format''), (''timezone'', ''timezone''),
      (''allowed_cidrs'', ''allowed_cidrs''), (''max_message_bytes'', ''max_message_bytes''),
      (''raw_message'', ''raw_message''), (''hostname_fallback'', ''hostname_fallback''),
      (''sd_flatten'', ''sd_flatten''), (''labels'', ''labels''), (''framing'', ''framing''),
      (''max_connections'', ''max_connections''), (''idle_timeout'', ''idle_timeout''),
      (''udp.sockets'', ''udp_sockets''), (''udp.read_buffer_bytes'', ''udp_read_buffer_bytes''),
      (''tls'', ''tls_mode''), (''tls.cert_file'', ''tls_cert_file''), (''tls.key_file'', ''tls_key_file''),
      (''tls.cert'', ''tls_cert''), (''tls.key'', ''tls_key''), (''tls.min_version'', ''tls_min_version''),
      (''tls.client_auth'', ''tls_client_auth''), (''tls.client_ca_file'', ''tls_client_ca_file''),
      (''tls.client_ca'', ''tls_client_ca''), (''tls.acme.domains'', ''tls_acme_domains''),
      (''tls.acme.email'', ''tls_acme_email''), (''tls.acme.accept_terms'', ''tls_acme_accept_terms'')]"

definition addFieldError :: "string \<Rightarrow> string \<Rightarrow> SourceErrors \<Rightarrow> SourceErrors" where
  "addFieldError field message errors = errors\<lparr>se_fields := append_message field message (se_fields errors)\<rparr>"

definition addRuleError :: "nat \<Rightarrow> string \<Rightarrow> SourceErrors \<Rightarrow> SourceErrors" where
  "addRuleError idx message errors = errors\<lparr>se_rules := append_message idx message (se_rules errors)\<rparr>"

definition addGeneralError :: "string \<Rightarrow> SourceErrors \<Rightarrow> SourceErrors" where
  "addGeneralError message errors = errors\<lparr>se_general := se_general errors @ [message]\<rparr>"

text \<open>\<open>/^rule-(\d+)$/\<close>.\<close>

definition rule_number :: "string \<Rightarrow> nat option" where
  "rule_number i =
     (if startsWith i ''rule-'' \<and> all_digits (drop 5 i) then Some (read_nat (drop 5 i)) else None)"

definition extractRuleIndex :: "ExtractRuleForm list \<Rightarrow> string \<Rightarrow> nat option" where
  "extractRuleIndex rules i =
     (case find_index (\<lambda>r. trim (erf_name r) = i) rules of
        Some named \<Rightarrow> Some named
      | None \<Rightarrow>
          (case rule_number i of
             None \<Rightarrow> None
           | Some n \<Rightarrow> if 1 \<le> n \<and> n - 1 < length rules then Some (n - 1) else None))"

text \<open>\<open>/^extract (\S+?):\s*(.+)$/\<close>: the shortest name before a colon that leaves a message of one line.\<close>

fun rule_clause :: "string \<Rightarrow> string \<Rightarrow> (string \<times> string) option" where
  "rule_clause acc [] = None"
| "rule_clause acc (c # r) =
     (if is_space c then None
      else if c = CHR '':'' \<and> acc \<noteq> [] \<and> dropWhile is_space r \<noteq> [] \<and>
              list_all (\<lambda>x. x \<noteq> NL \<and> x \<noteq> CR) (dropWhile is_space r)
      then Some (acc, dropWhile is_space r)
      else rule_clause (acc @ [c]) r)"

definition extract_clause :: "string \<Rightarrow> (string \<times> string) option" where
  "extract_clause t = (if startsWith t ''extract '' then rule_clause [] (drop 8 t) else None)"

definition rule_complaint :: "ExtractRuleForm list \<Rightarrow> string \<Rightarrow> (nat \<times> string) option" where
  "rule_complaint rules t =
     (case extract_clause t of
        None \<Rightarrow> None
      | Some (i, message) \<Rightarrow> map_option (\<lambda>idx. (idx, message)) (extractRuleIndex rules i))"

definition strip_source :: "string \<Rightarrow> string" where
  "strip_source clause = (if startsWith clause ''source:'' then trimStart (drop 7 clause) else clause)"

definition place_source :: "ExtractRuleForm list \<Rightarrow> string \<Rightarrow> SourceErrors \<Rightarrow> SourceErrors" where
  "place_source rules t errors =
     (case rule_complaint rules t of
        Some (idx, message) \<Rightarrow> addRuleError idx message errors
      | None \<Rightarrow> place_text SOURCE_CONFIG_FIELD addFieldError addGeneralError t errors)"

definition sourceProblemErrors :: "Problem option \<Rightarrow> string \<Rightarrow> ExtractRuleForm list \<Rightarrow> SourceErrors" where
  "sourceProblemErrors problem fallback rules =
     place_problem SOURCE_CONFIG_FIELD strip_source addFieldError addGeneralError (place_source rules)
       hasErrors emptySourceErrors problem fallback"

section \<open>Routes\<close>

definition sourceRouteId :: "ManagedSource \<Rightarrow> string" where
  "sourceRouteId s = orElse (ms_id s) (''file:'' @ sc_name (ms_config s))"

datatype SourceRoute = Route_new | Route_file string | Route_managed string

definition parseSourceRouteId :: "string \<Rightarrow> SourceRoute" where
  "parseSourceRouteId param =
     (if param = ''new'' then Route_new
      else if startsWith param ''file:'' then Route_file (drop 5 param)
      else Route_managed param)"

section \<open>Certificates\<close>

definition CERT_EXPIRY_WARNING_DAYS :: int where
  "CERT_EXPIRY_WARNING_DAYS = 30"

text \<open>The two dates as \<open>Date.parse\<close> gives them, in milliseconds.\<close>

record CertificateInfo =
  cert_not_before :: int
  cert_not_after :: int
  cert_self_signed :: bool
  cert_chain :: int

datatype Tone = Tone_ok | Tone_warn | Tone_fail | Tone_idle

record CertificateStatus =
  cs_daysRemaining :: int
  cs_expired :: bool
  cs_attention :: bool
  cs_tone :: Tone
  cs_notes :: "string list"

definition certificateStatus :: "CertificateInfo \<Rightarrow> int \<Rightarrow> CertificateStatus" where
  "certificateStatus cert now =
     (let ms = cert_not_after cert - now;
          days = ms div 86400000;
          expired = (ms \<le> 0);
          early = (now < cert_not_before cert);
          soon = (\<not> expired \<and> days < CERT_EXPIRY_WARNING_DAYS);
          validity =
            (if expired then
               [''This certificate has expired. Senders are refusing the connection until it is replaced.'']
             else if early then
               [''This certificate is not valid yet, so senders will refuse it until its start date.'']
             else if soon then
               [if days \<le> 0
                then ''This certificate expires today. Replace it now, or senders will start refusing the connection.''
                else ''This certificate expires in '' @ show_int days @ '' '' @
                     (if days = 1 then ''day'' else ''days'') @ ''. Replace it before then.'']
             else []);
          trust =
            (if cert_self_signed cert then
               [''Self-signed: every sender has to be told to trust this certificate specifically.'']
             else if cert_chain cert \<le> 1 then
               [''Only one certificate was pasted. An authority-issued certificate usually needs its intermediates too.'']
             else [])
      in \<lparr>cs_daysRemaining = days, cs_expired = expired, cs_attention = (expired \<or> early \<or> soon),
          cs_tone = (if expired \<or> early then Tone_fail else if soon then Tone_warn else Tone_ok),
          cs_notes = validity @ trust\<rparr>)"

record SourceACMEStatus =
  as_staging :: bool
  as_obtained :: "(string \<times> string) list option"
  as_error :: "string option"

datatype AcmeState = Acme_none | Acme_pending | Acme_staging | Acme_ready | Acme_failed

record AcmeStatus =
  ac_state :: AcmeState
  ac_label :: string
  ac_tone :: Tone

definition acmeStatus :: "SourceACMEStatus option \<Rightarrow> AcmeStatus" where
  "acmeStatus acme =
     (case acme of
        None \<Rightarrow> \<lparr>ac_state = Acme_none, ac_label = ''not using Let'' @ RSQUO @ ''s Encrypt'', ac_tone = Tone_idle\<rparr>
      | Some a \<Rightarrow>
          if orElse (as_obtained a) [] \<noteq> [] then
            (if as_staging a
             then \<lparr>ac_state = Acme_staging, ac_label = ''staging certificate'', ac_tone = Tone_warn\<rparr>
             else \<lparr>ac_state = Acme_ready, ac_label = ''certificate obtained'', ac_tone = Tone_ok\<rparr>)
          else if trim (orElse (as_error a) []) \<noteq> []
          then \<lparr>ac_state = Acme_failed, ac_label = ''no certificate'', ac_tone = Tone_fail\<rparr>
          else \<lparr>ac_state = Acme_pending, ac_label = ''no certificate yet'', ac_tone = Tone_idle\<rparr>)"

section \<open>Wording\<close>

definition RAW_MESSAGE_CHOICES :: "(RawMessage \<times> string \<times> string) list" where
  "RAW_MESSAGE_CHOICES =
     [(Raw_always, ''Always'', ''Every message as it arrived. What you need while mapping attributes.''),
      (Raw_on_error, ''Only when parsing fails'', ''Keeps what went wrong without paying for what went right.''),
      (Raw_never, ''Never'', ''Parsed fields only. Nothing to fall back on.'')]"

definition rawMessageHint :: "RawMessage \<Rightarrow> bool \<Rightarrow> string" where
  "rawMessageHint policy hasExtractRules =
     (case policy of
        Raw_always \<Rightarrow>
          ''Every message is stored exactly as it arrived, alongside the parsed fields. '' @
          ''This is what you need while writing extract rules, and it roughly doubles what this source costs to store.''
      | Raw_never \<Rightarrow>
          (if hasExtractRules then
             ''Originals are discarded, so there is nothing to check an extract rule against when one stops matching. '' @
             ''Keep them always while you are working on the rules.''
           else ''Originals are discarded. Nothing can be recovered from a message that parsed into the wrong fields.'')
      | Raw_on_error \<Rightarrow>
          ''Originals are kept only for messages that failed to parse. '' @
          ''Choose \"always\" while writing extract rules or mapping attributes '' @ EMDASH @
          '' it is what you test them against.'')"

datatype SourceState = State_running | State_stopped | State_error | State_disabled

definition sourceStateTone :: "SourceState option \<Rightarrow> Tone" where
  "sourceStateTone state =
     (case state of
        Some State_running \<Rightarrow> Tone_ok
      | Some State_error \<Rightarrow> Tone_fail
      | Some State_stopped \<Rightarrow> Tone_warn
      | _ \<Rightarrow> Tone_idle)"

section \<open>No complaint is lost\<close>

definition source_mentions :: "SourceErrors \<Rightarrow> string \<Rightarrow> bool" where
  "source_mentions e x \<longleftrightarrow>
     mentioned (se_fields e) x \<or> mentioned (se_rules e) x \<or> (\<exists>m \<in> set (se_general e). str_includes m x)"

lemma mentioned_not_Nil: "mentioned msgs x \<Longrightarrow> msgs \<noteq> []"
  by (auto simp: mentioned_def)

interpretation src_sink: error_sink addFieldError addGeneralError hasErrors source_mentions
proof
  fix f m e x
  show "source_mentions (addFieldError f m e) m"
    by (simp add: source_mentions_def addFieldError_def append_message_mentions)
  show "source_mentions e x \<Longrightarrow> source_mentions (addFieldError f m e) x"
    by (auto simp: source_mentions_def addFieldError_def append_message_keeps)
  show "source_mentions (addGeneralError m e) m"
    by (simp add: source_mentions_def addGeneralError_def)
  show "source_mentions e x \<Longrightarrow> source_mentions (addGeneralError m e) x"
    by (auto simp: source_mentions_def addGeneralError_def)
  show "source_mentions e x \<Longrightarrow> hasErrors e"
    by (auto simp: source_mentions_def hasErrors_def dest: mentioned_not_Nil)
qed

lemma addRule_mentions: "source_mentions (addRuleError i m e) m"
  by (simp add: source_mentions_def addRuleError_def append_message_mentions)

lemma addRule_keeps: "source_mentions e x \<Longrightarrow> source_mentions (addRuleError i m e) x"
  by (auto simp: source_mentions_def addRuleError_def append_message_keeps)

text \<open>What stays of a clause: all of it, or the message of a complaint about a rule.\<close>

definition source_kept :: "ExtractRuleForm list \<Rightarrow> string \<Rightarrow> string" where
  "source_kept rules t = (case rule_complaint rules t of None \<Rightarrow> t | Some (idx, message) \<Rightarrow> message)"

interpretation src_place: placing addFieldError addGeneralError hasErrors source_mentions
  "place_source rules" "source_kept rules"
proof
  fix t e x
  show "source_mentions (place_source rules t e) (source_kept rules t)"
    by (auto simp: place_source_def source_kept_def src_sink.place_text_mentions addRule_mentions split: option.split)
  show "source_mentions e x \<Longrightarrow> source_mentions (place_source rules t e) x"
    by (auto simp: place_source_def src_sink.place_text_keeps addRule_keeps split: option.split)
qed

lemma rule_clause_message: "rule_clause acc s = Some (i, m) \<Longrightarrow> m \<noteq> [] \<and> (\<exists>p. s = p @ m)"
proof (induction acc s rule: rule_clause.induct)
  case (2 acc c r)
  show ?case
  proof (cases "is_space c \<or> \<not> (c = CHR '':'' \<and> acc \<noteq> [] \<and> dropWhile is_space r \<noteq> [] \<and>
      list_all (\<lambda>x. x \<noteq> NL \<and> x \<noteq> CR) (dropWhile is_space r))")
    case True
    with 2 have "m \<noteq> [] \<and> (\<exists>p. r = p @ m)" by (auto split: if_splits)
    then show ?thesis by (metis append_Cons)
  next
    case False
    with 2 have "m = dropWhile is_space r" "m \<noteq> []" by auto
    then show ?thesis
      using takeWhile_dropWhile_id [of is_space r] by (metis append_Cons)
  qed
qed simp

lemma source_kept_suffix: "\<exists>p. t = p @ source_kept rules t"
proof (cases "rule_complaint rules t")
  case None
  then show ?thesis by (simp add: source_kept_def)
next
  case (Some am)
  then obtain i idx m where "extract_clause t = Some (i, m)" "am = (idx, m)"
    by (auto simp: rule_complaint_def split: option.splits)
  then have "rule_clause [] (drop 8 t) = Some (i, m)" and "source_kept rules t = m"
    using Some by (auto simp: extract_clause_def source_kept_def split: if_splits)
  moreover from this obtain p where "drop 8 t = p @ m" using rule_clause_message by blast
  ultimately have "t = (take 8 t @ p) @ source_kept rules t"
    using append_take_drop_id [of 8 t] by simp
  then show ?thesis by blast
qed

section \<open>Properties\<close>

text \<open>A refused source always shows an error, and nothing the server complained about is lost: an entry
  that points at a field shows its whole message there, and of every other entry each clause can
  be read in some message, a complaint about an extract rule behind its prefix.\<close>

lemma sourceProblemErrors_readable:
  "hasErrors (sourceProblemErrors problem fallback rules) \<and>
   list_all (entry_readable source_mentions (source_kept rules) SOURCE_CONFIG_FIELD strip_source
     (sourceProblemErrors problem fallback rules)) (problem_entries problem fallback)"
  by (simp add: sourceProblemErrors_def src_place.place_problem_has src_place.place_problem_readable list_all_iff)

text \<open>The route parameter of a source leads back to it: a managed source by its id (a UUID, so neither
  \<open>new\<close> nor a \<open>file:\<close> name), a source of the configuration file by its name.\<close>

lemma parse_sourceRouteId:
  assumes "\<forall>i \<in> set_option (ms_id s). i \<noteq> ''new'' \<and> \<not> startsWith i ''file:''"
  shows "parseSourceRouteId (sourceRouteId s) =
    (case ms_id s of Some i \<Rightarrow> Route_managed i | None \<Rightarrow> Route_file (sc_name (ms_config s)))"
  using assms by (cases "ms_id s") (simp_all add: sourceRouteId_def parseSourceRouteId_def startsWith_def)

definition managed_source :: ManagedSource where
  "managed_source =
     \<lparr>ms_id = Some ''6f1c'', ms_config = fst (formToConfig (DEFAULT_SOURCE_FORM\<lparr>f_name := ''new''\<rparr>)),
      ms_enabled = True, ms_key_stored = None\<rparr>"

lemma parse_sourceRouteId_witness:
  "parseSourceRouteId (sourceRouteId managed_source) = Route_managed ''6f1c''"
proof -
  have "\<forall>i \<in> set_option (ms_id managed_source). i \<noteq> ''new'' \<and> \<not> startsWith i ''file:''"
    by (simp add: managed_source_def)
  then show ?thesis
    using parse_sourceRouteId [of managed_source] by (simp add: managed_source_def)
qed

text \<open>A certificate is flagged exactly when it does not cover the whole warning window from now: it
  is red when it is not valid at this moment, and the days shown are the whole days left.\<close>

lemma certificateStatus_window:
  "cs_attention (certificateStatus cert now) =
     (now < cert_not_before cert \<or> cert_not_after cert < now + CERT_EXPIRY_WARNING_DAYS * 86400000) \<and>
   cs_tone (certificateStatus cert now) =
     (if now < cert_not_before cert \<or> cert_not_after cert \<le> now then Tone_fail
      else if cs_attention (certificateStatus cert now) then Tone_warn else Tone_ok) \<and>
   cs_daysRemaining (certificateStatus cert now) * 86400000 \<le> cert_not_after cert - now \<and>
   cert_not_after cert - now < (cs_daysRemaining (certificateStatus cert now) + 1) * 86400000"
proof -
  let ?ms = "cert_not_after cert - now"
  have d: "?ms div 86400000 < 30 \<longleftrightarrow> ?ms < 30 * 86400000" by linarith
  show ?thesis
    unfolding certificateStatus_def Let_def CERT_EXPIRY_WARNING_DAYS_def using d by auto
qed

end
