(* ===== verification/Lib_Text.thy ===== *)
theory Lib_Text
  imports Js_Numbers
begin

text \<open>
  The small text helpers of the front end: severities (\<open>src/frontend/src/lib/severity.ts\<close>), the
  redirect after login (\<open>src/frontend/src/lib/redirect.ts\<close>), new passwords
  (\<open>src/frontend/src/features/auth/password.ts\<close>), countries (\<open>src/frontend/src/lib/country.ts\<close>) and
  numbers as text (\<open>src/frontend/src/lib/format.ts\<close>). Compact notation, locale collation, country
  names and the flag files are parameters.
\<close>

section \<open>Severities\<close>

datatype Severity = Emergency | Alert | Critical | Error | Warning | Notice | Info | Debug

definition SEVERITIES :: "Severity list" where
  "SEVERITIES = [Emergency, Alert, Critical, Error, Warning, Notice, Info, Debug]"

definition SEVERITY_CODE :: "Severity \<Rightarrow> nat" where
  "SEVERITY_CODE s =
     (case s of Emergency \<Rightarrow> 0 | Alert \<Rightarrow> 1 | Critical \<Rightarrow> 2 | Error \<Rightarrow> 3 | Warning \<Rightarrow> 4 | Notice \<Rightarrow> 5 | Info \<Rightarrow> 6 | Debug \<Rightarrow> 7)"

definition severity_name :: "Severity \<Rightarrow> string" where
  "severity_name s =
     (case s of Emergency \<Rightarrow> ''emergency'' | Alert \<Rightarrow> ''alert'' | Critical \<Rightarrow> ''critical'' | Error \<Rightarrow> ''error''
      | Warning \<Rightarrow> ''warning'' | Notice \<Rightarrow> ''notice'' | Info \<Rightarrow> ''info'' | Debug \<Rightarrow> ''debug'')"

definition SHORT :: "Severity \<Rightarrow> string" where
  "SHORT s =
     (case s of Emergency \<Rightarrow> ''EMERG'' | Alert \<Rightarrow> ''ALERT'' | Critical \<Rightarrow> ''CRIT'' | Error \<Rightarrow> ''ERROR''
      | Warning \<Rightarrow> ''WARN'' | Notice \<Rightarrow> ''NOTICE'' | Info \<Rightarrow> ''INFO'' | Debug \<Rightarrow> ''DEBUG'')"

text \<open>The severity a property name of the tables stands for.\<close>

definition severity_of :: "string \<Rightarrow> Severity option" where
  "severity_of s = List.find (\<lambda>v. severity_name v = s) SEVERITIES"

definition severityLabel :: "string option \<Rightarrow> string" where
  "severityLabel s =
     (let t = orElse s [] in
      if t = [] then EMDASH
      else (case severity_of t of Some v \<Rightarrow> SHORT v | None \<Rightarrow> toUpperCase t))"

definition severityColor :: "string option \<Rightarrow> string" where
  "severityColor s =
     (let t = orElse s [] in
      if t \<noteq> [] \<and> severity_of t \<noteq> None then ''var(--sev-'' @ t @ '')'' else ''var(--sev-other)'')"

definition isErrorOrWorse :: "string option \<Rightarrow> bool" where
  "isErrorOrWorse s \<longleftrightarrow>
     (case severity_of (orElse s []) of None \<Rightarrow> False | Some v \<Rightarrow> SEVERITY_CODE v \<le> 3)"

definition severityRank :: "string \<Rightarrow> nat" where
  "severityRank s = (case severity_of s of Some v \<Rightarrow> SEVERITY_CODE v | None \<Rightarrow> 99)"

lemma severity_of_name [simp]: "severity_of (severity_name v) = Some v"
  by (cases v) (simp_all add: severity_of_def SEVERITIES_def severity_name_def)

lemma severity_of_Some: "severity_of s = Some v \<longleftrightarrow> s = severity_name v"
  by (auto simp: severity_of_def find_Some_iff) (metis severity_of_def severity_of_name find_Some_iff option.inject)

section \<open>Redirects and passwords\<close>

definition safeNext :: "string option \<Rightarrow> string" where
  "safeNext nxt =
     (let n = orElse nxt [] in
      if n = [] \<or> \<not> startsWith n ''/'' \<or> startsWith n ''//'' \<or> startsWith n ''/login'' then ''/dashboard'' else n)"

definition MIN_PASSWORD_LENGTH :: nat where
  "MIN_PASSWORD_LENGTH = 12"

definition validateNewPassword :: "string \<Rightarrow> string \<Rightarrow> string \<Rightarrow> string option" where
  "validateNewPassword current nxt confirm =
     (if length nxt < MIN_PASSWORD_LENGTH then
        Some (''The new password must be at least '' @ show_nat MIN_PASSWORD_LENGTH @ '' characters.'')
      else if length nxt > 256 then Some ''The new password must be at most 256 characters.''
      else if nxt = current then Some ''The new password must differ from the current password.''
      else if nxt \<noteq> confirm then Some ''The passwords do not match.''
      else None)"

section \<open>Countries\<close>

definition normalCountry :: "string option \<Rightarrow> string" where
  "normalCountry code =
     (let c = toUpperCase (trim (orElse code [])) in
      if length c = 2 \<and> list_all is_upper c then c else [])"

text \<open>\<open>display\<close> is \<open>Intl.DisplayNames.of\<close> in English: \<^const>\<open>None\<close> when it throws or has no name.\<close>

definition countryName :: "(string \<Rightarrow> string option) \<Rightarrow> string option \<Rightarrow> string" where
  "countryName display code =
     (let c = normalCountry code in if c = [] then [] else orElse (display c) c)"

text \<open>The table of flags the build makes: file path and URL of each two-letter file.\<close>

definition base_name :: "string \<Rightarrow> string" where
  "base_name path = last (split_on (\<lambda>c. c = CHR ''/'') path)"

definition flag_code :: "string \<Rightarrow> string" where
  "flag_code path = toUpperCase (take (length (base_name path) - 4) (base_name path))"

definition FLAGS :: "(string \<times> string) list \<Rightarrow> (string \<times> string) list" where
  "FLAGS files = map (\<lambda>(path, url). (flag_code path, url)) files"

definition flagUrl :: "(string \<times> string) list \<Rightarrow> string option \<Rightarrow> string option" where
  "flagUrl flags code =
     (let c = normalCountry code in if c = [] then None else map_of flags c)"

definition countryOptions ::
  "(string \<Rightarrow> string \<Rightarrow> bool) \<Rightarrow> (string \<Rightarrow> string option) \<Rightarrow> (string \<times> string) list \<Rightarrow> (string \<times> string) list" where
  "countryOptions leq display flags =
     sort_by (\<lambda>a b. leq (snd a) (snd b)) (map (\<lambda>(code, url). (code, countryName display (Some code))) flags)"

lemma normalCountry_idem: "normalCountry (Some (normalCountry code)) = normalCountry code"
proof (cases "normalCountry code = []")
  case True
  then show ?thesis by (simp add: normalCountry_def toUpperCase_def)
next
  case False
  let ?c = "normalCountry code"
  from False have c: "length ?c = 2" "list_all is_upper ?c"
    by (auto simp: normalCountry_def Let_def split: if_splits)
  then have "\<forall>x \<in> set ?c. \<not> is_space x"
    by (auto simp: list_all_iff is_upper_def is_space_def)
  then have "trim ?c = ?c" by (rule trim_no_space)
  moreover have "toUpperCase s = s" if "list_all is_upper s" for s
    using that by (induction s) (auto simp: toUpperCase_def upper_char_def is_upper_def Let_def)
  ultimately show ?thesis using c by (simp add: normalCountry_def Let_def)
qed

section \<open>Numbers as text\<close>

text \<open>\<open>integer.format\<close>: a whole number with a comma between groups of three digits.\<close>

fun group_digits :: "string \<Rightarrow> string" where
  "group_digits s =
     (if length s \<le> 3 then s else group_digits (take (length s - 3) s) @ '','' @ drop (length s - 3) s)"

declare group_digits.simps [simp del]

definition integer_format :: "int \<Rightarrow> string" where
  "integer_format i = (if i < 0 then ''-'' else []) @ group_digits (show_nat (nat \<bar>i\<bar>))"

text \<open>\<open>x.toFixed(d)\<close>: the nearest multiple of \<open>10^-d\<close>, halves away from zero. (A double is a binary
  fraction, so a tie of the decimal text can fall either way there; the exact value here is
  rounded exactly.)\<close>

definition round_half_away :: "rat \<Rightarrow> int" where
  "round_half_away q = (if q < 0 then - \<lfloor>- q + 1 / 2\<rfloor> else \<lfloor>q + 1 / 2\<rfloor>)"

definition pad_zeros :: "nat \<Rightarrow> string \<Rightarrow> string" where
  "pad_zeros n s = replicate (n - length s) (CHR ''0'') @ s"

definition toFixed :: "nat \<Rightarrow> rat \<Rightarrow> string" where
  "toFixed d q =
     (let n = round_half_away (q * 10 ^ d);
          digits = pad_zeros (Suc d) (show_nat (nat \<bar>n\<bar>));
          ip = take (length digits - d) digits;
          fp = drop (length digits - d) digits
      in (if q < 0 then ''-'' else []) @ ip @ (if d = 0 then [] else ''.'' @ fp))"

text \<open>\<open>compactFmt\<close> is the compact notation of \<open>Intl.NumberFormat\<close>.\<close>

definition formatCount :: "(rat \<Rightarrow> string) \<Rightarrow> rat option \<Rightarrow> string" where
  "formatCount compactFmt n =
     (case n of
        None \<Rightarrow> EMDASH
      | Some q \<Rightarrow> if \<bar>q\<bar> \<ge> 100000 then compactFmt q else integer_format (Math_round q))"

definition formatAxisCount :: "(rat \<Rightarrow> string) \<Rightarrow> rat \<Rightarrow> string" where
  "formatAxisCount compactFmt q = (if \<bar>q\<bar> \<ge> 10000 then compactFmt q else integer_format (Math_round q))"

definition formatExact :: "int option \<Rightarrow> string" where
  "formatExact n = (case n of None \<Rightarrow> EMDASH | Some i \<Rightarrow> integer_format i)"

definition formatRate :: "(rat \<Rightarrow> string) \<Rightarrow> rat option \<Rightarrow> string" where
  "formatRate compactFmt n =
     (case n of
        None \<Rightarrow> EMDASH
      | Some q \<Rightarrow> if 0 < q \<and> q < 10 then toFixed 1 q else formatCount compactFmt (Some q))"

definition byte_units :: "string list" where
  "byte_units = [''B'', ''KiB'', ''MiB'', ''GiB'', ''TiB'', ''PiB'']"

text \<open>The loop of \<open>formatBytes\<close>: the unit index goes up while there is a larger unit.\<close>

fun scale_bytes :: "nat \<Rightarrow> rat \<Rightarrow> nat \<Rightarrow> rat \<times> nat" where
  "scale_bytes 0 v i = (v, i)"
| "scale_bytes (Suc k) v i = (if \<bar>v\<bar> \<ge> 1024 then scale_bytes k (v / 1024) (i + 1) else (v, i))"

definition formatBytes :: "rat option \<Rightarrow> string" where
  "formatBytes n =
     (case n of
        None \<Rightarrow> EMDASH
      | Some q \<Rightarrow>
          (let (v, i) = scale_bytes (length byte_units - 1) q 0 in
           (if v \<ge> 100 \<or> i = 0 then show_int (Math_round v) else toFixed 1 v) @ '' '' @ byte_units ! i))"

definition formatDuration :: "rat option \<Rightarrow> string" where
  "formatDuration seconds =
     (case seconds of
        None \<Rightarrow> EMDASH
      | Some s \<Rightarrow>
          if s < 1 then show_int (Math_round (s * 1000)) @ '' ms''
          else if s < 60 then toFixed (if s < 10 then 1 else 0) s @ '' s''
          else (let m = \<lfloor>s / 60\<rfloor> in
                if m < 60 then show_int m @ ''m '' @ show_int (\<lfloor>s\<rfloor> mod 60) @ ''s''
                else (let h = m div 60 in
                      if h < 48 then show_int h @ ''h '' @ show_int (m mod 60) @ ''m''
                      else show_int (h div 24) @ ''d '' @ show_int (h mod 24) @ ''h'')))"

definition formatPercent :: "rat \<Rightarrow> string" where
  "formatPercent ratio = toFixed (if ratio < 1 / 10 then 1 else 0) (ratio * 100) @ ''%''"

text \<open>\<open>browser\<close> is the browser's own time zone, empty when it reports none.\<close>

definition resolveTimezone :: "string \<Rightarrow> string \<Rightarrow> string" where
  "resolveTimezone browser pref =
     (if pref = ''browser'' then (if browser = [] then ''UTC'' else browser)
      else if pref = [] then ''UTC'' else pref)"

section \<open>Facts\<close>

lemma scale_bytes_value: "scale_bytes k v i = (w, j) \<Longrightarrow> i \<le> j \<and> j \<le> i + k \<and> v = w * 1024 ^ (j - i)"
proof (induction k v i arbitrary: w j rule: scale_bytes.induct)
  case (2 k v i)
  show ?case
  proof (cases "\<bar>v\<bar> \<ge> 1024")
    case True
    with 2 have "i + 1 \<le> j \<and> j \<le> i + 1 + k \<and> v / 1024 = w * 1024 ^ (j - (i + 1))" by simp
    moreover from this have "j - i = Suc (j - (i + 1))" by linarith
    ultimately show ?thesis by (simp add: field_simps)
  next
    case False
    with "2.prems" show ?thesis by simp
  qed
qed simp

lemma scale_bytes_small: "scale_bytes k v i = (w, j) \<Longrightarrow> j < i + k \<Longrightarrow> \<bar>w\<bar> < 1024"
  by (induction k v i arbitrary: w j rule: scale_bytes.induct) (auto split: if_splits)

section \<open>Properties\<close>

text \<open>After login the browser goes to an absolute path: the target starts with one slash, never with
  two (which would name another host), and a path that was asked for is kept.\<close>

lemma safeNext_path:
  "startsWith (safeNext nxt) ''/'' \<and> \<not> startsWith (safeNext nxt) ''//'' \<and> \<not> startsWith (safeNext nxt) ''/login'' \<and>
   (safeNext nxt = ''/dashboard'' \<or> nxt = Some (safeNext nxt))"
  by (cases nxt) (auto simp: safeNext_def Let_def)

text \<open>A backslash after the slash passes the test, although a browser reads it as a second slash.\<close>

lemma safeNext_backslash: "safeNext (Some [CHR ''/'', BSLASH, CHR ''x'']) = [CHR ''/'', BSLASH, CHR ''x'']"
  by code_simp

text \<open>The size that is printed is the size that was given: the scaled value times 1024 to the power of its
  unit is the number of bytes, the unit exists, and the value is below 1024 unless the largest
  unit is reached.\<close>

lemma scale_bytes_exact:
  "case scale_bytes (length byte_units - 1) q 0 of (v, i) \<Rightarrow>
     q = v * 1024 ^ i \<and> i < length byte_units \<and> (\<bar>v\<bar> < 1024 \<or> i = length byte_units - 1)"
proof -
  obtain v i where s: "scale_bytes (length byte_units - 1) q 0 = (v, i)" by fastforce
  have "i \<le> length byte_units - 1" and "q = v * 1024 ^ i" using scale_bytes_value [OF s] by simp_all
  moreover have "i < length byte_units - 1 \<Longrightarrow> \<bar>v\<bar> < 1024" using scale_bytes_small [OF s] by simp
  moreover have "length byte_units = 6" by (simp add: byte_units_def)
  ultimately show ?thesis unfolding s by auto
qed

end
