(* ===== verification/Forward_Form.thy ===== *)
theory Forward_Form
  imports Lib_Text Problems Form_Fields
begin

text \<open>
  Forward targets: the dialog's form and payload, problems and health of
  \<open>src/frontend/src/features/forwarding/forward-form.ts\<close>, and the labels of
  \<open>src/frontend/src/features/system/forwarding.ts\<close>.

  A minimum severity that is empty or absent is \<^const>\<open>None\<close>.
\<close>

section \<open>Types\<close>

datatype ForwardCompression = Compress_none | Compress_gzip | Compress_zstd

record ForwardQueueConfig =
  fq_max_messages :: "nat option"
  fq_max_bytes :: "string option"

record ForwardBatchConfig =
  fb_max_rows :: "nat option"
  fb_max_bytes :: "string option"
  fb_max_wait :: "string option"

record ForwardRetryConfig =
  fr_initial_backoff :: "string option"
  fr_max_backoff :: "string option"

record ForwardTargetConfig =
  fc_name :: string
  fc_url :: string
  fc_sources :: "string list option"
  fc_min_severity :: "Severity option"
  fc_compression :: "ForwardCompression option"
  fc_write_timeout :: "string option"
  fc_basic_username :: "string option"
  fc_basic_password_file :: "string option"
  fc_bearer_token_file :: "string option"
  fc_queue :: "ForwardQueueConfig option"
  fc_batch :: "ForwardBatchConfig option"
  fc_retry :: "ForwardRetryConfig option"

record ForwardTargetInput =
  fi_config :: ForwardTargetConfig
  fi_token :: "string option"

record ForwardTargetStatus =
  fs_healthy :: bool
  fs_queued_messages :: nat
  fs_sent_messages :: nat
  fs_dropped_messages :: nat

record ManagedForwardTarget =
  ft_id :: "string option"
  ft_config :: ForwardTargetConfig
  ft_enabled :: bool
  ft_status :: "ForwardTargetStatus option"
  ft_token_stored :: "bool option"

record ForwardFormState =
  ff_name :: string
  ff_url :: string
  ff_sources :: string
  ff_min_severity :: "Severity option"
  ff_compression :: ForwardCompression
  ff_token :: string
  ff_token_stored :: bool
  ff_remove_token :: bool
  ff_write_timeout :: string
  ff_basic_username :: string
  ff_basic_password_file :: string
  ff_bearer_token_file :: string
  ff_queue_max_messages :: string
  ff_queue_max_bytes :: string
  ff_batch_max_rows :: string
  ff_batch_max_bytes :: string
  ff_batch_max_wait :: string
  ff_retry_initial_backoff :: string
  ff_retry_max_backoff :: string

definition DEFAULT_FORWARD_FORM :: ForwardFormState where
  "DEFAULT_FORWARD_FORM =
     \<lparr>ff_name = [], ff_url = [], ff_sources = [], ff_min_severity = None, ff_compression = Compress_gzip,
      ff_token = [], ff_token_stored = False, ff_remove_token = False, ff_write_timeout = [],
      ff_basic_username = [], ff_basic_password_file = [], ff_bearer_token_file = [],
      ff_queue_max_messages = [], ff_queue_max_bytes = [], ff_batch_max_rows = [], ff_batch_max_bytes = [],
      ff_batch_max_wait = [], ff_retry_initial_backoff = [], ff_retry_max_backoff = []\<rparr>"

definition FORWARD_DEFAULT_HINTS :: "(string \<times> string) list" where
  "FORWARD_DEFAULT_HINTS =
     [(''write_timeout'', ''30s''), (''queue_max_messages'', ''200000''), (''queue_max_bytes'', ''128MiB''),
      (''batch_max_rows'', ''10000''), (''batch_max_bytes'', ''8MiB''), (''batch_max_wait'', ''1s''),
      (''retry_initial_backoff'', ''1s''), (''retry_max_backoff'', ''30s'')]"

definition forwardSourceNames :: "string \<Rightarrow> string list" where
  "forwardSourceNames t = split_list list_sep t"

definition count_or_blank :: "nat option \<Rightarrow> string" where
  "count_or_blank m = (case m of None \<Rightarrow> [] | Some n \<Rightarrow> if n = 0 then [] else show_nat n)"

definition configToForwardForm :: "ManagedForwardTarget \<Rightarrow> ForwardFormState" where
  "configToForwardForm target =
     (let c = ft_config target in
      \<lparr>ff_name = fc_name c,
       ff_url = fc_url c,
       ff_sources = join [NL] (orElse (fc_sources c) []),
       ff_min_severity = fc_min_severity c,
       ff_compression = orElse (fc_compression c) (ff_compression DEFAULT_FORWARD_FORM),
       ff_token = [],
       ff_token_stored = orElse (ft_token_stored target) False,
       ff_remove_token = False,
       ff_write_timeout = orElse (fc_write_timeout c) [],
       ff_basic_username = orElse (fc_basic_username c) [],
       ff_basic_password_file = orElse (fc_basic_password_file c) [],
       ff_bearer_token_file = orElse (fc_bearer_token_file c) [],
       ff_queue_max_messages = count_or_blank (Option.bind (fc_queue c) fq_max_messages),
       ff_queue_max_bytes = orElse (Option.bind (fc_queue c) fq_max_bytes) [],
       ff_batch_max_rows = count_or_blank (Option.bind (fc_batch c) fb_max_rows),
       ff_batch_max_bytes = orElse (Option.bind (fc_batch c) fb_max_bytes) [],
       ff_batch_max_wait = orElse (Option.bind (fc_batch c) fb_max_wait) [],
       ff_retry_initial_backoff = orElse (Option.bind (fc_retry c) fr_initial_backoff) [],
       ff_retry_max_backoff = orElse (Option.bind (fc_retry c) fr_max_backoff) []\<rparr>)"

section \<open>Errors\<close>

record ForwardErrors =
  fe_fields :: "(string \<times> string) list"
  fe_general :: "string list"

definition emptyForwardErrors :: ForwardErrors where
  "emptyForwardErrors = \<lparr>fe_fields = [], fe_general = []\<rparr>"

definition hasForwardErrors :: "ForwardErrors \<Rightarrow> bool" where
  "hasForwardErrors e \<longleftrightarrow> fe_general e \<noteq> [] \<or> fe_fields e \<noteq> []"

definition setForwardError :: "string \<Rightarrow> string \<Rightarrow> ForwardErrors \<Rightarrow> ForwardErrors" where
  "setForwardError field message e = e\<lparr>fe_fields := AList.update field message (fe_fields e)\<rparr>"

definition parseForwardCount :: "string \<Rightarrow> nat \<Rightarrow> string \<Rightarrow> ForwardErrors \<Rightarrow> nat option \<times> ForwardErrors" where
  "parseForwardCount v least field errors =
     (let t = trim v;
          bad = (None, setForwardError field (''Must be a whole number of '' @ show_nat least @ '' or more.'') errors)
      in if t = [] then (None, errors)
         else (case Number t of
                 Num q \<Rightarrow> if \<not> isInteger (Num q) \<or> q < of_nat least then bad else (Some (nat \<lfloor>q\<rfloor>), errors)
               | _ \<Rightarrow> bad))"

text \<open>\<open>/^https?:\/\//i\<close>.\<close>

definition http_url :: "string \<Rightarrow> bool" where
  "http_url url \<longleftrightarrow> startsWith (toLowerCase url) ''http://'' \<or> startsWith (toLowerCase url) ''https://''"

definition urlError :: "string \<Rightarrow> string option" where
  "urlError url =
     (if url = [] then Some ''The address of the remote VictoriaLogs instance is required.''
      else if \<not> http_url url then Some ''Must start with http:// or https://.''
      else None)"

definition forwardRequired :: "ForwardFormState \<Rightarrow> ForwardErrors" where
  "forwardRequired f =
     (let e0 = (if trim (ff_name f) = [] then setForwardError ''name'' ''Name is required.'' emptyForwardErrors
                else emptyForwardErrors)
      in case urlError (trim (ff_url f)) of None \<Rightarrow> e0 | Some m \<Rightarrow> setForwardError ''url'' m e0)"

definition formToForwardInput :: "ForwardFormState \<Rightarrow> ForwardTargetInput \<times> ForwardErrors" where
  "formToForwardInput f =
     (let e1 = forwardRequired f;
          (maxMessages, e2) = parseForwardCount (ff_queue_max_messages f) 1 ''queue_max_messages'' e1;
          queueBytes = nonempty (trim (ff_queue_max_bytes f));
          (maxRows, e3) = parseForwardCount (ff_batch_max_rows f) 1 ''batch_max_rows'' e2;
          batchBytes = nonempty (trim (ff_batch_max_bytes f));
          batchWait = nonempty (trim (ff_batch_max_wait f));
          initialBackoff = nonempty (trim (ff_retry_initial_backoff f));
          maxBackoff = nonempty (trim (ff_retry_max_backoff f));
          config =
            \<lparr>fc_name = trim (ff_name f), fc_url = trim (ff_url f),
             fc_sources = nonempty (forwardSourceNames (ff_sources f)),
             fc_min_severity = ff_min_severity f,
             fc_compression = Some (ff_compression f),
             fc_write_timeout = nonempty (trim (ff_write_timeout f)),
             fc_basic_username = nonempty (trim (ff_basic_username f)),
             fc_basic_password_file = nonempty (trim (ff_basic_password_file f)),
             fc_bearer_token_file = nonempty (trim (ff_bearer_token_file f)),
             fc_queue = (if maxMessages = None \<and> queueBytes = None then None
                         else Some \<lparr>fq_max_messages = maxMessages, fq_max_bytes = queueBytes\<rparr>),
             fc_batch = (if maxRows = None \<and> batchBytes = None \<and> batchWait = None then None
                         else Some \<lparr>fb_max_rows = maxRows, fb_max_bytes = batchBytes, fb_max_wait = batchWait\<rparr>),
             fc_retry = (if initialBackoff = None \<and> maxBackoff = None then None
                         else Some \<lparr>fr_initial_backoff = initialBackoff, fr_max_backoff = maxBackoff\<rparr>)\<rparr>
      in (\<lparr>fi_config = config,
           fi_token = (if ff_remove_token f then Some [] else nonempty (ff_token f))\<rparr>, e3))"

section \<open>Server problems\<close>

definition FORWARD_CONFIG_FIELD :: "(string \<times> string) list" where
  "FORWARD_CONFIG_FIELD =
     [(''name'', ''name''), (''url'', ''url''), (''sources'', ''sources''), (''min_severity'', ''min_severity''),
      (''compression'', ''compression''), (''write_timeout'', ''write_timeout''),
      (''basic_username'', ''basic_username''), (''basic_password_file'', ''basic_password_file''),
      (''bearer_token_file'', ''bearer_token_file''), (''queue.max_messages'', ''queue_max_messages''),
      (''queue.max_bytes'', ''queue_max_bytes''), (''batch.max_rows'', ''batch_max_rows''),
      (''batch.max_bytes'', ''batch_max_bytes''), (''batch.max_wait'', ''batch_max_wait''),
      (''retry.initial_backoff'', ''retry_initial_backoff''), (''retry.max_backoff'', ''retry_max_backoff'')]"

definition addForwardFieldError :: "string \<Rightarrow> string \<Rightarrow> ForwardErrors \<Rightarrow> ForwardErrors" where
  "addForwardFieldError field message errors =
     errors\<lparr>fe_fields := append_message field message (fe_fields errors)\<rparr>"

definition addForwardGeneral :: "string \<Rightarrow> ForwardErrors \<Rightarrow> ForwardErrors" where
  "addForwardGeneral message errors = errors\<lparr>fe_general := fe_general errors @ [message]\<rparr>"

text \<open>\<open>/^(?:forward )?target:\s*/\<close>.\<close>

definition strip_target :: "string \<Rightarrow> string" where
  "strip_target clause =
     (if startsWith clause ''forward target:'' then trimStart (drop 15 clause)
      else if startsWith clause ''target:'' then trimStart (drop 7 clause)
      else clause)"

definition forwardProblemErrors :: "Problem option \<Rightarrow> string \<Rightarrow> ForwardErrors" where
  "forwardProblemErrors problem fallback =
     place_problem FORWARD_CONFIG_FIELD strip_target addForwardFieldError addForwardGeneral
       (place_text FORWARD_CONFIG_FIELD addForwardFieldError addForwardGeneral)
       hasForwardErrors emptyForwardErrors problem fallback"

section \<open>Health\<close>

datatype ForwardState = Fwd_off | Fwd_starting | Fwd_failing | Fwd_dropping | Fwd_healthy

datatype ForwardTone = FTone_ok | FTone_warn | FTone_fail | FTone_idle

record ForwardHealth =
  fh_state :: ForwardState
  fh_label :: string
  fh_tone :: ForwardTone
  fh_attention :: bool
  fh_notes :: "string list"

definition FAILING_NOTE :: string where
  "FAILING_NOTE =
     ''Writes to this target are failing. Copies are buffered and then dropped once the queue fills; the logs stored on '' @
     ''this node are unaffected.''"

definition DROPPED_NOTE :: string where
  "DROPPED_NOTE =
     ''Copies were dropped: those logs will never reach this target. Fix why writes are slow or failing, or raise the '' @
     ''queue size under Advanced.''"

definition OFF_NOTE :: string where
  "OFF_NOTE = ''Switched off: nothing is being copied to this target.''"

definition STARTING_NOTE :: string where
  "STARTING_NOTE = ''Switched on, but this node has not reported on it yet.''"

definition forwardHealth :: "ManagedForwardTarget \<Rightarrow> ForwardHealth" where
  "forwardHealth t =
     (if \<not> ft_enabled t then
        \<lparr>fh_state = Fwd_off, fh_label = ''off'', fh_tone = FTone_idle, fh_attention = False, fh_notes = [OFF_NOTE]\<rparr>
      else (case ft_status t of
        None \<Rightarrow>
          \<lparr>fh_state = Fwd_starting, fh_label = ''starting'', fh_tone = FTone_idle, fh_attention = False,
           fh_notes = [STARTING_NOTE]\<rparr>
      | Some s \<Rightarrow>
          (let notes = (if \<not> fs_healthy s then [FAILING_NOTE] else []) @
                       (if fs_dropped_messages s > 0 then [DROPPED_NOTE] else [])
           in if \<not> fs_healthy s then
                \<lparr>fh_state = Fwd_failing, fh_label = ''unhealthy'', fh_tone = FTone_fail, fh_attention = True,
                 fh_notes = notes\<rparr>
              else if fs_dropped_messages s > 0 then
                \<lparr>fh_state = Fwd_dropping, fh_label = ''dropped copies'', fh_tone = FTone_warn, fh_attention = True,
                 fh_notes = notes\<rparr>
              else
                \<lparr>fh_state = Fwd_healthy, fh_label = ''healthy'', fh_tone = FTone_ok, fh_attention = False,
                 fh_notes = []\<rparr>)))"

definition attention_part :: "ManagedForwardTarget \<Rightarrow> string list" where
  "attention_part t =
     (let health = forwardHealth t in
      if \<not> fh_attention health then []
      else [fc_name (ft_config t) @ '' '' @
            (if fh_state health = Fwd_failing then ''is not accepting writes'' else ''has dropped copies'')])"

definition forwardAttentionSummary :: "ManagedForwardTarget list \<Rightarrow> string option" where
  "forwardAttentionSummary targets =
     (let parts = concat (map attention_part targets) in
      if parts \<noteq> [] then Some (join ''; '' parts @ ''.'') else None)"

definition forwardEnableConsequence :: "ForwardTargetConfig \<Rightarrow> string" where
  "forwardEnableConsequence config = ''Every stored log matching the filters is copied to '' @ fc_url config @ ''.''"

section \<open>Labels\<close>

definition forwardFilterLabels :: "string option \<Rightarrow> string list option \<Rightarrow> string list" where
  "forwardFilterLabels min_severity sources =
     (let ss = orElse sources [];
          labels = (if orElse min_severity [] \<noteq> [] then [orElse min_severity [] @ '' and above''] else []) @
            (if length ss = 1 then [''source: '' @ hd ss]
             else if length ss > 1 then [''sources: '' @ join '', '' ss] else [])
      in if labels \<noteq> [] then labels else [''all logs''])"

definition truncateError :: "string option \<Rightarrow> nat \<Rightarrow> string" where
  "truncateError txt n =
     (let t = trim (orElse txt []) in
      if length t \<le> n then t else trimEnd (take (n - 1) t) @ ELLIPSIS)"

text \<open>\<open>dateParse\<close> is \<open>Date.parse\<close>, \<^const>\<open>None\<close> for \<open>NaN\<close>; times are milliseconds.\<close>

definition secondsSince :: "(string \<Rightarrow> int option) \<Rightarrow> string option \<Rightarrow> int \<Rightarrow> rat option" where
  "secondsSince dateParse stamp nowMs =
     (if orElse stamp [] = [] then None
      else map_option (\<lambda>t. max 0 (of_int (nowMs - t) / 1000)) (dateParse (orElse stamp [])))"

section \<open>Opening and saving a target\<close>

definition forward_normal :: "ForwardTargetConfig \<Rightarrow> bool" where
  "forward_normal c \<longleftrightarrow>
     text_item (fc_name c) \<and> text_item (fc_url c) \<and> http_url (fc_url c) \<and> opt_items (fc_sources c) \<and>
     fc_compression c \<noteq> None \<and> opt_text (fc_write_timeout c) \<and> opt_text (fc_basic_username c) \<and>
     opt_text (fc_basic_password_file c) \<and> opt_text (fc_bearer_token_file c) \<and>
     (case fc_queue c of None \<Rightarrow> True | Some q \<Rightarrow>
        opt_text (fq_max_bytes q) \<and> fq_max_messages q \<noteq> Some 0 \<and> (fq_max_messages q \<noteq> None \<or> fq_max_bytes q \<noteq> None)) \<and>
     (case fc_batch c of None \<Rightarrow> True | Some b \<Rightarrow>
        opt_text (fb_max_bytes b) \<and> opt_text (fb_max_wait b) \<and> fb_max_rows b \<noteq> Some 0 \<and>
        (fb_max_rows b \<noteq> None \<or> fb_max_bytes b \<noteq> None \<or> fb_max_wait b \<noteq> None)) \<and>
     (case fc_retry c of None \<Rightarrow> True | Some r \<Rightarrow>
        opt_text (fr_initial_backoff r) \<and> opt_text (fr_max_backoff r) \<and>
        (fr_initial_backoff r \<noteq> None \<or> fr_max_backoff r \<noteq> None))"

lemma setForwardError_neq [simp]: "setForwardError f m e \<noteq> emptyForwardErrors"
  by (cases e) (simp add: setForwardError_def emptyForwardErrors_def)

lemma parseForwardCount_blank: "m \<noteq> Some 0 \<Longrightarrow> parseForwardCount (count_or_blank m) 1 f e = (m, e)"
  by (cases m) (auto simp: parseForwardCount_def count_or_blank_def isInteger_def)

lemma parseForwardCount_empty:
  "parseForwardCount v least f e = (m, emptyForwardErrors) \<Longrightarrow> e = emptyForwardErrors"
  by (auto simp: parseForwardCount_def Let_def split: JsNum.splits if_splits)

lemma parseForwardCount_least:
  "parseForwardCount v 1 f e = (m, emptyForwardErrors) \<Longrightarrow> m \<noteq> Some 0"
proof -
  assume a: "parseForwardCount v 1 f e = (m, emptyForwardErrors)"
  show "m \<noteq> Some 0"
  proof
    assume "m = Some 0"
    with a obtain q where q: "1 \<le> q" "nat \<lfloor>q\<rfloor> = 0"
      by (auto simp: parseForwardCount_def Let_def not_less split: JsNum.splits if_splits)
    then have "1 \<le> \<lfloor>q\<rfloor>" by simp
    with q(2) show False by simp
  qed
qed

lemma forwardRequired_empty:
  "forwardRequired f = emptyForwardErrors \<longleftrightarrow> trim (ff_name f) \<noteq> [] \<and> urlError (trim (ff_url f)) = None"
  by (auto simp: forwardRequired_def Let_def split: option.splits)

lemma urlError_None: "urlError u = None \<longleftrightarrow> u \<noteq> [] \<and> http_url u"
  by (auto simp: urlError_def split: if_splits)

lemma queue_normal:
  assumes "forward_normal c"
  defines "n \<equiv> Option.bind (fc_queue c) fq_max_messages" and "b \<equiv> Option.bind (fc_queue c) fq_max_bytes"
  shows "n \<noteq> Some 0" and "opt_text b"
    and "(if n = None \<and> b = None then None else Some \<lparr>fq_max_messages = n, fq_max_bytes = b\<rparr>) = fc_queue c"
  using assms by (auto simp: forward_normal_def split: option.splits)

lemma batch_normal:
  assumes "forward_normal c"
  defines "n \<equiv> Option.bind (fc_batch c) fb_max_rows" and "b \<equiv> Option.bind (fc_batch c) fb_max_bytes"
    and "w \<equiv> Option.bind (fc_batch c) fb_max_wait"
  shows "n \<noteq> Some 0" and "opt_text b" and "opt_text w"
    and "(if n = None \<and> b = None \<and> w = None then None
          else Some \<lparr>fb_max_rows = n, fb_max_bytes = b, fb_max_wait = w\<rparr>) = fc_batch c"
  using assms by (auto simp: forward_normal_def split: option.splits)

lemma retry_normal:
  assumes "forward_normal c"
  defines "i \<equiv> Option.bind (fc_retry c) fr_initial_backoff" and "m \<equiv> Option.bind (fc_retry c) fr_max_backoff"
  shows "opt_text i" and "opt_text m"
    and "(if i = None \<and> m = None then None else Some \<lparr>fr_initial_backoff = i, fr_max_backoff = m\<rparr>) = fc_retry c"
  using assms by (auto simp: forward_normal_def split: option.splits)

lemma forward_fields:
  assumes "f = configToForwardForm t" and "c = ft_config t"
  shows "ff_name f = fc_name c" "ff_url f = fc_url c" "ff_sources f = join [NL] (orElse (fc_sources c) [])"
    "ff_min_severity f = fc_min_severity c" "ff_compression f = orElse (fc_compression c) Compress_gzip"
    "ff_token f = []" "ff_remove_token f = False" "ff_write_timeout f = orElse (fc_write_timeout c) []"
    "ff_basic_username f = orElse (fc_basic_username c) []"
    "ff_basic_password_file f = orElse (fc_basic_password_file c) []"
    "ff_bearer_token_file f = orElse (fc_bearer_token_file c) []"
    "ff_queue_max_messages f = count_or_blank (Option.bind (fc_queue c) fq_max_messages)"
    "ff_queue_max_bytes f = orElse (Option.bind (fc_queue c) fq_max_bytes) []"
    "ff_batch_max_rows f = count_or_blank (Option.bind (fc_batch c) fb_max_rows)"
    "ff_batch_max_bytes f = orElse (Option.bind (fc_batch c) fb_max_bytes) []"
    "ff_batch_max_wait f = orElse (Option.bind (fc_batch c) fb_max_wait) []"
    "ff_retry_initial_backoff f = orElse (Option.bind (fc_retry c) fr_initial_backoff) []"
    "ff_retry_max_backoff f = orElse (Option.bind (fc_retry c) fr_max_backoff) []"
  using assms by (simp_all add: configToForwardForm_def Let_def DEFAULT_FORWARD_FORM_def)

lemma formToForwardInput_open:
  assumes wf: "forward_normal (ft_config t)"
  shows "formToForwardInput (configToForwardForm t) =
    (\<lparr>fi_config = ft_config t, fi_token = None\<rparr>, emptyForwardErrors)"
proof -
  define c where "c = ft_config t"
  define f where "f = configToForwardForm t"
  note fields = forward_fields [OF f_def c_def] and wf = wf [folded c_def]
  have texts: "text_item (fc_name c)" "text_item (fc_url c)" "http_url (fc_url c)" "opt_items (fc_sources c)"
    "fc_compression c \<noteq> None" "opt_text (fc_write_timeout c)" "opt_text (fc_basic_username c)"
    "opt_text (fc_basic_password_file c)" "opt_text (fc_bearer_token_file c)"
    using wf by (simp_all add: forward_normal_def)
  have req: "forwardRequired f = emptyForwardErrors"
    unfolding forwardRequired_empty urlError_None fields using texts(1-3) text_item_Nil_neq by simp
  note q = queue_normal [OF wf] and b = batch_normal [OF wf] and r = retry_normal [OF wf]
  have "fc_compression c = Some (orElse (fc_compression c) Compress_gzip)" using texts(5) by auto
  then have "formToForwardInput f = (\<lparr>fi_config = c, fi_token = None\<rparr>, emptyForwardErrors)"
    unfolding formToForwardInput_def req Let_def fields forwardSourceNames_def
      parseForwardCount_blank [OF q(1)] parseForwardCount_blank [OF b(1)] prod.case
      nonempty_text [OF q(2)] nonempty_text [OF b(2)] nonempty_text [OF b(3)] nonempty_text [OF r(1)]
      nonempty_text [OF r(2)] q(3) b(4) r(3)
    using texts by simp
  then show ?thesis by (simp add: f_def c_def)
qed

lemma formToForwardInput_normal:
  assumes "formToForwardInput f = (i, emptyForwardErrors)"
  shows "forward_normal (fi_config i)"
proof -
  obtain n e2 where n: "parseForwardCount (ff_queue_max_messages f) 1 ''queue_max_messages'' (forwardRequired f) = (n, e2)"
    by fastforce
  obtain m e3 where m: "parseForwardCount (ff_batch_max_rows f) 1 ''batch_max_rows'' e2 = (m, e3)" by fastforce
  note eq = assms [unfolded formToForwardInput_def Let_def n prod.case m]
  have e3: "e3 = emptyForwardErrors" using eq by simp
  have e2: "e2 = emptyForwardErrors" using m e3 parseForwardCount_empty by blast
  have e1: "forwardRequired f = emptyForwardErrors" using n e2 parseForwardCount_empty by blast
  have nm: "n \<noteq> Some 0" "m \<noteq> Some 0"
    using n m e2 e3 parseForwardCount_least by blast+
  have "trim (ff_name f) \<noteq> []" "trim (ff_url f) \<noteq> []" "http_url (trim (ff_url f))"
    using e1 by (simp_all add: forwardRequired_empty urlError_None)
  moreover have "opt_items (nonempty (forwardSourceNames (ff_sources f)))" by (simp add: forwardSourceNames_def)
  ultimately show ?thesis
    using eq nm by (auto simp: forward_normal_def text_item_def)
qed

section \<open>No complaint is lost\<close>

definition forward_mentions :: "ForwardErrors \<Rightarrow> string \<Rightarrow> bool" where
  "forward_mentions e x \<longleftrightarrow> mentioned (fe_fields e) x \<or> (\<exists>m \<in> set (fe_general e). str_includes m x)"

interpretation fwd_sink: error_sink addForwardFieldError addForwardGeneral hasForwardErrors forward_mentions
proof
  fix f m e x
  show "forward_mentions (addForwardFieldError f m e) m"
    by (simp add: forward_mentions_def addForwardFieldError_def append_message_mentions)
  show "forward_mentions e x \<Longrightarrow> forward_mentions (addForwardFieldError f m e) x"
    by (auto simp: forward_mentions_def addForwardFieldError_def append_message_keeps)
  show "forward_mentions (addForwardGeneral m e) m"
    by (simp add: forward_mentions_def addForwardGeneral_def)
  show "forward_mentions e x \<Longrightarrow> forward_mentions (addForwardGeneral m e) x"
    by (auto simp: forward_mentions_def addForwardGeneral_def)
  show "forward_mentions e x \<Longrightarrow> hasForwardErrors e"
    by (auto simp: forward_mentions_def hasForwardErrors_def mentioned_def)
qed

interpretation fwd_place: placing addForwardFieldError addForwardGeneral hasForwardErrors forward_mentions
  "place_text FORWARD_CONFIG_FIELD addForwardFieldError addForwardGeneral" "\<lambda>t. t"
  by unfold_locales (rule fwd_sink.place_text_mentions, rule fwd_sink.place_text_keeps)

lemma trimEnd_length: "length (trimEnd s) \<le> length s"
  by (simp add: trimEnd_def) (metis length_dropWhile_le length_rev)

section \<open>Properties\<close>


definition sample_forward_form :: ForwardFormState where
  "sample_forward_form =
     DEFAULT_FORWARD_FORM\<lparr>ff_name := '' dr '', ff_url := ''HTTPS://logs'', ff_sources := ''a, b'',
       ff_queue_max_messages := '' 1e3 ''\<rparr>"

definition sample_target :: ManagedForwardTarget where
  "sample_target =
     \<lparr>ft_id = None, ft_config = fi_config (fst (formToForwardInput sample_forward_form)), ft_enabled = True,
      ft_status = None, ft_token_stored = Some True\<rparr>"


text \<open>A refused target always shows an error, and every complaint of the server can be read in it.\<close>

lemma forwardProblemErrors_readable:
  "hasForwardErrors (forwardProblemErrors problem fallback) \<and>
   list_all (entry_readable forward_mentions (\<lambda>t. t) FORWARD_CONFIG_FIELD strip_target
     (forwardProblemErrors problem fallback)) (problem_entries problem fallback)"
  by (simp add: forwardProblemErrors_def fwd_place.place_problem_has fwd_place.place_problem_readable list_all_iff)

text \<open>The line at the top of the page is shown exactly when some target that is switched on and reports is
  failing or has lost copies.\<close>

lemma forwardAttentionSummary_iff:
  "(forwardAttentionSummary targets \<noteq> None) =
     list_ex (\<lambda>t. ft_enabled t \<and>
       (case ft_status t of None \<Rightarrow> False | Some s \<Rightarrow> (fs_healthy s \<and> fs_dropped_messages s = 0) = False)) targets"
proof -
  have "attention_part t \<noteq> [] \<longleftrightarrow> ft_enabled t \<and>
      (case ft_status t of None \<Rightarrow> False | Some s \<Rightarrow> (fs_healthy s \<and> fs_dropped_messages s = 0) = False)" for t
    by (auto simp: attention_part_def forwardHealth_def Let_def split: option.splits)
  then show ?thesis by (simp add: forwardAttentionSummary_def Let_def concat_eq_Nil_conv list_ex_iff)
qed

end
