(* ===== verification/Ring_Buffer.thy ===== *)
theory Ring_Buffer
  imports Prelude
begin

text \<open>
  The bounded FIFO of \<open>src/frontend/src/lib/ring-buffer.ts\<close>: a ring of slots with a start, a count
  and an eviction counter, refined to the list of the newest items.
\<close>

section \<open>The ring\<close>

text \<open>A slot that was never written holds \<open>undefined\<close>.\<close>

record 'a RingBuffer =
  rb_buf :: "'a option list"
  rb_start :: nat
  rb_count :: nat
  rb_dropped :: nat

definition new_RingBuffer :: "int \<Rightarrow> string + 'a RingBuffer" where
  "new_RingBuffer cap =
     (if cap < 1 then Inl ''capacity must be a positive integer''
      else Inr \<lparr>rb_buf = replicate (nat cap) None, rb_start = 0, rb_count = 0, rb_dropped = 0\<rparr>)"

definition capacity :: "'a RingBuffer \<Rightarrow> nat" where
  "capacity b = length (rb_buf b)"

definition size1 :: "'a RingBuffer \<Rightarrow> nat" where
  "size1 b = rb_count b"

definition evicted :: "'a RingBuffer \<Rightarrow> nat" where
  "evicted b = rb_dropped b"

definition push_item :: "'a RingBuffer \<Rightarrow> 'a \<Rightarrow> 'a RingBuffer" where
  "push_item b item =
     (let n = length (rb_buf b);
          idx = (rb_start b + rb_count b) mod n;
          b1 = b\<lparr>rb_buf := (rb_buf b)[idx := Some item]\<rparr>
      in if rb_count b < n then b1\<lparr>rb_count := rb_count b + 1\<rparr>
         else b1\<lparr>rb_start := (rb_start b + 1) mod n, rb_dropped := rb_dropped b + 1\<rparr>)"

definition push :: "'a RingBuffer \<Rightarrow> 'a list \<Rightarrow> 'a RingBuffer" where
  "push b items = foldl push_item b items"

definition slot :: "'a RingBuffer \<Rightarrow> nat \<Rightarrow> 'a option" where
  "slot b i = rb_buf b ! ((rb_start b + i) mod length (rb_buf b))"

definition toArray :: "'a RingBuffer \<Rightarrow> 'a list" where
  "toArray b = map (\<lambda>i. the (slot b i)) [0..<rb_count b]"

definition at_index :: "'a RingBuffer \<Rightarrow> int \<Rightarrow> 'a option" where
  "at_index b i = (if i < 0 \<or> int (rb_count b) \<le> i then None else slot b (nat i))"

definition clear :: "'a RingBuffer \<Rightarrow> 'a RingBuffer" where
  "clear b = \<lparr>rb_buf = replicate (length (rb_buf b)) None, rb_start = 0, rb_count = 0, rb_dropped = 0\<rparr>"

definition resize :: "'a RingBuffer \<Rightarrow> int \<Rightarrow> string + 'a RingBuffer" where
  "resize b cap =
     (case new_RingBuffer cap of
        Inl e \<Rightarrow> Inl e
      | Inr nxt \<Rightarrow> (let items = toArray b in Inr (push nxt (drop (length items - nat cap) items))))"

section \<open>Well-formed rings\<close>

definition ring_wf :: "'a RingBuffer \<Rightarrow> bool" where
  "ring_wf b \<longleftrightarrow>
     rb_start b < length (rb_buf b) \<and> rb_count b \<le> length (rb_buf b) \<and>
     list_all (\<lambda>i. slot b i \<noteq> None) [0..<rb_count b]"

lemma ring_wf_iff:
  "ring_wf b \<longleftrightarrow>
     rb_start b < length (rb_buf b) \<and> rb_count b \<le> length (rb_buf b) \<and>
     (\<forall>i < rb_count b. slot b i \<noteq> None)"
  by (auto simp: ring_wf_def list_all_iff)

lemma ring_mod: "s < n \<Longrightarrow> i \<le> n \<Longrightarrow> (s + i) mod n = (if s + i < n then s + i else s + i - n)" for s i n :: nat
  by (auto simp: mod_if)

lemma ring_mod_less: "s < n \<Longrightarrow> (s + i) mod n < n" for s i n :: nat
  by (rule mod_less_divisor) simp

lemma ring_mod_neq: "s < n \<Longrightarrow> i < j \<Longrightarrow> j < i + n \<Longrightarrow> j \<le> n \<Longrightarrow> (s + i) mod n \<noteq> (s + j) mod n" for s i j n :: nat
  by (auto simp: ring_mod)

lemma new_ring: "new_RingBuffer cap = Inr b \<Longrightarrow> ring_wf b \<and> toArray b = [] \<and> capacity b = nat cap \<and> 1 \<le> capacity b \<and> evicted b = 0"
  by (auto simp: new_RingBuffer_def ring_wf_iff toArray_def capacity_def evicted_def split: if_splits)

lemma ring_clear: "ring_wf b \<Longrightarrow> ring_wf (clear b) \<and> toArray (clear b) = [] \<and> capacity (clear b) = capacity b \<and> evicted (clear b) = 0"
  by (auto simp: clear_def ring_wf_iff toArray_def capacity_def evicted_def)

lemma length_toArray [simp]: "length (toArray b) = rb_count b"
  by (simp add: toArray_def)

lemma toArray_bound: "ring_wf b \<Longrightarrow> length (toArray b) \<le> capacity b"
  by (simp add: ring_wf_iff capacity_def)

lemma slot_push_room:
  assumes "ring_wf b" and "rb_count b < capacity b" and "i \<le> rb_count b"
  shows "slot (push_item b x) i = (if i = rb_count b then Some x else slot b i)"
proof -
  let ?n = "length (rb_buf b)"
  have s: "rb_start b < ?n" using assms(1) by (simp add: ring_wf_iff)
  have "i < rb_count b \<Longrightarrow> (rb_start b + i) mod ?n \<noteq> (rb_start b + rb_count b) mod ?n"
    using s assms(2) by (intro ring_mod_neq) (auto simp: capacity_def)
  then show ?thesis
    using assms s ring_mod_less [OF s, of "rb_count b"]
    by (auto simp: slot_def push_item_def Let_def capacity_def)
qed

lemma slot_push_full:
  assumes "ring_wf b" and "rb_count b = capacity b" and "i < rb_count b"
  shows "slot (push_item b x) i = (if Suc i = rb_count b then Some x else slot b (Suc i))"
proof -
  let ?n = "length (rb_buf b)" and ?s = "rb_start b"
  have s: "?s < ?n" and n: "rb_count b = ?n" using assms by (auto simp: ring_wf_iff capacity_def)
  have next1: "((?s + 1) mod ?n + i) mod ?n = (?s + Suc i) mod ?n" by (simp add: mod_add_left_eq)
  have idx: "(?s + rb_count b) mod ?n = ?s" using s n by simp
  have "Suc i < ?n \<Longrightarrow> Suc (?s + i) mod ?n \<noteq> ?s"
    using ring_mod_neq [OF s, of 0 "Suc i"] s by simp
  moreover have "Suc i = ?n \<Longrightarrow> Suc (?s + i) mod ?n = ?s"
    using s by (metis add_Suc_right mod_add_self2 mod_less)
  ultimately show ?thesis
    using s n assms(3) idx unfolding slot_def push_item_def Let_def
    by (auto simp: next1 [simplified])
qed

lemma push_item_refines:
  assumes "ring_wf b"
  shows "toArray (push_item b x) = lastn (capacity b) (toArray b @ [x])"
    and "ring_wf (push_item b x)" and "capacity (push_item b x) = capacity b"
    and "evicted (push_item b x) + length (toArray (push_item b x)) = evicted b + length (toArray b) + 1"
proof -
  have s: "rb_start b < length (rb_buf b)" and c: "rb_count b \<le> capacity b"
    using assms by (auto simp: ring_wf_iff capacity_def)
  show cap: "capacity (push_item b x) = capacity b" by (simp add: push_item_def capacity_def Let_def)
  show "evicted (push_item b x) + length (toArray (push_item b x)) = evicted b + length (toArray b) + 1"
    by (simp add: push_item_def evicted_def Let_def)
  consider (room) "rb_count b < capacity b" | (full) "rb_count b = capacity b" using c by linarith
  then have "toArray (push_item b x) = lastn (capacity b) (toArray b @ [x]) \<and> ring_wf (push_item b x)"
  proof cases
    case room
    then have count: "rb_count (push_item b x) = Suc (rb_count b)"
      and start: "rb_start (push_item b x) = rb_start b"
      by (simp_all add: push_item_def capacity_def Let_def)
    note slots = slot_push_room [OF assms room]
    have "toArray (push_item b x) = toArray b @ [x]"
      unfolding toArray_def count using slots by (auto intro!: map_cong)
    moreover have "ring_wf (push_item b x)"
      using assms room cap s slots unfolding ring_wf_iff count start capacity_def
      by (auto simp: less_Suc_eq_le)
    ultimately show ?thesis using room by (simp add: lastn_short)
  next
    case full
    then have count: "rb_count (push_item b x) = rb_count b"
      by (simp add: push_item_def capacity_def Let_def)
    have pos: "0 < rb_count b" using full s by (metis capacity_def gr_zeroI not_less_zero)
    note slots = slot_push_full [OF assms full]
    have "toArray (push_item b x) = tl (toArray b) @ [x]"
    proof (rule nth_equalityI)
      show "length (toArray (push_item b x)) = length (tl (toArray b) @ [x])" using pos count by simp
    next
      fix i assume "i < length (toArray (push_item b x))"
      then have i: "i < rb_count b" using count by simp
      then show "toArray (push_item b x) ! i = (tl (toArray b) @ [x]) ! i"
        using slots [OF i] by (auto simp: toArray_def count nth_append nth_tl)
    qed
    moreover have "lastn (capacity b) (toArray b @ [x]) = tl (toArray b) @ [x]"
      using full pos length_toArray [of b] by (cases "toArray b") (auto simp: lastn_def)
    moreover have "ring_wf (push_item b x)"
      using assms full cap slots s ring_mod_less [OF s, of 1] unfolding ring_wf_iff count capacity_def
      by (auto simp: push_item_def Let_def)
    ultimately show ?thesis by simp
  qed
  then show "toArray (push_item b x) = lastn (capacity b) (toArray b @ [x])" and "ring_wf (push_item b x)"
    by blast+
qed

lemma push_refines:
  "ring_wf b \<Longrightarrow>
     toArray (push b xs) = lastn (capacity b) (toArray b @ xs) \<and> ring_wf (push b xs) \<and>
     capacity (push b xs) = capacity b \<and>
     evicted (push b xs) + length (toArray (push b xs)) = evicted b + length (toArray b) + length xs"
proof (induction xs arbitrary: b)
  case Nil
  then show ?case using toArray_bound [of b] by (simp add: push_def lastn_short)
next
  case (Cons x xs)
  note step = push_item_refines [OF Cons.prems, of x]
  have "toArray (push (push_item b x) xs) = lastn (capacity b) (lastn (capacity b) (toArray b @ [x]) @ xs)"
    using Cons.IH [OF step(2)] step by simp
  also have "\<dots> = lastn (capacity b) (toArray b @ x # xs)" by (simp add: lastn_append_lastn)
  finally have arr: "toArray (push (push_item b x) xs) = lastn (capacity b) (toArray b @ x # xs)" .
  have unfold: "push b (x # xs) = push (push_item b x) xs" by (simp add: push_def)
  show ?case
    unfolding unfold using Cons.IH [OF step(2)] step(3,4) arr
    by (intro conjI; (elim conjE)?; (simp only:; fail | (simp only: length_Cons; linarith)))
qed

lemma resize_refines:
  assumes "ring_wf b" and "resize b cap = Inr b'"
  shows "ring_wf b' \<and> capacity b' = nat cap \<and> toArray b' = lastn (nat cap) (toArray b)"
proof -
  obtain nxt where n: "new_RingBuffer cap = Inr nxt"
    and b': "b' = push nxt (lastn (nat cap) (toArray b))"
    using assms(2) by (auto simp: resize_def lastn_def Let_def split: sum.splits)
  have w: "ring_wf nxt" "toArray nxt = []" "capacity nxt = nat cap" using new_ring [OF n] by auto
  have "lastn (nat cap) (lastn (nat cap) (toArray b)) = lastn (nat cap) (toArray b)"
    by (rule lastn_short) simp
  then show ?thesis using push_refines [OF w(1)] w b' by simp
qed

section \<open>The contract\<close>

text \<open>A bounded FIFO, as its client sees it: a list of at most the capacity's newest items.\<close>

locale bounded_fifo =
  fixes add :: "'b \<Rightarrow> 'a list \<Rightarrow> 'b"
    and items :: "'b \<Rightarrow> 'a list"
    and reset :: "'b \<Rightarrow> 'b"
    and cap :: "'b \<Rightarrow> nat"
    and ok :: "'b \<Rightarrow> bool"
  assumes add_items: "ok b \<Longrightarrow> items (add b xs) = lastn (cap b) (items b @ xs)"
    and add_ok: "ok b \<Longrightarrow> ok (add b xs)"
    and add_cap: "ok b \<Longrightarrow> cap (add b xs) = cap b"
    and reset_items: "ok b \<Longrightarrow> items (reset b) = []"
    and reset_ok: "ok b \<Longrightarrow> ok (reset b)"
    and reset_cap: "ok b \<Longrightarrow> cap (reset b) = cap b"
    and bounded: "ok b \<Longrightarrow> length (items b) \<le> cap b"
begin

text \<open>Items that waited in a second buffer of the same capacity arrive as if they had been added one
  after the other: what the waiting buffer dropped would have been dropped anyway.\<close>

lemma add_waiting:
  assumes "ok b" and "ok w" and "cap w = cap b"
  shows "items (add b (items (add w xs))) = lastn (cap b) (items b @ items w @ xs)"
proof -
  have "lastn n (ys @ lastn n zs) = lastn n (ys @ zs)" for n and ys zs :: "'a list"
    by (cases "length zs \<le> n") (auto simp: lastn_def)
  then show ?thesis using assms by (simp add: add_items)
qed

end

interpretation ring: bounded_fifo push toArray clear capacity ring_wf
  by unfold_locales (use push_refines ring_clear toArray_bound in \<open>auto simp: \<close>)

section \<open>Properties\<close>

text \<open>C23. The ring buffer is the list of its newest items: starting from any well-formed ring, pushing keeps
  exactly the last \<open>capacity\<close> of the old and new items in order, and every item that is no
  longer there has been counted as evicted.\<close>

theorem ring_push_refines_list:
  assumes "ring_wf b"
  shows "ring_wf (push b xs) \<and> capacity (push b xs) = capacity b \<and>
    toArray (push b xs) = lastn (capacity b) (toArray b @ xs) \<and>
    evicted (push b xs) + length (toArray (push b xs)) = evicted b + length (toArray b) + length xs"
  using push_refines [OF assms] by blast

definition ring3 :: "nat RingBuffer" where
  "ring3 = \<lparr>rb_buf = [Some 4, Some 5, Some 3], rb_start = 2, rb_count = 3, rb_dropped = 2\<rparr>"

lemma ring3_facts:
  "ring_wf ring3" "toArray ring3 = [3, 4, 5]" "capacity ring3 = 3" "evicted ring3 = 2" "size1 ring3 = 3"
  by code_simp+

theorem ring_push_refines_list_witness:
  "toArray (push ring3 [6, 7]) = [5, 6, 7] \<and> evicted (push ring3 [6, 7]) = 4"
  using ring_push_refines_list [OF ring3_facts(1), of "[6, 7]"]
  by (auto simp: ring3_facts lastn_def simp del: length_toArray)

text \<open>Reading by index agrees with the array: inside the bounds it gives the item at that place, outside
  it gives nothing; and resizing keeps the newest items that fit.\<close>

lemma ring_index_resize:
  assumes "ring_wf b"
  shows "at_index b i = (if 0 \<le> i \<and> i < int (size1 b) then Some (toArray b ! nat i) else None) \<and>
    (1 \<le> n \<longrightarrow> (\<exists>b'. resize b n = Inr b' \<and> toArray b' = lastn (nat n) (toArray b) \<and> capacity b' = nat n \<and> ring_wf b'))"
proof -
  have "at_index b i = (if 0 \<le> i \<and> i < int (size1 b) then Some (toArray b ! nat i) else None)"
    using assms by (auto simp: at_index_def size1_def toArray_def ring_wf_iff)
  moreover have "\<exists>b'. resize b n = Inr b'" if "1 \<le> n"
    using that by (simp add: resize_def new_RingBuffer_def Let_def)
  ultimately show ?thesis using resize_refines [OF assms] by blast
qed

lemma ring_index_resize_witness:
  "at_index ring3 1 = Some 4 \<and> (\<exists>b'. resize ring3 2 = Inr b' \<and> toArray b' = [4, 5])"
  using ring_index_resize [OF ring3_facts(1), of 1 2] by (auto simp: ring3_facts lastn_def)

end
