(* ===== verification/Web_Codecs.thy ===== *)
theory Web_Codecs
  imports Prelude
begin

text \<open>
  The web platform's text encodings that the URLs of the interface use: UTF-8, base64 and
  \<open>application/x-www-form-urlencoded\<close> (\<open>URLSearchParams\<close>), and on top of them
  \<open>src/frontend/src/lib/base64url.ts\<close>.

  A byte is a natural number below 256. Decoders produce code points; one outside the alphabet of
  the development's strings reads as \<open>REPLACEMENT\<close>.
\<close>

section \<open>UTF-8\<close>

definition REPLACEMENT :: char where
  "REPLACEMENT = CHR 0x80"

definition utf8_char :: "char \<Rightarrow> nat list" where
  "utf8_char c = (let n = of_char c in if n < 128 then [n] else [192 + n div 64, 128 + n mod 64])"

definition utf8_encode :: "string \<Rightarrow> nat list" where
  "utf8_encode s = concat (map utf8_char s)"

definition cont_byte :: "nat \<Rightarrow> bool" where
  "cont_byte b \<longleftrightarrow> 128 \<le> b \<and> b \<le> 191"

text \<open>The decoder of the Encoding Standard: a byte that cannot continue a sequence ends it with one
  U+FFFD and is read again.\<close>

fun utf8_decode :: "nat list \<Rightarrow> nat list" where
  "utf8_decode [] = []"
| "utf8_decode (b # bs) =
     (if b < 128 then b # utf8_decode bs
      else if 194 \<le> b \<and> b \<le> 223 then
        (case bs of
           c # cs \<Rightarrow> if cont_byte c then ((b - 192) * 64 + (c - 128)) # utf8_decode cs
                     else 65533 # utf8_decode bs
         | [] \<Rightarrow> [65533])
      else if 224 \<le> b \<and> b \<le> 239 then
        (case bs of
           c # cs \<Rightarrow>
             if (if b = 224 then 160 else 128) \<le> c \<and> c \<le> (if b = 237 then 159 else 191) then
               (case cs of
                  d # ds \<Rightarrow> if cont_byte d then ((b - 224) * 4096 + (c - 128) * 64 + (d - 128)) # utf8_decode ds
                            else 65533 # utf8_decode cs
                | [] \<Rightarrow> [65533])
             else 65533 # utf8_decode bs
         | [] \<Rightarrow> [65533])
      else if 240 \<le> b \<and> b \<le> 244 then
        (case bs of
           c # cs \<Rightarrow>
             if (if b = 240 then 144 else 128) \<le> c \<and> c \<le> (if b = 244 then 143 else 191) then
               (case cs of
                  d # ds \<Rightarrow>
                    if cont_byte d then
                      (case ds of
                         e # es \<Rightarrow> if cont_byte e then
                             ((b - 240) * 262144 + (c - 128) * 4096 + (d - 128) * 64 + (e - 128)) # utf8_decode es
                           else 65533 # utf8_decode ds
                       | [] \<Rightarrow> [65533])
                    else 65533 # utf8_decode cs
                | [] \<Rightarrow> [65533])
             else 65533 # utf8_decode bs
         | [] \<Rightarrow> [65533])
      else 65533 # utf8_decode bs)"

definition of_code :: "nat \<Rightarrow> char" where
  "of_code n = (if n < 256 then char_of n else REPLACEMENT)"

definition utf8_text :: "nat list \<Rightarrow> string" where
  "utf8_text bs = map of_code (utf8_decode bs)"

text \<open>\<open>new TextDecoder().decode\<close> also drops a leading byte order mark.\<close>

definition TextDecoder_decode :: "nat list \<Rightarrow> string" where
  "TextDecoder_decode bs = utf8_text (if take 3 bs = [239, 187, 191] then drop 3 bs else bs)"

lemma of_char_less [simp]: "(of_char c :: nat) < 256"
  by (rule nat_of_char_less_256)

lemma of_code_of_char [simp]: "of_code (of_char c) = c"
  by (simp add: of_code_def)

lemma utf8_decode_two:
  assumes "194 \<le> b" and "b \<le> 223" and "cont_byte c"
  shows "utf8_decode (b # c # cs) = ((b - 192) * 64 + (c - 128)) # utf8_decode cs"
  using assms by (subst utf8_decode.simps) simp

lemma utf8_decode_char: "utf8_decode (utf8_char c @ bs) = of_char c # utf8_decode bs"
proof -
  define n :: nat where "n = of_char c"
  have n: "n < 256" by (simp add: n_def)
  show ?thesis
  proof (cases "n < 128")
    case True
    then show ?thesis by (simp add: utf8_char_def n_def)
  next
    case False
    define q r where "q = n div 64" and "r = n mod 64"
    have split: "n = q * 64 + r" "r < 64" by (simp_all add: q_def r_def)
    with n False have q: "2 \<le> q" "q < 4" by linarith+
    have "utf8_decode ((192 + q) # (128 + r) # bs) = ((192 + q - 192) * 64 + (128 + r - 128)) # utf8_decode bs"
      by (rule utf8_decode_two) (use q split in \<open>simp_all add: cont_byte_def\<close>)
    then have "utf8_decode ((192 + q) # (128 + r) # bs) = n # utf8_decode bs"
      using split(1) by simp
    then show ?thesis using False
      by (simp add: utf8_char_def n_def [symmetric] q_def r_def Let_def del: utf8_decode.simps)
  qed
qed

lemma utf8_decode_encode: "utf8_decode (utf8_encode s) = map of_char s"
  by (induction s) (simp_all add: utf8_encode_def utf8_decode_char)

lemma utf8_text_encode [simp]: "utf8_text (utf8_encode s) = s"
  by (simp add: utf8_text_def utf8_decode_encode map_idI)

lemma utf8_bytes: "b \<in> set (utf8_encode s) \<Longrightarrow> b < 224"
proof -
  have "b < 224" if "b \<in> set (utf8_char c)" for c
    using that div_le_mono [of "of_char c" 255 64] nat_of_char_less_256 [of c]
    by (auto simp: utf8_char_def Let_def split: if_splits)
  then show "b \<in> set (utf8_encode s) \<Longrightarrow> b < 224" by (auto simp: utf8_encode_def)
qed

lemma TextDecoder_encode [simp]: "TextDecoder_decode (utf8_encode s) = s"
proof -
  have "take 3 (utf8_encode s) \<noteq> [239, 187, 191]"
  proof
    assume "take 3 (utf8_encode s) = [239, 187, 191]"
    then have "239 \<in> set (take 3 (utf8_encode s))" by simp
    then have "239 \<in> set (utf8_encode s)" by (rule in_set_takeD)
    then show False using utf8_bytes by fastforce
  qed
  then show ?thesis by (simp add: TextDecoder_decode_def)
qed

section \<open>Base64\<close>

definition B64 :: string where
  "B64 = ''ABCDEFGHIJKLMNOPQRSTUVWXYZabcdefghijklmnopqrstuvwxyz0123456789+/''"

definition b64_val :: "char \<Rightarrow> nat option" where
  "b64_val c = find_index (\<lambda>d. d = c) B64"

definition b64_char :: "nat \<Rightarrow> char" where
  "b64_char n = B64 ! n"

fun sextets :: "nat list \<Rightarrow> nat list" where
  "sextets [] = []"
| "sextets [a] = [a div 4, (a mod 4) * 16]"
| "sextets [a, b] = [a div 4, (a mod 4) * 16 + b div 16, (b mod 16) * 4]"
| "sextets (a # b # c # r) =
     [a div 4, (a mod 4) * 16 + b div 16, (b mod 16) * 4 + c div 64, c mod 64] @ sextets r"

definition btoa :: "nat list \<Rightarrow> string" where
  "btoa bytes = map b64_char (sextets bytes) @ replicate ((3 - length bytes mod 3) mod 3) (CHR ''='')"

text \<open>The forgiving decoder: blanks are dropped, then up to two padding signs of a whole group; left-over
  bits are discarded.\<close>

fun octets :: "nat list \<Rightarrow> nat list" where
  "octets (p # q # r # s # t) = [p * 4 + q div 16, (q mod 16) * 16 + r div 4, (r mod 4) * 64 + s] @ octets t"
| "octets [p, q, r] = [p * 4 + q div 16, (q mod 16) * 16 + r div 4]"
| "octets [p, q] = [p * 4 + q div 16]"
| "octets _ = []"

definition ascii_blank :: "char \<Rightarrow> bool" where
  "ascii_blank c \<longleftrightarrow> c \<in> set [CHR 0x09, CHR 0x0A, CHR 0x0C, CHR 0x0D, CHR 0x20]"

definition drop_padding :: "string \<Rightarrow> string" where
  "drop_padding s =
     (if length s mod 4 \<noteq> 0 then s
      else if drop (length s - 2) s = ''=='' then take (length s - 2) s
      else if drop (length s - 1) s = ''='' then take (length s - 1) s
      else s)"

definition atob :: "string \<Rightarrow> string + nat list" where
  "atob s =
     (let t = drop_padding (filter (\<lambda>c. \<not> ascii_blank c) s) in
      if length t mod 4 = 1 \<or> list_ex (\<lambda>c. b64_val c = None) t then Inl ''InvalidCharacterError''
      else Inr (octets (map (\<lambda>c. case b64_val c of Some v \<Rightarrow> v | None \<Rightarrow> 0) t)))"

section \<open>The base64url alphabet\<close>

definition subst_char :: "char \<Rightarrow> char \<Rightarrow> string \<Rightarrow> string" where
  "subst_char a b s = map (\<lambda>c. if c = a then b else c) s"

definition encodeBase64Url :: "string \<Rightarrow> string" where
  "encodeBase64Url t =
     rev (dropWhile (\<lambda>c. c = CHR ''='')
       (rev (subst_char (CHR ''/'') (CHR ''_'') (subst_char (CHR ''+'') (CHR ''-'') (btoa (utf8_encode t))))))"

definition decodeBase64Url :: "string \<Rightarrow> string + string" where
  "decodeBase64Url s =
     (let b64 = subst_char (CHR ''_'') (CHR ''/'') (subst_char (CHR ''-'') (CHR ''+'') s) @
                drop ((length s + 3) mod 4) ''===''
      in case atob b64 of Inl e \<Rightarrow> Inl e | Inr bytes \<Rightarrow> Inr (TextDecoder_decode bytes))"

section \<open>Round trips\<close>

lemma length_B64 [simp]: "length B64 = 64"
  by (simp add: B64_def)

lemma b64_val_char: "list_all (\<lambda>n. b64_val (b64_char n) = Some n) [0..<64]"
  by code_simp

lemma b64_val_b64_char [simp]: "n < 64 \<Longrightarrow> b64_val (b64_char n) = Some n"
  using b64_val_char by (simp add: list_all_iff)

lemma b64_plain: "list_all (\<lambda>n. b64_char n \<noteq> CHR ''='' \<and> b64_char n \<noteq> CHR ''-'' \<and> b64_char n \<noteq> CHR ''_'' \<and>
    \<not> ascii_blank (b64_char n)) [0..<64]"
  by code_simp

lemma b64_char_plain [simp]:
  assumes "n < 64"
  shows "b64_char n \<noteq> CHR ''=''" "b64_char n \<noteq> CHR ''-''" "b64_char n \<noteq> CHR ''_''" "\<not> ascii_blank (b64_char n)"
  using b64_plain assms by (simp_all add: list_all_iff)

lemma sextets_small: "list_all (\<lambda>b. b < 256) bs \<Longrightarrow> list_all (\<lambda>n. n < 64) (sextets bs)"
  by (induction bs rule: sextets.induct) (auto simp: less_mult_imp_div_less, (presburger+)?)

lemma byte_quotients [simp]:
  fixes b :: nat
  assumes "b < 256"
  shows "b div 16 < 16" "b div 64 < 4"
  using assms by (simp_all add: less_mult_imp_div_less)

lemma octets_sextets: "list_all (\<lambda>b. b < 256) bs \<Longrightarrow> octets (sextets bs) = bs"
  by (induction bs rule: sextets.induct) simp_all

lemma length_sextets: "length (sextets bs) = (length bs * 4 + 2) div 3"
  by (induction bs rule: sextets.induct) auto

lemma strip_padding:
  assumes "list_all (\<lambda>c. c \<noteq> CHR ''='') s"
  shows "rev (dropWhile (\<lambda>c. c = CHR ''='') (rev (s @ replicate k (CHR ''='')))) = s"
proof -
  have "dropWhile (\<lambda>c. c = CHR ''='') (replicate k (CHR ''='') @ rev s) = rev s"
    using assms by (cases s rule: rev_cases) (simp_all add: dropWhile_append)
  then show ?thesis by (simp add: replicate_append_same)
qed

text \<open>The signs of the encoded text: letters, digits, minus and underscore.\<close>

definition url_safe :: "char \<Rightarrow> bool" where
  "url_safe c \<longleftrightarrow> List.member (''ABCDEFGHIJKLMNOPQRSTUVWXYZabcdefghijklmnopqrstuvwxyz0123456789-_'') c"

definition url_char :: "nat \<Rightarrow> char" where
  "url_char n = (if b64_char n = CHR ''+'' then CHR ''-'' else if b64_char n = CHR ''/'' then CHR ''_'' else b64_char n)"

lemma url_char_table:
  "list_all (\<lambda>n. url_safe (url_char n) \<and> url_char n \<noteq> CHR ''='' \<and>
     (if url_char n = CHR ''-'' then CHR ''+'' else if url_char n = CHR ''_'' then CHR ''/'' else url_char n) = b64_char n)
   [0..<64]"
  by code_simp

lemma url_char_facts:
  assumes "n < 64"
  shows "url_safe (url_char n)" "url_char n \<noteq> CHR ''=''"
    "(if url_char n = CHR ''-'' then CHR ''+'' else if url_char n = CHR ''_'' then CHR ''/'' else url_char n) = b64_char n"
  using url_char_table assms by (simp_all only: list_all_iff set_upt atLeastLessThan_iff Ball_def)
    (metis le0)+

lemma bytes_list: "list_all (\<lambda>b. b < 256) (utf8_encode s)"
  using utf8_bytes by (fastforce simp: list_all_iff)

lemma encode_sextets: "encodeBase64Url s = map url_char (sextets (utf8_encode s))"
proof -
  let ?x = "sextets (utf8_encode s)"
  let ?k = "(3 - length (utf8_encode s) mod 3) mod 3"
  have small: "\<forall>n \<in> set ?x. n < 64" using sextets_small [OF bytes_list [of s]] by (simp add: list_all_iff)
  have "subst_char (CHR ''/'') (CHR ''_'') (subst_char (CHR ''+'') (CHR ''-'') (btoa (utf8_encode s))) =
      map url_char ?x @ replicate ?k (CHR ''='')"
    by (auto simp: btoa_def subst_char_def url_char_def map_replicate)
  moreover have "list_all (\<lambda>c. c \<noteq> CHR ''='') (map url_char ?x)"
    using small url_char_facts(2) by (simp add: list_all_iff)
  ultimately show ?thesis unfolding encodeBase64Url_def by (simp only: strip_padding)
qed

lemma back_to_b64:
  assumes "\<forall>n \<in> set x. n < 64"
  shows "subst_char (CHR ''_'') (CHR ''/'') (subst_char (CHR ''-'') (CHR ''+'') (map url_char x)) = map b64_char x"
  unfolding subst_char_def map_map
proof (rule map_cong [OF refl])
  fix n
  assume "n \<in> set x"
  with assms url_char_facts(3) [of n] show "((\<lambda>c. if c = CHR ''_'' then CHR ''/'' else c) \<circ>
      ((\<lambda>c. if c = CHR ''-'' then CHR ''+'' else c) \<circ> url_char)) n = b64_char n"
    by (auto split: if_splits)
qed

lemma drop_padding_pad:
  assumes "list_all (\<lambda>c. c \<noteq> CHR ''='') t" and "length t mod 4 \<noteq> 1"
  shows "drop_padding (t @ drop ((length t + 3) mod 4) ''==='') = t"
proof -
  have last: "drop (length t - k) t \<noteq> CHR ''='' # r" for k r
  proof
    assume "drop (length t - k) t = CHR ''='' # r"
    then have "CHR ''='' \<in> set (drop (length t - k) t)" by simp
    then have "CHR ''='' \<in> set t" by (rule in_set_dropD)
    then show False using assms(1) by (auto simp: list_all_iff)
  qed
  consider "length t mod 4 = 0" | "length t mod 4 = 2" | "length t mod 4 = 3"
    using assms(2) mod_less_divisor [of 4 "length t"] by linarith
  then show ?thesis
  proof cases
    case 1
    then have "(length t + 3) mod 4 = 3" by presburger
    with 1 last [of 1 "[]"] last [of 2 "''=''"] show ?thesis by (simp add: drop_padding_def)
  next
    case 2
    then have "(length t + 3) mod 4 = 1" "(length t + 2) mod 4 = 0" by presburger+
    with 2 show ?thesis by (simp add: drop_padding_def)
  next
    case 3
    then have "(length t + 3) mod 4 = 2" "(length t + 1) mod 4 = 0" by presburger+
    moreover have "drop (length t - 1) t \<noteq> [CHR ''='']" using last [of 1 "[]"] .
    ultimately show ?thesis using 3 by (cases t rule: rev_cases) (simp_all add: drop_padding_def)
  qed
qed

lemma eq_not_blank: "\<not> ascii_blank (CHR ''='')"
  by (simp add: ascii_blank_def)

lemma atob_b64:
  assumes "\<forall>n \<in> set x. n < 64" and "length x mod 4 \<noteq> 1"
  shows "atob (map b64_char x @ drop ((length x + 3) mod 4) ''==='') = Inr (octets x)"
proof -
  let ?t = "map b64_char x"
  have "filter (\<lambda>c. \<not> ascii_blank c) (?t @ drop ((length x + 3) mod 4) ''==='') = ?t @ drop ((length x + 3) mod 4) ''===''"
    unfolding filter_id_conv using assms(1) eq_not_blank by (auto dest!: in_set_dropD)
  moreover have "drop_padding (?t @ drop ((length x + 3) mod 4) ''==='') = ?t"
    using drop_padding_pad [of ?t] assms by (simp add: list_all_iff)
  moreover have "map (\<lambda>c. case b64_val c of Some v \<Rightarrow> v | None \<Rightarrow> 0) ?t = x"
    using assms(1) by (simp add: map_idI)
  ultimately show ?thesis using assms by (auto simp: atob_def Let_def list_ex_iff)
qed

lemma length_sextets_mod: "length (sextets bs) mod 4 \<noteq> 1"
  by (induction bs rule: sextets.induct) simp_all

section \<open>Form encoding\<close>

text \<open>\<open>URLSearchParams\<close>: pairs of strings, written and read as
  \<open>application/x-www-form-urlencoded\<close>.\<close>

definition form_plain :: "nat \<Rightarrow> bool" where
  "form_plain b \<longleftrightarrow> 48 \<le> b \<and> b \<le> 57 \<or> 65 \<le> b \<and> b \<le> 90 \<or> 97 \<le> b \<and> b \<le> 122 \<or> b = 42 \<or> b = 45 \<or> b = 46 \<or> b = 95"

definition HEX :: string where
  "HEX = ''0123456789ABCDEF''"

definition form_byte :: "nat \<Rightarrow> string" where
  "form_byte b =
     (if b = 32 then ''+'' else if form_plain b then [char_of b]
      else [CHR ''%'', HEX ! (b div 16), HEX ! (b mod 16)])"

definition form_encode :: "string \<Rightarrow> string" where
  "form_encode s = concat (map form_byte (utf8_encode s))"

definition params_toString :: "(string \<times> string) list \<Rightarrow> string" where
  "params_toString ps = join ''&'' (map (\<lambda>(k, v). form_encode k @ ''='' @ form_encode v) ps)"

definition hex_val :: "char \<Rightarrow> nat option" where
  "hex_val c = find_index (\<lambda>d. d = c) HEX"

definition hex_val_any :: "char \<Rightarrow> nat option" where
  "hex_val_any c = (case hex_val c of Some v \<Rightarrow> Some v | None \<Rightarrow> map_option ((+) 10) (find_index (\<lambda>d. d = c) ''abcdef''))"

text \<open>Plus signs are blanks, a percent sign with two hexadecimal digits is a byte, anything else is
  its UTF-8 bytes.\<close>

fun form_bytes :: "string \<Rightarrow> nat list" where
  "form_bytes [] = []"
| "form_bytes (c # s) =
     (if c = CHR ''+'' then 32 # form_bytes s
      else if c = CHR ''%'' then
        (case s of
           h # l # r \<Rightarrow>
             (case (hex_val_any h, hex_val_any l) of
                (Some a, Some b) \<Rightarrow> (16 * a + b) # form_bytes r
              | _ \<Rightarrow> 37 # form_bytes s)
         | _ \<Rightarrow> 37 # form_bytes s)
      else utf8_char c @ form_bytes s)"

definition form_decode :: "string \<Rightarrow> string" where
  "form_decode s = utf8_text (form_bytes s)"

definition parse_pair :: "string \<Rightarrow> string \<times> string" where
  "parse_pair p =
     (form_decode (takeWhile (\<lambda>c. c \<noteq> CHR ''='') p), form_decode (drop 1 (dropWhile (\<lambda>c. c \<noteq> CHR ''='') p)))"

definition parse_params :: "string \<Rightarrow> (string \<times> string) list" where
  "parse_params s =
     map parse_pair (filter (\<lambda>p. p \<noteq> [])
       (split_on (\<lambda>c. c = CHR ''&'') (if startsWith s ''?'' then drop 1 s else s)))"

text \<open>No byte is written with a sign that separates pairs, names and values.\<close>

definition form_sign :: "char \<Rightarrow> bool" where
  "form_sign c \<longleftrightarrow> c \<noteq> CHR ''='' \<and> c \<noteq> CHR ''&'' \<and> c \<noteq> CHR ''?''"

lemma hex_any_table: "list_all (\<lambda>n. hex_val_any (HEX ! n) = Some n \<and> form_sign (HEX ! n)) [0..<16]"
  by code_simp

lemma hex_any [simp]:
  assumes "n < 16"
  shows "hex_val_any (HEX ! n) = Some n" "form_sign (HEX ! n)"
  using hex_any_table assms by (simp_all add: list_all_iff)

lemma of_char_plain: "form_plain b \<Longrightarrow> (of_char (char_of b :: char) :: nat) = b"
  by (auto simp: form_plain_def)

lemma form_plain_char:
  assumes "form_plain b"
  shows "char_of b \<noteq> CHR ''+''" "char_of b \<noteq> CHR ''%''" "form_sign (char_of b)" "utf8_char (char_of b) = [b]"
proof -
  have eq: "(of_char (char_of b :: char) :: nat) = b" using assms by (rule of_char_plain)
  have neq: "char_of b \<noteq> c" if "b \<noteq> of_char c" for c
    using that eq by metis
  show "char_of b \<noteq> CHR ''+''" "char_of b \<noteq> CHR ''%''" using assms by (intro neq; auto simp: form_plain_def)+
  have "char_of b \<noteq> CHR ''=''" "char_of b \<noteq> CHR ''&''" "char_of b \<noteq> CHR ''?''"
    using assms by (intro neq; auto simp: form_plain_def)+
  then show "form_sign (char_of b)" by (simp add: form_sign_def)
  show "utf8_char (char_of b) = [b]" using assms unfolding utf8_char_def eq by (auto simp: form_plain_def)
qed

lemma form_bytes_byte:
  assumes "b < 256"
  shows "form_bytes (form_byte b @ s) = b # form_bytes s"
proof -
  have "b div 16 < 16" "16 * (b div 16) + b mod 16 = b" using assms by simp_all
  then show ?thesis using form_plain_char [of b] by (simp add: form_byte_def)
qed

lemma form_byte_signs:
  assumes "b < 256" and "c \<in> set (form_byte b)"
  shows "form_sign c"
  using assms form_plain_char(3) [of b] hex_any(2) [of "b div 16"] hex_any(2) [of "b mod 16"]
  by (auto simp: form_byte_def form_sign_def split: if_splits)

lemma form_bytes_encode: "list_all (\<lambda>b. b < 256) bs \<Longrightarrow> form_bytes (concat (map form_byte bs)) = bs"
  by (induction bs) (simp_all add: form_bytes_byte)

lemma form_decode_encode [simp]: "form_decode (form_encode s) = s"
  by (simp add: form_decode_def form_encode_def form_bytes_encode [OF bytes_list])

lemma form_encode_signs: "c \<in> set (form_encode s) \<Longrightarrow> form_sign c"
  using bytes_list [of s] form_byte_signs by (auto simp: form_encode_def list_all_iff)

lemma parse_pair_encode: "parse_pair (form_encode k @ ''='' @ form_encode v) = (k, v)"
proof -
  have k: "\<forall>c \<in> set (form_encode k). c \<noteq> CHR ''=''" using form_encode_signs by (auto simp: form_sign_def)
  then show ?thesis by (simp add: parse_pair_def)
qed

lemma set_join: "set (join sep ws) \<subseteq> set sep \<union> \<Union> (set ` set ws)"
  by (induction sep ws rule: join.induct) auto

lemma parse_params_toString: "parse_params (params_toString ps) = ps"
proof -
  let ?w = "\<lambda>(k, v). form_encode k @ ''='' @ form_encode v"
  have signs: "\<forall>w \<in> set (map ?w ps). w \<noteq> [] \<and> (\<forall>c \<in> set w. c \<noteq> CHR ''&'' \<and> c \<noteq> CHR ''?'')"
    using form_encode_signs by (auto simp: form_sign_def)
  show ?thesis
  proof (cases ps)
    case Nil
    then show ?thesis by (simp add: parse_params_def params_toString_def)
  next
    case (Cons p rest)
    then have split: "split_on (\<lambda>c. c = CHR ''&'') (params_toString ps) = map ?w ps"
      unfolding params_toString_def using signs by (intro split_on_join) auto
    have "CHR ''?'' \<notin> set (params_toString ps)"
      using signs set_join [of "''&''" "map ?w ps"] unfolding params_toString_def by fastforce
    then have "\<not> startsWith (params_toString ps) ''?''" by (auto simp: startsWith_iff)
    then have "parse_params (params_toString ps) = map parse_pair (map ?w ps)"
      using signs split by (simp add: parse_params_def filter_id_conv)
    moreover have "parse_pair (?w p) = p" for p using parse_pair_encode by (cases p) simp
    ultimately show ?thesis by (simp add: map_idI)
  qed
qed

section \<open>Properties\<close>


end
