(* ===== verification/Live_Tail.thy ===== *)
theory Live_Tail
  imports Ring_Buffer Web_Codecs Complex_Main
begin

text \<open>
  The live tail: the store of \<open>src/frontend/src/features/live-tail/tailStore.ts\<close>, which buffers rows
  outside React and wakes its subscribers once per frame, and the connection of
  \<open>src/frontend/src/features/live-tail/tailSource.ts\<close>, which reopens the event stream with backoff.

  Both are state machines. The animation frame, the stream's events and the timer are events of
  the environment; a frame that has been asked for is counted in the state.
\<close>

section \<open>The store\<close>

record 'a TailStore =
  tl_rows :: "'a RingBuffer"
  tl_pending :: "'a RingBuffer"
  tl_paused :: bool
  tl_version :: nat
  tl_scheduled :: bool
  tl_listeners :: "nat list"
  tl_received :: nat
  tl_frames :: nat

definition MAX_ROW_OPTIONS :: "int list" where
  "MAX_ROW_OPTIONS = [500, 1000, 2000, 5000, 10000, 20000]"

definition new_TailStore :: "int \<Rightarrow> string + 'a TailStore" where
  "new_TailStore cap =
     (case new_RingBuffer cap of
        Inl e \<Rightarrow> Inl e
      | Inr b \<Rightarrow> Inr \<lparr>tl_rows = b, tl_pending = b, tl_paused = False, tl_version = 0, tl_scheduled = False,
                     tl_listeners = [], tl_received = 0, tl_frames = 0\<rparr>)"

definition notify :: "'a TailStore \<Rightarrow> 'a TailStore" where
  "notify s = (if tl_scheduled s then s else s\<lparr>tl_scheduled := True, tl_frames := tl_frames s + 1\<rparr>)"

text \<open>The scheduled callback; the second component is the listeners it calls, in order.\<close>

definition run_frame :: "'a TailStore \<Rightarrow> 'a TailStore \<times> nat list" where
  "run_frame s =
     (s\<lparr>tl_scheduled := False, tl_version := tl_version s + 1, tl_frames := tl_frames s - 1\<rparr>, tl_listeners s)"

definition subscribe :: "nat \<Rightarrow> 'a TailStore \<Rightarrow> 'a TailStore" where
  "subscribe l s = s\<lparr>tl_listeners := (if l \<in> set (tl_listeners s) then tl_listeners s else tl_listeners s @ [l])\<rparr>"

definition unsubscribe :: "nat \<Rightarrow> 'a TailStore \<Rightarrow> 'a TailStore" where
  "unsubscribe l s = s\<lparr>tl_listeners := filter (\<lambda>x. x \<noteq> l) (tl_listeners s)\<rparr>"

definition store_push :: "'a list \<Rightarrow> 'a TailStore \<Rightarrow> 'a TailStore" where
  "store_push rows s =
     notify ((if tl_paused s then s\<lparr>tl_pending := push (tl_pending s) rows\<rparr>
              else s\<lparr>tl_rows := push (tl_rows s) rows\<rparr>)\<lparr>tl_received := tl_received s + length rows\<rparr>)"

definition setPaused :: "bool \<Rightarrow> 'a TailStore \<Rightarrow> 'a TailStore" where
  "setPaused p s =
     notify (if p then s\<lparr>tl_paused := True\<rparr>
             else s\<lparr>tl_paused := False, tl_rows := push (tl_rows s) (toArray (tl_pending s)),
                    tl_pending := clear (tl_pending s)\<rparr>)"

definition store_clear :: "'a TailStore \<Rightarrow> 'a TailStore" where
  "store_clear s = notify (s\<lparr>tl_rows := clear (tl_rows s), tl_pending := clear (tl_pending s)\<rparr>)"

definition store_resize :: "int \<Rightarrow> 'a TailStore \<Rightarrow> string + 'a TailStore" where
  "store_resize cap s =
     (case resize (tl_rows s) cap of
        Inl e \<Rightarrow> Inl e
      | Inr r \<Rightarrow>
          (case resize (tl_pending s) cap of
             Inl e \<Rightarrow> Inl e
           | Inr p \<Rightarrow> Inr (notify (s\<lparr>tl_rows := r, tl_pending := p\<rparr>))))"

definition snapshot :: "'a TailStore \<Rightarrow> 'a list" where
  "snapshot s = toArray (tl_rows s)"

definition pendingCount :: "'a TailStore \<Rightarrow> nat" where
  "pendingCount s = size1 (tl_pending s)"

definition store_capacity :: "'a TailStore \<Rightarrow> nat" where
  "store_capacity s = capacity (tl_rows s)"

section \<open>The store as a transition system\<close>

datatype 'a tail_event =
  Push "'a list" | Pause bool | Clear | Resize int | Subscribe nat | Unsubscribe nat | Frame

inductive tail_step :: "'a TailStore \<Rightarrow> 'a tail_event \<Rightarrow> 'a TailStore \<Rightarrow> bool" where
  push: "tail_step s (Push rows) (store_push rows s)"
| pause: "tail_step s (Pause p) (setPaused p s)"
| clear: "tail_step s Clear (store_clear s)"
| resize: "store_resize cap s = Inr s' \<Longrightarrow> tail_step s (Resize cap) s'"
| subscribe: "tail_step s (Subscribe l) (subscribe l s)"
| unsubscribe: "tail_step s (Unsubscribe l) (unsubscribe l s)"
| frame: "0 < tl_frames s \<Longrightarrow> tail_step s Frame (fst (run_frame s))"

inductive_cases tail_stepE: "tail_step s e s'"

inductive tail_reach :: "'a TailStore \<Rightarrow> bool" where
  init: "new_TailStore cap = Inr s \<Longrightarrow> tail_reach s"
| step: "tail_reach s \<Longrightarrow> tail_step s e s' \<Longrightarrow> tail_reach s'"

definition tail_inv :: "'a TailStore \<Rightarrow> bool" where
  "tail_inv s \<longleftrightarrow>
     ring_wf (tl_rows s) \<and> ring_wf (tl_pending s) \<and> capacity (tl_pending s) = capacity (tl_rows s) \<and>
     (\<not> tl_paused s \<longrightarrow> toArray (tl_pending s) = []) \<and>
     tl_frames s = (if tl_scheduled s then 1 else 0) \<and> distinct (tl_listeners s)"

lemma notify_fields [simp]:
  "tl_rows (notify s) = tl_rows s" "tl_pending (notify s) = tl_pending s" "tl_paused (notify s) = tl_paused s"
  "tl_version (notify s) = tl_version s" "tl_received (notify s) = tl_received s"
  "tl_listeners (notify s) = tl_listeners s" "tl_scheduled (notify s)"
  by (simp_all add: notify_def)

lemma notify_frames: "tl_frames s = (if tl_scheduled s then 1 else 0) \<Longrightarrow> tl_frames (notify s) = 1"
  by (simp add: notify_def)

lemma tail_inv_notify:
  "tail_inv (notify s) \<longleftrightarrow>
     ring_wf (tl_rows s) \<and> ring_wf (tl_pending s) \<and> capacity (tl_pending s) = capacity (tl_rows s) \<and>
     (\<not> tl_paused s \<longrightarrow> toArray (tl_pending s) = []) \<and> tl_frames (notify s) = 1 \<and> distinct (tl_listeners s)"
  by (simp add: tail_inv_def)

lemmas ring_facts = push_refines ring_clear resize_refines

lemma tail_inv_init: "new_TailStore cap = Inr s \<Longrightarrow> tail_inv s"
  using new_ring by (fastforce simp: new_TailStore_def tail_inv_def split: sum.splits)

lemma lastn_Nil [simp]: "lastn n [] = []"
  by (simp add: lastn_def)

lemma tail_inv_step:
  assumes "tail_inv s" and "tail_step s e s'"
  shows "tail_inv s'"
  using assms(2)
proof cases
  case (push rows)
  with assms(1) show ?thesis
    unfolding store_push_def tail_inv_notify by (auto simp: tail_inv_def push_refines notify_frames)
next
  case (pause p)
  with assms(1) show ?thesis
    unfolding setPaused_def tail_inv_notify by (auto simp: tail_inv_def push_refines ring_clear notify_frames)
next
  case clear
  with assms(1) show ?thesis
    unfolding store_clear_def tail_inv_notify by (auto simp: tail_inv_def ring_clear notify_frames)
next
  case (resize cap)
  then obtain r p where r: "Ring_Buffer.resize (tl_rows s) cap = Inr r" "Ring_Buffer.resize (tl_pending s) cap = Inr p"
    and s': "s' = notify (s\<lparr>tl_rows := r, tl_pending := p\<rparr>)"
    by (auto simp: store_resize_def split: sum.splits)
  with assms(1) resize_refines [OF _ r(1)] resize_refines [OF _ r(2)] show ?thesis
    unfolding s' tail_inv_notify by (auto simp: tail_inv_def notify_frames)
next
  case frame
  with assms(1) show ?thesis by (auto simp: tail_inv_def run_frame_def split: if_splits)
qed (use assms(1) in \<open>auto simp: tail_inv_def subscribe_def unsubscribe_def\<close>)

lemma tail_reach_inv: "tail_reach s \<Longrightarrow> tail_inv s"
  by (induction rule: tail_reach.induct) (auto intro: tail_inv_init tail_inv_step)

section \<open>The store's specification\<close>

text \<open>What the page may assume: a capacity, the rows shown, the rows held back and whether it is paused.\<close>

record 'a TailSpec =
  sp_cap :: nat
  sp_shown :: "'a list"
  sp_held :: "'a list"
  sp_paused :: bool

definition tail_abs :: "'a TailStore \<Rightarrow> 'a TailSpec" where
  "tail_abs s =
     \<lparr>sp_cap = capacity (tl_rows s), sp_shown = toArray (tl_rows s), sp_held = toArray (tl_pending s),
      sp_paused = tl_paused s\<rparr>"

fun tail_spec :: "'a tail_event \<Rightarrow> 'a TailSpec \<Rightarrow> 'a TailSpec" where
  "tail_spec (Push rows) a =
     (if sp_paused a then a\<lparr>sp_held := lastn (sp_cap a) (sp_held a @ rows)\<rparr>
      else a\<lparr>sp_shown := lastn (sp_cap a) (sp_shown a @ rows)\<rparr>)"
| "tail_spec (Pause p) a =
     (if p then a\<lparr>sp_paused := True\<rparr>
      else a\<lparr>sp_paused := False, sp_shown := lastn (sp_cap a) (sp_shown a @ sp_held a), sp_held := []\<rparr>)"
| "tail_spec Clear a = a\<lparr>sp_shown := [], sp_held := []\<rparr>"
| "tail_spec (Resize c) a =
     a\<lparr>sp_cap := nat c, sp_shown := lastn (nat c) (sp_shown a), sp_held := lastn (nat c) (sp_held a)\<rparr>"
| "tail_spec _ a = a"

lemma tail_refines:
  assumes "tail_inv s" and "tail_step s e s'"
  shows "tail_abs s' = tail_spec e (tail_abs s)"
  using assms(2)
proof cases
  case (resize cap)
  then obtain r p where r: "Ring_Buffer.resize (tl_rows s) cap = Inr r" "Ring_Buffer.resize (tl_pending s) cap = Inr p"
    and s': "s' = notify (s\<lparr>tl_rows := r, tl_pending := p\<rparr>)"
    by (auto simp: store_resize_def split: sum.splits)
  with assms(1) resize_refines [OF _ r(1)] resize_refines [OF _ r(2)] resize(1) show ?thesis
    by (simp add: tail_abs_def tail_inv_def)
qed (use assms(1) in \<open>auto simp: tail_abs_def tail_inv_def store_push_def setPaused_def store_clear_def
      subscribe_def unsubscribe_def run_frame_def push_refines ring_clear\<close>)

lemma tail_spec_shown_bound: "tail_reach s \<Longrightarrow> length (sp_shown (tail_abs s)) \<le> sp_cap (tail_abs s)"
  using tail_reach_inv [of s] toArray_bound by (auto simp: tail_abs_def tail_inv_def simp del: length_toArray)

text \<open>A burst of batches.\<close>

definition push_all :: "'a list list \<Rightarrow> 'a TailStore \<Rightarrow> 'a TailStore" where
  "push_all batches s = fold store_push batches s"

lemma lastn_append_lastn_right: "lastn n (ys @ lastn n zs) = lastn n (ys @ zs)"
  by (cases "length zs \<le> n") (auto simp: lastn_def)

lemma push_all_reach: "tail_reach s \<Longrightarrow> tail_reach (push_all batches s)"
  by (induction batches arbitrary: s) (auto simp: push_all_def intro: tail_reach.step tail_step.push)

lemma push_all_abs:
  assumes "tail_reach s"
  shows "tail_abs (push_all batches s) =
    (if tl_paused s then (tail_abs s)\<lparr>sp_held := lastn (sp_cap (tail_abs s)) (sp_held (tail_abs s) @ concat batches)\<rparr>
     else (tail_abs s)\<lparr>sp_shown := lastn (sp_cap (tail_abs s)) (sp_shown (tail_abs s) @ concat batches)\<rparr>)"
  using assms
proof (induction batches arbitrary: s)
  case Nil
  have "tail_inv s" using Nil by (rule tail_reach_inv)
  then have "lastn (capacity (tl_rows s)) (toArray (tl_rows s)) = toArray (tl_rows s)"
    "lastn (capacity (tl_rows s)) (toArray (tl_pending s)) = toArray (tl_pending s)"
    using toArray_bound [of "tl_rows s"] toArray_bound [of "tl_pending s"]
    by (auto intro!: lastn_short simp: tail_inv_def simp del: length_toArray)
  then show ?case by (simp add: push_all_def tail_abs_def)
next
  case (Cons b batches)
  have r: "tail_reach (store_push b s)" using Cons.prems by (auto intro: tail_reach.step tail_step.push)
  have p: "tl_paused (store_push b s) = tl_paused s" by (simp add: store_push_def)
  have a: "tail_abs (store_push b s) = tail_spec (Push b) (tail_abs s)"
    using tail_refines [OF tail_reach_inv [OF Cons.prems] tail_step.push] .
  have u: "push_all (b # batches) s = push_all batches (store_push b s)" by (simp add: push_all_def)
  have sp: "sp_paused (tail_abs s) = tl_paused s" by (simp add: tail_abs_def)
  show ?case
    unfolding u Cons.IH [OF r] a p using sp
    by (auto simp: lastn_append_lastn simp flip: append_assoc)
qed

section \<open>The connection\<close>

datatype TailStatus = Connecting | Live | Reconnecting | Failed

text \<open>What the connection tells its handlers.\<close>

datatype 'a tail_output = OnStatus TailStatus "string option" | OnRows "'a list" | OnStats string

definition MAX_BACKOFF_MS :: rat where
  "MAX_BACKOFF_MS = 15000"

text \<open>\<open>query\<close> is the JSON text of the query.\<close>

definition tailUrl :: "string \<Rightarrow> string \<Rightarrow> string" where
  "tailUrl query startOffset =
     ''/api/v1/logs/tail?'' @ params_toString [(''q'', encodeBase64Url query), (''start_offset'', startOffset)]"

text \<open>The server reads both parameters back.\<close>

lemma tailUrl_params: "parse_params (drop 18 (tailUrl query offs)) = [(''q'', encodeBase64Url query), (''start_offset'', offs)]"
  by (simp add: tailUrl_def parse_params_toString)

text \<open>\<open>r\<close> is the value of \<open>Math.random()\<close>.\<close>

definition backoff :: "nat \<Rightarrow> rat \<Rightarrow> rat" where
  "backoff attempt r = min MAX_BACKOFF_MS (500 * 2 ^ min attempt 5) * (3 / 4 + r * (1 / 2))"

text \<open>The variables the closures of \<open>connectTail\<close> share: whether the current \<open>EventSource\<close> is open, whether
  a timer is running and with which delay.\<close>

record TailConn =
  tc_open :: bool
  tc_closed :: bool
  tc_attempt :: nat
  tc_timer :: "rat option"

definition open_stream :: "TailConn \<Rightarrow> TailConn \<times> 'a tail_output list" where
  "open_stream c =
     (c\<lparr>tc_open := True, tc_timer := None\<rparr>,
      [OnStatus (if tc_attempt c = 0 then Connecting else Reconnecting) None])"

definition connectTail :: "TailConn \<times> 'a tail_output list" where
  "connectTail = open_stream \<lparr>tc_open = False, tc_closed = False, tc_attempt = 0, tc_timer = None\<rparr>"

text \<open>Events: \<open>Logs\<close> and \<open>Stats\<close> carry the parsed data, \<^const>\<open>None\<close> when it is malformed. \<open>StreamError\<close> carries
  \<^const>\<open>None\<close> for a lost connection and the text of a server-sent error otherwise, with what parsing
  it gives: the first of \<open>detail\<close>, \<open>title\<close> and \<open>code\<close> that is present.\<close>

datatype 'a conn_event =
  StreamOpen
| Logs "'a list option"
| Stats "string option"
| StreamError "string option option" rat
| Timer
| Close

fun conn_handle :: "'a conn_event \<Rightarrow> TailConn \<Rightarrow> TailConn \<times> 'a tail_output list" where
  "conn_handle StreamOpen c = (c\<lparr>tc_attempt := 0\<rparr>, [OnStatus Live None])"
| "conn_handle (Logs rows) c =
     (c, case rows of None \<Rightarrow> [] | Some rs \<Rightarrow> if rs = [] then [] else [OnRows rs])"
| "conn_handle (Stats st) c = (c, case st of None \<Rightarrow> [] | Some x \<Rightarrow> [OnStats x])"
| "conn_handle (StreamError data r) c =
     (let told = (case data of None \<Rightarrow> [] | Some detail \<Rightarrow> [OnStatus Failed detail]);
          c1 = c\<lparr>tc_open := False\<rparr>
      in if tc_closed c then (c1, told)
         else (c1\<lparr>tc_attempt := tc_attempt c + 1, tc_timer := Some (backoff (tc_attempt c + 1) r)\<rparr>,
               told @ (if data = None then [OnStatus Reconnecting None] else [])))"
| "conn_handle Timer c = open_stream c"
| "conn_handle Close c = (c\<lparr>tc_closed := True, tc_timer := None, tc_open := False\<rparr>, [])"

text \<open>When an event can happen: stream events while the stream is open, the timer while it runs.\<close>

fun conn_enabled :: "'a conn_event \<Rightarrow> TailConn \<Rightarrow> bool" where
  "conn_enabled Timer c = (tc_timer c \<noteq> None)"
| "conn_enabled Close c = True"
| "conn_enabled (StreamError data r) c = (tc_open c \<and> 0 \<le> r \<and> r < 1)"
| "conn_enabled _ c = tc_open c"

inductive conn_run :: "TailConn \<Rightarrow> 'a conn_event list \<Rightarrow> TailConn \<Rightarrow> 'a tail_output list \<Rightarrow> bool" where
  nil: "conn_run c [] c []"
| cons: "conn_enabled e c \<Longrightarrow> conn_handle e c = (c1, out) \<Longrightarrow> conn_run c1 es c2 outs \<Longrightarrow>
         conn_run c (e # es) c2 (out @ outs)"

inductive_cases conn_run_consE: "conn_run c (e # es) c' outs"

text \<open>An open connection waits for the stream or for the timer, never for both; a closed one for neither. A
  running timer has a bounded delay.\<close>

definition conn_inv :: "TailConn \<Rightarrow> bool" where
  "conn_inv c \<longleftrightarrow>
     (if tc_closed c then \<not> tc_open c \<and> tc_timer c = None else tc_open c \<longleftrightarrow> tc_timer c = None) \<and>
     (\<forall>d. tc_timer c = Some d \<longrightarrow> 750 \<le> d \<and> d < 18750)"

lemma backoff_bounds:
  assumes "1 \<le> attempt" and "0 \<le> r" and "r < 1"
  shows "750 \<le> backoff attempt r \<and> backoff attempt r < 18750"
proof -
  define k where "k = min attempt 5"
  have "1 \<le> k" "k \<le> 5" using assms(1) by (auto simp: k_def)
  then have "k \<in> {1, 2, 3, 4, 5}" by auto
  then have "1000 \<le> (500 * 2 ^ k :: rat)" by auto
  then have "1000 \<le> min MAX_BACKOFF_MS (500 * 2 ^ k)" and "min MAX_BACKOFF_MS (500 * 2 ^ k) \<le> 15000"
    by (auto simp: MAX_BACKOFF_MS_def)
  then obtain b where b: "1000 \<le> b" "b \<le> 15000" "backoff attempt r = b * (3 / 4 + r * (1 / 2))"
    unfolding backoff_def k_def by blast
  have "1000 * (3 / 4) \<le> b * (3 / 4 + r * (1 / 2))" using b assms by (intro mult_mono) auto
  moreover have "b * (3 / 4 + r * (1 / 2)) < 15000 * (5 / 4)"
  proof -
    have "b * (3 / 4 + r * (1 / 2)) \<le> 15000 * (3 / 4 + r * (1 / 2))" using b assms by (intro mult_right_mono) auto
    also have "\<dots> < 15000 * (5 / 4)" using assms by simp
    finally show ?thesis .
  qed
  ultimately show ?thesis using b(3) by simp
qed

lemma conn_inv_init: "conn_inv (fst connectTail)"
  by (simp add: connectTail_def open_stream_def conn_inv_def)

lemma conn_inv_step:
  assumes "conn_inv c" and "conn_enabled e c" and "conn_handle e c = (c', out)"
  shows "conn_inv c'"
proof (cases e)
  case (StreamError data r)
  then have "tc_open c" "0 \<le> r" "r < 1" using assms(2) by simp_all
  with assms(1) have "\<not> tc_closed c" by (auto simp: conn_inv_def)
  with StreamError assms(3) backoff_bounds [of "tc_attempt c + 1" r] \<open>0 \<le> r\<close> \<open>r < 1\<close> show ?thesis
    by (auto simp: conn_inv_def)
qed (use assms in \<open>auto simp: conn_inv_def open_stream_def split: if_splits\<close>)

lemma conn_run_inv: "conn_run c es c' outs \<Longrightarrow> conn_inv c \<Longrightarrow> conn_inv c'"
  by (induction rule: conn_run.induct) (auto intro: conn_inv_step)

lemma conn_closed_silent:
  assumes "conn_run c es c' outs" and "conn_inv c" and "tc_closed c"
  shows "outs = [] \<and> tc_closed c' \<and> \<not> tc_open c' \<and> tc_timer c' = None"
  using assms
proof (induction rule: conn_run.induct)
  case (nil c)
  then show ?case by (auto simp: conn_inv_def)
next
  case (cons e c c1 out es c2 outs)
  then have "\<not> tc_open c" "tc_timer c = None" by (auto simp: conn_inv_def)
  with cons.hyps(1) have "e = Close" by (cases e) auto
  with cons have "out = []" "tc_closed c1" by auto
  moreover have "conn_inv c1" using cons by (blast intro: conn_inv_step)
  ultimately show ?case using cons.IH by simp
qed

section \<open>Properties\<close>

text \<open>C25. In every reachable state the store is what its specification says, and every step of it is a step of
  the specification: rows are shown or held, never more than the capacity, newest last.\<close>

theorem tail_store_refines:
  assumes "tail_reach s" and "tail_step s e s'"
  shows "tail_abs s' = tail_spec e (tail_abs s) \<and> length (snapshot s') \<le> store_capacity s'"
proof -
  have "tail_reach s'" using assms by (rule tail_reach.step)
  then have "length (snapshot s') \<le> store_capacity s'"
    using tail_spec_shown_bound [of s'] by (simp add: tail_abs_def snapshot_def store_capacity_def)
  then show ?thesis using tail_refines [OF tail_reach_inv [OF assms(1)] assms(2)] by blast
qed

definition store2 :: "nat TailStore" where
  "store2 = (case new_TailStore 2 of Inr s \<Rightarrow> s)"

lemma store2_reach: "tail_reach store2"
proof -
  have "new_TailStore 2 = Inr store2" by (simp add: store2_def new_TailStore_def new_RingBuffer_def)
  then show ?thesis by (rule tail_reach.init)
qed

theorem tail_store_refines_witness:
  "tail_abs (store_push [1, 2, 3] store2) = tail_spec (Push [1, 2, 3]) (tail_abs store2)"
  using tail_store_refines [OF store2_reach tail_step.push] by blast

text \<open>C26. Pausing never changes what is kept: pausing, receiving any batches and resuming shows the same rows as
  receiving them without a pause, however many arrived meanwhile.\<close>

theorem pause_transparent:
  assumes "tail_reach s" and "\<not> tl_paused s"
  shows "snapshot (setPaused False (push_all batches (setPaused True s))) = snapshot (push_all batches s)"
proof -
  let ?p = "setPaused True s"
  have inv: "tail_inv s" using assms(1) by (rule tail_reach_inv)
  have rp: "tail_reach ?p" using assms(1) by (auto intro: tail_reach.step tail_step.pause)
  have rq: "tail_reach (push_all batches ?p)" using rp by (rule push_all_reach)
  have held: "sp_held (tail_abs s) = []" using inv assms(2) by (simp add: tail_abs_def tail_inv_def)
  have ap: "tail_abs ?p = (tail_abs s)\<lparr>sp_paused := True\<rparr>" and pp: "tl_paused ?p"
    using tail_refines [OF inv tail_step.pause [of s True]] by (simp_all add: setPaused_def)
  have "sp_shown (tail_abs (setPaused False (push_all batches ?p))) =
      sp_shown (tail_spec (Pause False) (tail_abs (push_all batches ?p)))"
    using tail_refines [OF tail_reach_inv [OF rq] tail_step.pause [of _ False]] by simp
  also have "\<dots> = lastn (sp_cap (tail_abs s)) (sp_shown (tail_abs s) @ concat batches)"
    using push_all_abs [OF rp] ap pp held by (simp add: lastn_append_lastn_right)
  also have "\<dots> = sp_shown (tail_abs (push_all batches s))"
    using push_all_abs [OF assms(1)] assms(2) by simp
  finally show ?thesis by (simp add: tail_abs_def snapshot_def)
qed

theorem pause_transparent_witness:
  "snapshot (setPaused False (push_all [[1, 2], [3]] (setPaused True store2))) = snapshot (push_all [[1, 2], [3]] store2)"
proof -
  have "\<not> tl_paused store2" by (simp add: store2_def new_TailStore_def new_RingBuffer_def)
  with pause_transparent [OF store2_reach] show ?thesis by blast
qed

text \<open>C27. Subscribers are woken at most once per frame and never missed: at most one frame is outstanding, each
  change of the store leaves one outstanding, and when it runs every subscriber is called
  once with a new version.\<close>

theorem frames_coalesced:
  assumes "tail_reach s" and "tail_step s e s'"
  shows "tl_frames s' \<le> 1 \<and>
    (e \<notin> {Frame} \<and> (\<forall>l. e \<noteq> Subscribe l \<and> e \<noteq> Unsubscribe l) \<longrightarrow> tl_frames s' = 1) \<and>
    (tl_frames s' = 1 \<longrightarrow>
       (\<exists>s''. tail_step s' Frame s'' \<and> tl_version s'' = tl_version s' + 1) \<and>
       distinct (snd (run_frame s')) \<and> set (snd (run_frame s')) = set (tl_listeners s'))"
proof -
  have inv: "tail_inv s" "tail_inv s'"
    using assms tail_reach_inv tail_reach.step by blast+
  have "\<exists>t. s' = notify t \<and> tl_frames t = tl_frames s \<and> tl_scheduled t = tl_scheduled s"
    if "e \<noteq> Frame" "\<forall>l. e \<noteq> Subscribe l \<and> e \<noteq> Unsubscribe l"
    using assms(2) that by cases
      (auto simp: store_push_def setPaused_def store_clear_def store_resize_def intro!: exI split: sum.splits)
  then have "tl_frames s' = 1" if "e \<noteq> Frame" "\<forall>l. e \<noteq> Subscribe l \<and> e \<noteq> Unsubscribe l"
    using that inv(1) by (metis notify_frames tail_inv_def)
  moreover have "tail_step s' Frame (fst (run_frame s'))" if "tl_frames s' = 1"
    using that by (intro tail_step.frame) simp
  ultimately show ?thesis
    using inv(2) by (auto simp: tail_inv_def run_frame_def split: if_splits)
qed

theorem frames_coalesced_witness: "tl_frames (store_push [1] (store_push [2] store2)) \<le> 1"
  using frames_coalesced [OF tail_reach.step [OF store2_reach tail_step.push] tail_step.push] by blast

text \<open>C28. The connection recovers and stops: while it is open it waits for exactly one thing, the stream or a
  timer of at least 750 ms and less than 18.75 s, so an error is always followed by another attempt;
  once it is closed, no timer is left and no handler is called any more.\<close>

theorem connection_recovers_and_stops:
  assumes "conn_run (fst connectTail) es c outs"
  shows "(tc_closed c \<longrightarrow> \<not> tc_open c \<and> tc_timer c = None) \<and>
    (\<not> tc_closed c \<longrightarrow> tc_open c \<noteq> (\<exists>d. tc_timer c = Some d \<and> 750 \<le> d \<and> d < 18750)) \<and>
    (\<forall>es' c' outs'. conn_run (fst (conn_handle Close c)) es' c' outs' \<longrightarrow> outs' = [] \<and> tc_timer c' = None)"
proof -
  have inv: "conn_inv c" using assms conn_inv_init by (rule conn_run_inv)
  have "conn_inv (fst (conn_handle Close c))" "tc_closed (fst (conn_handle Close c))"
    by (simp_all add: conn_inv_def)
  then have "\<forall>es' c' outs'. conn_run (fst (conn_handle Close c)) es' c' outs' \<longrightarrow> outs' = [] \<and> tc_timer c' = None"
    using conn_closed_silent by blast
  moreover have "tc_closed c \<longrightarrow> \<not> tc_open c \<and> tc_timer c = None"
    and "\<not> tc_closed c \<longrightarrow> tc_open c \<noteq> (\<exists>d. tc_timer c = Some d \<and> 750 \<le> d \<and> d < 18750)"
    using inv by (cases "tc_timer c"; force simp: conn_inv_def)+
  ultimately show ?thesis by blast
qed

theorem connection_recovers_and_stops_witness:
  "\<exists>c outs. conn_run (fst connectTail) [StreamOpen, StreamError None 0] c outs \<and> \<not> tc_open c \<and> tc_timer c = Some 750"
proof -
  let ?c = "\<lparr>tc_open = False, tc_closed = False, tc_attempt = 1, tc_timer = Some 750\<rparr>"
  have e: "conn_handle (StreamError None 0) (fst connectTail) = (?c, [OnStatus Reconnecting None])"
    and o: "conn_handle StreamOpen (fst connectTail) = (fst connectTail, [OnStatus Live None])"
    and t: "tc_open (fst connectTail)"
    by (simp_all add: connectTail_def open_stream_def backoff_def MAX_BACKOFF_MS_def)
  have "conn_run (fst connectTail) [StreamError None 0] ?c ([OnStatus Reconnecting None] @ [])"
    using t by (intro conn_run.cons [OF _ e] conn_run.nil) simp
  then have run: "conn_run (fst connectTail) [StreamOpen, StreamError None 0] ?c
      ([OnStatus Live None] @ [OnStatus Reconnecting None] @ [])"
    using t by (intro conn_run.cons [OF _ o]) simp_all
  with connection_recovers_and_stops [OF run] show ?thesis by auto
qed

end
