(* ===== verification/Filter_Roundtrip.thy ===== *)
theory Filter_Roundtrip
  imports Filter_Text
begin

text \<open>
  Correctness of the filter text form: serializing a canonical AST and parsing the text gives
  the AST back, the parser only ever builds canonical ASTs, and every syntax error points
  into the text. The first rests on two layers: what the tokenizer makes of serialized
  text (\<open>lexes\<close>), and what the parser makes of those tokens.
\<close>

section \<open>What the tokenizer makes of serialized text\<close>

definition kv :: "Token \<Rightarrow> TokenKind \<times> string" where
  "kv t = (tk_kind t, tk_value t)"

text \<open>\<open>lexes s K\<close>: wherever \<open>s\<close> stands in the input, its tokens are \<open>K\<close>.\<close>

definition lexes :: "string \<Rightarrow> (TokenKind \<times> string) list \<Rightarrow> bool" where
  "lexes s K \<longleftrightarrow> (\<forall>i. \<exists>ts. tokenize_from i s = Inr ts \<and> map kv ts = K)"

text \<open>What may follow a bare word.\<close>

definition ends_word :: "string \<Rightarrow> bool" where
  "ends_word s \<longleftrightarrow> s = [] \<or> delim (hd s)"

named_theorems lex_intros \<open>how pieces of serialized text are tokenized\<close>

declare tokenize_from.simps(2) [simp del]

lemma lexes_Nil [lex_intros]: "lexes [] []"
  by (simp add: lexes_def)

lemma push_token_lex:
  assumes "lexes s K"
    and "\<And>i. \<exists>j. tokenize_from i t = push_token k v i (tokenize_from j s)"
  shows "lexes t ((k, v) # K)"
  unfolding lexes_def
proof
  fix i
  obtain j where j: "tokenize_from i t = push_token k v i (tokenize_from j s)"
    using assms(2) by blast
  obtain ts where "tokenize_from j s = Inr ts" and "map kv ts = K"
    using assms(1) by (auto simp: lexes_def)
  with j show "\<exists>ts. tokenize_from i t = Inr ts \<and> map kv ts = (k, v) # K"
    by (simp add: push_token_def kv_def)
qed

lemma lex_space [lex_intros]: "lexes s K \<Longrightarrow> lexes (CHR '' '' # s) K"
  by (simp add: lexes_def is_space_def tokenize_from.simps(2) [of _ "CHR '' ''"])

lemma lex_lparen [lex_intros]: "lexes s K \<Longrightarrow> lexes (CHR ''('' # s) ((KLparen, ''('') # K)"
  by (rule push_token_lex) (auto simp: is_space_def tokenize_from.simps(2) [of _ _ s])

lemma lex_rparen [lex_intros]: "lexes s K \<Longrightarrow> lexes (CHR '')'' # s) ((KRparen, '')'') # K)"
  by (rule push_token_lex) (auto simp: is_space_def tokenize_from.simps(2) [of _ _ s])

lemma lex_comma [lex_intros]: "lexes s K \<Longrightarrow> lexes (CHR '','' # s) ((KComma, '','') # K)"
  by (rule push_token_lex) (auto simp: is_space_def tokenize_from.simps(2) [of _ _ s])

lemma lex_exists [lex_intros]: "lexes s K \<Longrightarrow> lexes ('':*'' @ s) ((KExists, '':*'') # K)"
  by (rule push_token_lex) (auto simp: is_space_def tokenize_from.simps(2) [of _ "CHR '':''"])

lemma scan_escaped:
  "scan_quoted start i out
     (replace_char DQ [BSLASH, DQ] (replace_char BSLASH [BSLASH, BSLASH] v) @ DQ # s) =
   Inr (out @ v, i + length (replace_char DQ [BSLASH, DQ] (replace_char BSLASH [BSLASH, BSLASH] v)) + 1, s)"
proof (induction v arbitrary: i out)
  case Nil
  then show ?case by (simp add: replace_char_def char_consts)
next
  case (Cons c v)
  then show ?case by (auto simp: replace_char_def char_consts)
qed

lemma DQ_not_special [simp]:
  "\<not> is_space DQ" "DQ \<noteq> CHR ''(''" "DQ \<noteq> CHR '')''" "DQ \<noteq> CHR '',''" "DQ \<noteq> CHR '':''"
  "DQ \<noteq> CHR ''=''" "DQ \<noteq> CHR ''~''"
  by (simp_all add: DQ_def is_space_def)

lemma lex_quoteAlways [lex_intros]: "lexes s K \<Longrightarrow> lexes (quoteAlways v @ s) ((KQuoted, v) # K)"
  by (rule push_token_lex)
    (auto simp: quoteAlways_def scan_escaped tokenize_from.simps(2) [of _ DQ])

lemma find_OPERATORS_None:
  "\<not> delim c \<Longrightarrow> List.find (startsWith (c # cs)) OPERATORS = None"
  by (auto simp: OPERATORS_def find_None_iff delim_def)

lemma takeWhile_word:
  assumes "list_all (\<lambda>c. \<not> delim c) v" and "ends_word s"
  shows "takeWhile (\<lambda>c. \<not> delim c) (v @ s) = v"
  using assms by (induction v) (auto simp: ends_word_def takeWhile_eq_Nil_iff)

lemma lex_bare:
  assumes "BARE_RE v" and "ends_word s" and "lexes s K"
  shows "lexes (v @ s) ((KBare, v) # K)"
proof (rule push_token_lex [OF assms(3)])
  fix i
  obtain c cs where v: "v = c # cs" and c: "\<not> delim c"
    using assms(1) by (cases v) (auto simp: BARE_RE_def)
  have w: "takeWhile (\<lambda>c. \<not> delim c) (c # cs @ s) = c # cs"
    using takeWhile_word [of v s] assms(1,2) v by (simp add: BARE_RE_def)
  have d: "\<not> is_space c" "c \<noteq> CHR ''(''" "c \<noteq> CHR '')''" "c \<noteq> CHR '',''" "c \<noteq> CHR '':''"
    "c \<noteq> DQ" "c \<noteq> CHR ''!''"
    using c by (auto simp: delim_def)
  have "tokenize_from i (v @ s) = push_token KBare v i (tokenize_from (i + length v) s)"
    unfolding v append_Cons tokenize_from.simps(2) [of i c]
    using d w find_OPERATORS_None [OF c] by (simp add: Let_def)
  then show "\<exists>j. tokenize_from i (v @ s) = push_token KBare v i (tokenize_from j s)" by blast
qed

text \<open>The kind of token \<open>quote\<close> turns a value into.\<close>

definition qkind :: "string \<Rightarrow> TokenKind" where
  "qkind v = (if v \<noteq> [] \<and> BARE_RE v \<and> toLowerCase v \<notin> set KEYWORDS then KBare else KQuoted)"

lemma lex_quote [lex_intros]:
  "ends_word s \<Longrightarrow> lexes s K \<Longrightarrow> lexes (quote v @ s) ((qkind v, v) # K)"
  using lex_bare [of v s K] lex_quoteAlways [of s K v]
  by (auto simp: quote_def qkind_def quoteAlways_def)

text \<open>What may follow an operator: a bare word or a quoted value.\<close>

definition value_start :: "string \<Rightarrow> bool" where
  "value_start s \<longleftrightarrow> s \<noteq> [] \<and> (\<not> delim (hd s) \<or> hd s = DQ)"

lemma value_start_quote [simp]: "value_start (quote v @ s)"
  by (cases v) (auto simp: quote_def value_start_def BARE_RE_def)

lemma value_start_quoteAlways [simp]: "value_start (quoteAlways v @ s)"
  by (simp add: quoteAlways_def value_start_def)

lemma tokenize_from_op:
  assumes "c \<in> set ''!=~^<>''" and "List.find (startsWith (c # cs)) OPERATORS = Some o1"
  shows "tokenize_from i (c # cs) =
     push_token KOp o1 i (tokenize_from (i + length o1) (drop (length o1) (c # cs)))"
  using assms by (subst tokenize_from.simps(2)) (auto simp: is_space_def DQ_def)

lemma lex_op [lex_intros]:
  assumes "o1 \<in> set OPERATORS" and "value_start s" and "lexes s K"
  shows "lexes (o1 @ s) ((KOp, o1) # K)"
proof (rule push_token_lex [OF assms(3)])
  fix i
  obtain c cs where s: "s = c # cs" and c: "\<not> delim c \<or> c = DQ"
    using assms(2) by (cases s) (auto simp: value_start_def)
  then have d: "c \<noteq> CHR ''=''" "c \<noteq> CHR ''~''"
    by (auto simp: delim_def DQ_def)
  have "tokenize_from i (o1 @ s) = push_token KOp o1 i (tokenize_from (i + length o1) s)"
    using assms(1) d
    by (auto simp: OPERATORS_def s tokenize_from_op)
  then show "\<exists>j. tokenize_from i (o1 @ s) = push_token KOp o1 i (tokenize_from j s)" by blast
qed

lemma lex_bang [lex_intros]:
  assumes "value_start s" and "lexes s K"
  shows "lexes (CHR ''!'' # s) ((KBang, ''!'') # K)"
proof (rule push_token_lex [OF assms(2)])
  fix i
  obtain c cs where s: "s = c # cs" and c: "\<not> delim c \<or> c = DQ"
    using assms(1) by (cases s) (auto simp: value_start_def)
  then have d: "c \<noteq> CHR ''=''" by (auto simp: delim_def DQ_def)
  have "tokenize_from i (CHR ''!'' # s) = push_token KBang ''!'' i (tokenize_from (i + 1) s)"
    using d by (simp add: OPERATORS_def s is_space_def DQ_def tokenize_from.simps(2) [of i "CHR ''!''"])
  then show "\<exists>j. tokenize_from i (CHR ''!'' # s) = push_token KBang ''!'' i (tokenize_from j s)"
    by blast
qed

section \<open>The tokens of a serialized AST\<close>

definition bool_word :: "BoolOp \<Rightarrow> string" where
  "bool_word op = (if op = Or then ''OR'' else ''AND'')"

fun ftoks :: "FilterExpr \<Rightarrow> nat \<Rightarrow> (TokenKind \<times> string) list" where
  "ftoks (BoolExpr op args) p =
     (let b = join [(KBare, bool_word op)] (map (\<lambda>a. ftoks a (bool_prec op + 1)) args)
      in if bool_prec op < p then [(KLparen, ''('')] @ b @ [(KRparen, '')'')] else b)"
| "ftoks (NotExpr a) p = (KBare, ''NOT'') # ftoks a 6"
| "ftoks (TextExpr v) p = [(KQuoted, v)]"
| "ftoks (FieldExistsExpr Exists f) p = [(qkind f, f), (KExists, '':*'')]"
| "ftoks (FieldExistsExpr Not_exists f) p = [(KBang, ''!''), (qkind f, f), (KExists, '':*'')]"
| "ftoks (FieldValuesExpr op f vs) p =
     (qkind f, f) # (if op = In then [(KBare, ''in'')] else [(KBare, ''not''), (KBare, ''in'')]) @
     [(KLparen, ''('')] @ join [(KComma, '','')] (map (\<lambda>v. [(qkind v, v)]) vs) @ [(KRparen, '')'')]"
| "ftoks (FieldValueExpr op f v) p =
     (if op = Cidr then [(qkind f, f), (KBare, ''cidr''), (qkind v, v)]
      else if op = Regex then [(qkind f, f), (KOp, ''=~''), (KQuoted, v)]
      else [(qkind f, f), (KOp, the (map_of AST_TO_OP op)), (qkind v, v)])"

lemma lex_join:
  assumes "\<And>x s K. x \<in> set xs \<Longrightarrow> ends_word s \<Longrightarrow> lexes s K \<Longrightarrow> lexes (f x @ s) (g x @ K)"
    and "\<And>s K. lexes s K \<Longrightarrow> lexes (sep @ s) (sepk @ K)"
    and "\<And>s. ends_word (sep @ s)"
    and "ends_word s" and "lexes s K"
  shows "lexes (join sep (map f xs) @ s) (join sepk (map g xs) @ K)"
  using assms(1)
proof (induction xs)
  case Nil
  then show ?case using assms(5) by simp
next
  case (Cons x xs)
  show ?case
  proof (cases "xs = []")
    case True
    with Cons.prems assms(4,5) show ?thesis by simp
  next
    case False
    with Cons have "lexes (join sep (map f xs) @ s) (join sepk (map g xs) @ K)" by simp
    with Cons.prems assms(2,3)
    have "lexes (f x @ sep @ join sep (map f xs) @ s) (g x @ sepk @ join sepk (map g xs) @ K)"
      by simp
    with False show ?thesis by (simp add: join_Cons)
  qed
qed

lemma lex_keyword:
  assumes "BARE_RE w" and "lexes s K"
  shows "lexes (w @ '' '' @ s) ((KBare, w) # K)"
  by (rule lex_bare [OF assms(1)])
    (use lex_space [OF assms(2)] in \<open>simp_all add: ends_word_def delim_def is_space_def\<close>)

lemma BARE_RE_keywords [simp]:
  "BARE_RE ''AND''" "BARE_RE ''OR''" "BARE_RE ''NOT''" "BARE_RE ''in''" "BARE_RE ''not''" "BARE_RE ''cidr''"
  by (simp_all add: BARE_RE_def delim_def is_space_def DQ_def)

lemma ends_word_Cons [simp]:
  "ends_word (CHR '' '' # s)" "ends_word (CHR '','' # s)" "ends_word (CHR '')'' # s)"
  "ends_word (CHR '':'' # s)"
  by (simp_all add: ends_word_def delim_def is_space_def)

lemma ends_word_op: "o1 \<in> set OPERATORS \<Longrightarrow> ends_word (o1 @ s)"
  by (auto simp: OPERATORS_def ends_word_def delim_def)

lemma AST_TO_OP_known:
  "op \<noteq> Cidr \<Longrightarrow> \<exists>o1. map_of AST_TO_OP op = Some o1 \<and> o1 \<in> set OPERATORS \<and> map_of OP_TO_AST o1 = Some op"
  by (cases op) (simp_all add: AST_TO_OP_def OP_TO_AST_def OPERATORS_def)

lemma lex_fmt_leaf_values:
  assumes "ends_word s" and "lexes s K"
  shows "lexes (fmt (FieldValuesExpr op f vs) p @ s) (ftoks (FieldValuesExpr op f vs) p @ K)"
proof -
  have "lexes ('')'' @ s) ((KRparen, '')'') # K)"
    using lex_rparen [OF assms(2)] by simp
  then have "lexes (join '', '' (map quote vs) @ '')'' @ s)
      (join [(KComma, '','')] (map (\<lambda>v. [(qkind v, v)]) vs) @ (KRparen, '')'') # K)"
    by (intro lex_join) (auto intro: lex_intros)
  from lex_lparen [OF this] have l:
    "lexes (''('' @ join '', '' (map quote vs) @ '')'' @ s)
      ((KLparen, ''('') # join [(KComma, '','')] (map (\<lambda>v. [(qkind v, v)]) vs) @ (KRparen, '')'') # K)"
    by simp
  show ?thesis
  proof (cases op)
    case In
    with lex_quote [OF _ lex_space [OF lex_keyword [OF _ l, of "''in''"]], of f] show ?thesis
      by simp
  next
    case Not_in
    with lex_quote [OF _ lex_space [OF lex_keyword [OF _ lex_keyword [OF _ l, of "''in''"], of "''not''"]], of f]
    show ?thesis by simp
  qed
qed

lemma lex_fmt_leaf_value:
  assumes "ends_word s" and "lexes s K"
  shows "lexes (fmt (FieldValueExpr op f v) p @ s) (ftoks (FieldValueExpr op f v) p @ K)"
proof -
  consider "op = Cidr" | "op = Regex" | "op \<noteq> Cidr" "op \<noteq> Regex" by blast
  then show ?thesis
  proof cases
    case 1
    have "lexes (quote v @ s) ((qkind v, v) # K)" by (rule lex_quote [OF assms])
    from lex_quote [OF _ lex_space [OF lex_keyword [OF _ this, of "''cidr''"]], of f] 1
    show ?thesis by simp
  next
    case 2
    have "lexes (quoteAlways v @ s) ((KQuoted, v) # K)" by (rule lex_quoteAlways [OF assms(2)])
    then have "lexes (''=~'' @ quoteAlways v @ s) ((KOp, ''=~'') # (KQuoted, v) # K)"
      by (intro lex_op) (simp_all add: OPERATORS_def)
    from lex_quote [OF _ this, of f] 2 show ?thesis
      by (simp add: ends_word_op [of "''=~''", simplified] OPERATORS_def)
  next
    case 3
    then obtain o1 where o1: "map_of AST_TO_OP op = Some o1" "o1 \<in> set OPERATORS"
      using AST_TO_OP_known by blast
    have "lexes (quote v @ s) ((qkind v, v) # K)" by (rule lex_quote [OF assms])
    then have "lexes (o1 @ quote v @ s) ((KOp, o1) # (qkind v, v) # K)"
      using o1(2) by (intro lex_op) simp_all
    from lex_quote [OF ends_word_op [OF o1(2)] this, of f] 3 o1 show ?thesis by simp
  qed
qed

lemma lex_fmt:
  "ends_word s \<Longrightarrow> lexes s K \<Longrightarrow> lexes (fmt e p @ s) (ftoks e p @ K)"
proof (induction e arbitrary: p s K)
  case (BoolExpr op args)
  have *: "lexes (join (if op = Or then '' OR '' else '' AND '')
        (map (\<lambda>a. fmt a (bool_prec op + 1)) args) @ s')
      (join [(KBare, bool_word op)] (map (\<lambda>a. ftoks a (bool_prec op + 1)) args) @ K')"
    if "ends_word s'" "lexes s' K'" for s' K'
    using that BoolExpr.IH
    by (intro lex_join)
      (auto simp: bool_word_def intro: lex_space lex_keyword [of "''OR''", simplified]
        lex_keyword [of "''AND''", simplified])
  show ?case
  proof (cases "bool_prec op < p")
    case True
    from lex_lparen [OF * [OF _ lex_rparen [OF BoolExpr.prems(2)]]] True
    show ?thesis by (simp add: Let_def)
  next
    case False
    with * [OF BoolExpr.prems] show ?thesis by (simp add: Let_def)
  qed
next
  case (NotExpr a)
  from lex_keyword [OF _ NotExpr.IH [OF NotExpr.prems, of 6], of "''NOT''"] show ?case by simp
next
  case (TextExpr v)
  then show ?case by (simp add: lex_quoteAlways)
next
  case (FieldValueExpr op f v)
  then show ?case by (rule lex_fmt_leaf_value)
next
  case (FieldValuesExpr op f vs)
  then show ?case by (rule lex_fmt_leaf_values)
next
  case (FieldExistsExpr op f)
  have ex: "lexes (quote f @ '':*'' @ s) ((qkind f, f) # (KExists, '':*'') # K)"
    by (intro lex_quote lex_exists FieldExistsExpr.prems) simp
  show ?case
  proof (cases op)
    case Exists
    with ex show ?thesis by simp
  next
    case Not_exists
    with lex_bang [OF _ ex] show ?thesis by simp
  qed
qed

section \<open>What the parser makes of those tokens\<close>

text \<open>Canonical ASTs: at least two arguments under \<open>and\<close> and \<open>or\<close>, no operator directly
  inside itself, a field name wherever one is needed, and a value in every list.\<close>

definition is_bool :: "BoolOp \<Rightarrow> FilterExpr \<Rightarrow> bool" where
  "is_bool op e = (case e of BoolExpr op' _ \<Rightarrow> op' = op | _ \<Rightarrow> False)"

fun canonical :: "FilterExpr \<Rightarrow> bool" where
  "canonical (BoolExpr op args) \<longleftrightarrow>
     2 \<le> length args \<and> list_all (\<lambda>a. canonical a \<and> \<not> is_bool op a) args"
| "canonical (NotExpr a) \<longleftrightarrow> canonical a"
| "canonical (TextExpr v) \<longleftrightarrow> True"
| "canonical (FieldValueExpr op f v) \<longleftrightarrow> f \<noteq> []"
| "canonical (FieldValuesExpr op f vs) \<longleftrightarrow> f \<noteq> [] \<and> vs \<noteq> []"
| "canonical (FieldExistsExpr op f) \<longleftrightarrow> (op = Exists \<longrightarrow> f \<noteq> [])"

text \<open>What can stand after a complete operand, a complete \<open>and\<close> and a complete \<open>or\<close>.\<close>

definition after_unary :: "Token list \<Rightarrow> bool" where
  "after_unary R \<longleftrightarrow> R = [] \<or> tk_kind (hd R) = KRparen \<or> isKeyword (hd R) ''and'' \<or> isKeyword (hd R) ''or''"

definition after_and :: "Token list \<Rightarrow> bool" where
  "after_and R \<longleftrightarrow> R = [] \<or> tk_kind (hd R) = KRparen \<or> isKeyword (hd R) ''or''"

definition after_or :: "Token list \<Rightarrow> bool" where
  "after_or R \<longleftrightarrow> R = [] \<or> tk_kind (hd R) = KRparen"

lemma after_or_and: "after_or R \<Longrightarrow> after_and R"
  and after_and_unary: "after_and R \<Longrightarrow> after_unary R"
  by (auto simp: after_or_def after_and_def after_unary_def)

lemma kv_eq: "kv t = (k, v) \<longleftrightarrow> tk_kind t = k \<and> tk_value t = v"
  by (simp add: kv_def)

lemma map_kv_Cons: "map kv ts = x # K \<longleftrightarrow> (\<exists>t ts'. ts = t # ts' \<and> kv t = x \<and> map kv ts' = K)"
  by (cases ts) auto

lemma map_kv_append: "map kv ts = K @ L \<longleftrightarrow> (\<exists>us vs. ts = us @ vs \<and> map kv us = K \<and> map kv vs = L)"
  by (auto simp: map_eq_append_conv)

lemmas kv_simps = map_kv_Cons map_kv_append kv_eq

lemma qkind_word: "tk_kind t = qkind v \<Longrightarrow> is_word t"
  by (simp add: qkind_def is_word_def split: if_splits)

lemma qkind_not_keyword: "tk_kind t = qkind v \<Longrightarrow> tk_value t = v \<Longrightarrow> kw \<in> set KEYWORDS \<Longrightarrow> \<not> isKeyword t kw"
  by (auto simp: qkind_def isKeyword_def split: if_splits)

lemma qkind_neq [simp]: "qkind v \<noteq> KBang" "qkind v \<noteq> KLparen" "qkind v \<noteq> KRparen" "qkind v \<noteq> KOp" "qkind v \<noteq> KExists"
  by (simp_all add: qkind_def)

lemma not_followed: "after_unary R \<Longrightarrow> \<not> followedByFieldOp R"
  by (auto simp: after_unary_def followedByFieldOp_def isKeyword_def split: list.splits)

lemma keyword_lower [simp]:
  "toLowerCase ''AND'' = ''and''" "toLowerCase ''OR'' = ''or''" "toLowerCase ''NOT'' = ''not''"
  "toLowerCase ''in'' = ''in''" "toLowerCase ''not'' = ''not''" "toLowerCase ''cidr'' = ''cidr''"
  by code_simp+

lemma unary_word:
  assumes "is_word t" and "\<not> isKeyword t ''not''"
  shows "unary len (t # R) = parse_term len t R"
  using assms by (subst unary.simps) (auto simp: is_word_def)

lemma unary_bang: "tk_kind t = KBang \<Longrightarrow> unary len (t # R) = parse_bang len R"
  by (subst unary.simps) (simp add: isKeyword_def)

lemma unary_field:
  assumes "tk_kind t = qkind f" "tk_value t = f" "f \<noteq> []" "followedByFieldOp (opt # R)"
  shows "unary len (t # opt # R) = field_op len f opt R"
proof -
  have "unary len (t # opt # R) = parse_term len t (opt # R)"
    by (rule unary_word) (use assms qkind_word qkind_not_keyword in \<open>auto simp: KEYWORDS_def\<close>)
  also have "\<dots> = field_op len f opt R"
    using assms qkind_word [of t f] by (simp add: parse_term_def)
  finally show ?thesis .
qed

lemma map_kv_Cons2:
  assumes "map kv ts = x # y # K"
  obtains t u us where "ts = t # u # us" "kv t = x" "kv u = y" "map kv us = K"
  using assms by (auto simp: map_kv_Cons)

lemma value_loop_values:
  "map kv ts = concat (map (\<lambda>v. [(KComma, '',''), (qkind v, v)]) vs) @ [(KRparen, '')'')] \<Longrightarrow>
   value_loop len us (ts @ R) = Inr (us @ vs, R)"
proof (induction vs arbitrary: us ts)
  case Nil
  then show ?case by (auto simp: kv_simps)
next
  case (Cons v vs)
  then have "map kv ts = (KComma, '','') # (qkind v, v) #
      concat (map (\<lambda>v. [(KComma, '',''), (qkind v, v)]) vs) @ [(KRparen, '')'')]" by simp
  then obtain t u ts' where ts: "ts = t # u # ts'" and t: "kv t = (KComma, '','')"
    and u: "kv u = (qkind v, v)"
    and rest: "map kv ts' = concat (map (\<lambda>v. [(KComma, '',''), (qkind v, v)]) vs) @ [(KRparen, '')'')]"
    by (rule map_kv_Cons2)
  from Cons.IH [OF rest, of "us @ [v]"] t u qkind_word [of u v] show ?case
    by (simp add: ts kv_eq)
qed

lemma parse_list_values:
  assumes "map kv ts = (KLparen, ''('') # join [(KComma, '','')] (map (\<lambda>v. [(qkind v, v)]) vs) @ [(KRparen, '')'')]"
    and "vs \<noteq> []"
  shows "parse_list len l f (ts @ R) = Inr (FieldValuesExpr l f vs, R)"
proof -
  obtain v ws where vs: "vs = v # ws" using assms(2) by (cases vs) auto
  have j: "join [(KComma, '','')] (map (\<lambda>v. [(qkind v, v)]) vs) =
      (qkind v, v) # concat (map (\<lambda>v. [(KComma, '',''), (qkind v, v)]) ws)"
    by (simp add: vs join_concat comp_def)
  from assms(1) obtain t0 t1 ts' where ts: "ts = t0 # t1 # ts'"
    and t0: "tk_kind t0 = KLparen" and t1: "tk_kind t1 = qkind v" "tk_value t1 = v"
    and rest: "map kv ts' = concat (map (\<lambda>v. [(KComma, '',''), (qkind v, v)]) ws) @ [(KRparen, '')'')]"
    unfolding j append_Cons by (rule map_kv_Cons2) (simp add: kv_eq)
  show ?thesis
    using value_loop_values [OF rest, of len "[v]" R] t0 t1 qkind_word [OF t1(1)]
    by (simp add: ts vs parse_list_def parse_value_def)
qed

text \<open>Leaves are read back by \<open>unary\<close>.\<close>

lemma unary_exists:
  assumes "map kv ts = ftoks (FieldExistsExpr op f) p" and "canonical (FieldExistsExpr op f)"
  shows "unary len (ts @ R) = Inr (FieldExistsExpr op f, R)"
proof (cases op)
  case Exists
  with assms show ?thesis
    by (auto simp: kv_simps unary_field followedByFieldOp_def field_op_def)
next
  case Not_exists
  with assms show ?thesis
    by (auto simp: kv_simps unary_bang parse_bang_def qkind_word)
qed

lemma unary_value:
  assumes "map kv ts = ftoks (FieldValueExpr op f v) p" and "f \<noteq> []"
  shows "unary len (ts @ R) = Inr (FieldValueExpr op f v, R)"
proof -
  consider "op = Cidr" | "op = Regex" | "op \<noteq> Cidr" "op \<noteq> Regex" by blast
  then show ?thesis
  proof cases
    case 1
    with assms show ?thesis
      by (auto simp: kv_simps unary_field followedByFieldOp_def isKeyword_def field_op_def
          parse_value_def qkind_word)
  next
    case 2
    with assms show ?thesis
      by (auto simp: kv_simps unary_field followedByFieldOp_def field_op_def parse_value_def
          is_word_def OP_TO_AST_def)
  next
    case 3
    then obtain o1 where "map_of AST_TO_OP op = Some o1" "map_of OP_TO_AST o1 = Some op"
      using AST_TO_OP_known by blast
    with 3 assms show ?thesis
      by (auto simp: kv_simps unary_field followedByFieldOp_def field_op_def parse_value_def
          qkind_word)
  qed
qed

lemma unary_values:
  assumes toks: "map kv ts = ftoks (FieldValuesExpr op f vs) p" and "f \<noteq> []" and "vs \<noteq> []"
  shows "unary len (ts @ R) = Inr (FieldValuesExpr op f vs, R)"
proof -
  define L where "L = (KLparen, ''('') # join [(KComma, '','')] (map (\<lambda>v. [(qkind v, v)]) vs) @ [(KRparen, '')'')]"
  show ?thesis
  proof (cases op)
    case In
    with toks have "map kv ts = (qkind f, f) # (KBare, ''in'') # L" by (simp add: L_def)
    then obtain t t1 us where ts: "ts = t # t1 # us" and t: "kv t = (qkind f, f)"
      and t1: "kv t1 = (KBare, ''in'')" and us: "map kv us = L" by (rule map_kv_Cons2)
    from t1 have "isKeyword t1 ''in''" "\<not> isKeyword t1 ''not''" "\<not> isKeyword t1 ''cidr''"
      "tk_kind t1 = KBare" by (simp_all add: kv_eq isKeyword_def)
    with parse_list_values [OF us [unfolded L_def] assms(3), of len In f R] assms(2) In ts t
    show ?thesis
      by (simp add: unary_field kv_eq followedByFieldOp_def field_op_def)
  next
    case Not_in
    with toks have "map kv ts = (qkind f, f) # (KBare, ''not'') # (KBare, ''in'') # L"
      by (simp add: L_def)
    then obtain t t1 us' where ts: "ts = t # t1 # us'" and t: "kv t = (qkind f, f)"
      and t1: "kv t1 = (KBare, ''not'')" and us': "map kv us' = (KBare, ''in'') # L"
      by (rule map_kv_Cons2)
    then obtain t2 us where us'': "us' = t2 # us" and t2: "kv t2 = (KBare, ''in'')"
      and us: "map kv us = L" by (cases us') auto
    from t1 t2 have "isKeyword t1 ''not''" "\<not> isKeyword t1 ''cidr''" "tk_kind t1 = KBare"
      "isKeyword t2 ''in''" by (simp_all add: kv_eq isKeyword_def)
    with parse_list_values [OF us [unfolded L_def] assms(3), of len Not_in f R] assms(2) Not_in ts t us''
    show ?thesis
      by (simp add: unary_field kv_eq followedByFieldOp_def field_op_def)
  qed
qed

lemma unary_text:
  assumes "map kv ts = ftoks (TextExpr v) p" and "after_unary R"
  shows "unary len (ts @ R) = Inr (TextExpr v, R)"
proof -
  from assms(1) obtain t where ts: "ts = [t]" and t: "tk_kind t = KQuoted" "tk_value t = v"
    by (auto simp: kv_def)
  then have "unary len (ts @ R) = parse_term len t R"
    by (simp add: unary_word is_word_def isKeyword_def)
  with t not_followed [OF assms(2)] show ?thesis
    by (simp add: parse_term_def is_word_def)
qed

text \<open>The loops over the operands of \<open>and\<close> and \<open>or\<close>.\<close>

definition reads :: "(nat \<Rightarrow> Token list \<Rightarrow> FilterSyntaxError + (FilterExpr \<times> Token list)) \<Rightarrow>
    (Token list \<Rightarrow> bool) \<Rightarrow> FilterExpr \<Rightarrow> nat \<Rightarrow> bool" where
  "reads parser after e p \<longleftrightarrow>
     (\<forall>len ts R. map kv ts = ftoks e p \<longrightarrow> after R \<longrightarrow> parser len (ts @ R) = Inr (e, R))"

lemma readsD: "reads parser after e p \<Longrightarrow> map kv ts = ftoks e p \<Longrightarrow> after R \<Longrightarrow>
    parser len (ts @ R) = Inr (e, R)"
  by (simp add: reads_def)

lemma keyword_token:
  assumes "kv t = (KBare, w)"
  shows "isKeyword t k \<longleftrightarrow> toLowerCase w = k" and "tk_kind t = KBare"
  using assms by (simp_all add: kv_eq isKeyword_def)

lemma andLoop_stop: "after_and R \<Longrightarrow> andLoop len args R = Inr (finish_args And args, R)"
  by (subst andLoop.simps) (auto simp: after_and_def split: list.splits)

lemma orLoop_stop: "after_or R \<Longrightarrow> orLoop len args R = Inr (finish_args Or args, R)"
  by (subst orLoop.simps) (auto simp: after_or_def isKeyword_def split: list.splits)

lemma andLoop_reads:
  assumes "\<forall>a \<in> set as. reads unary after_unary a 5"
    and "map kv ts = concat (map (\<lambda>a. (KBare, ''AND'') # ftoks a 5) as)" and "after_and R"
  shows "andLoop len args (ts @ R) = Inr (finish_args And (args @ as), R)"
  using assms
proof (induction as arbitrary: args ts)
  case Nil
  then show ?case by (simp add: andLoop_stop)
next
  case (Cons a as)
  from Cons.prems(2) obtain t us vs where ts: "ts = t # us @ vs" and t: "kv t = (KBare, ''AND'')"
    and us: "map kv us = ftoks a 5"
    and vs: "map kv vs = concat (map (\<lambda>a. (KBare, ''AND'') # ftoks a 5) as)"
    by (auto simp: map_kv_Cons map_kv_append)
  have "after_unary (vs @ R)"
  proof (cases as)
    case Nil
    with vs Cons.prems(3) show ?thesis by (simp add: after_and_unary)
  next
    case (Cons b bs)
    with vs obtain u us' where "vs = u # us'" "kv u = (KBare, ''AND'')"
      by (auto simp: map_kv_Cons)
    then show ?thesis by (simp add: after_unary_def keyword_token)
  qed
  with Cons.prems(1) us have "unary len (us @ vs @ R) = Inr (a, vs @ R)"
    by (auto intro: readsD)
  with t have "andLoop len args (ts @ R) = andLoop len (args @ [a]) (vs @ R)"
    by (subst andLoop.simps) (simp add: ts keyword_token)
  with Cons.IH [OF _ vs Cons.prems(3), of "args @ [a]"] Cons.prems(1) show ?case by simp
qed

lemma orLoop_reads:
  assumes "\<forall>a \<in> set as. reads andExpr after_and a 3"
    and "map kv ts = concat (map (\<lambda>a. (KBare, ''OR'') # ftoks a 3) as)" and "after_or R"
  shows "orLoop len args (ts @ R) = Inr (finish_args Or (args @ as), R)"
  using assms
proof (induction as arbitrary: args ts)
  case Nil
  then show ?case by (simp add: orLoop_stop)
next
  case (Cons a as)
  from Cons.prems(2) obtain t us vs where ts: "ts = t # us @ vs" and t: "kv t = (KBare, ''OR'')"
    and us: "map kv us = ftoks a 3"
    and vs: "map kv vs = concat (map (\<lambda>a. (KBare, ''OR'') # ftoks a 3) as)"
    by (auto simp: map_kv_Cons map_kv_append)
  have "after_and (vs @ R)"
  proof (cases as)
    case Nil
    with vs Cons.prems(3) show ?thesis by (simp add: after_or_and)
  next
    case (Cons b bs)
    with vs obtain u us' where "vs = u # us'" "kv u = (KBare, ''OR'')"
      by (auto simp: map_kv_Cons)
    then show ?thesis by (simp add: after_and_def keyword_token)
  qed
  with Cons.prems(1) us have "andExpr len (us @ vs @ R) = Inr (a, vs @ R)"
    by (auto intro: readsD)
  with t have "orLoop len args (ts @ R) = orLoop len (args @ [a]) (vs @ R)"
    by (subst orLoop.simps) (simp add: ts keyword_token)
  with Cons.IH [OF _ vs Cons.prems(3), of "args @ [a]"] Cons.prems(1) show ?case by simp
qed

text \<open>An operand is an \<open>and\<close> of one, and an \<open>and\<close> an \<open>or\<close> of one.\<close>

lemma unary_andExpr: "reads unary after_unary e p \<Longrightarrow> reads andExpr after_and e p"
  unfolding reads_def
  by (subst andExpr.simps) (simp add: after_and_unary andLoop_stop finish_args_def)

lemma andExpr_orExpr: "reads andExpr after_and e p \<Longrightarrow> reads orExpr after_or e p"
  unfolding reads_def
  by (subst orExpr.simps) (simp add: after_or_and orLoop_stop finish_args_def)

lemma flatten_id: "list_all (\<lambda>a. \<not> is_bool op a) args \<Longrightarrow> flatten op args = BoolExpr op args"
proof -
  have "flatten_arg op a = [a]" if "\<not> is_bool op a" for a
    using that by (auto simp: flatten_arg_def is_bool_def split: FilterExpr.splits)
  moreover assume "list_all (\<lambda>a. \<not> is_bool op a) args"
  ultimately have "concat (map (flatten_arg op) args) = args"
    by (induction args) auto
  then show ?thesis by (simp add: flatten_def)
qed

lemma finish_args_id:
  "2 \<le> length args \<Longrightarrow> list_all (\<lambda>a. \<not> is_bool op a) args \<Longrightarrow> finish_args op args = BoolExpr op args"
  by (auto simp: finish_args_def flatten_id split: list.splits)

lemma reads_And:
  assumes "canonical (BoolExpr And args)" and "\<forall>a \<in> set args. reads unary after_unary a 5" and "p \<le> 4"
  shows "reads andExpr after_and (BoolExpr And args) p"
  unfolding reads_def
proof (intro allI impI)
  fix len ts R
  assume toks: "map kv ts = ftoks (BoolExpr And args) p" and R: "after_and R"
  obtain a as where args: "args = a # as" using assms(1) by (cases args) auto
  have "map kv ts = ftoks a 5 @ concat (map (\<lambda>a. (KBare, ''AND'') # ftoks a 5) as)"
    using toks assms(3) by (simp add: args bool_prec_def bool_word_def join_concat comp_def)
  then obtain us vs where ts: "ts = us @ vs" and us: "map kv us = ftoks a 5"
    and vs: "map kv vs = concat (map (\<lambda>a. (KBare, ''AND'') # ftoks a 5) as)"
    by (auto simp: map_kv_append)
  have "after_unary (vs @ R)"
  proof (cases as)
    case Nil
    with vs R show ?thesis by (simp add: after_and_unary)
  next
    case (Cons b bs)
    with vs obtain u us' where "vs = u # us'" "kv u = (KBare, ''AND'')"
      by (auto simp: map_kv_Cons)
    then show ?thesis by (simp add: after_unary_def keyword_token)
  qed
  with assms(2) us have "unary len (us @ vs @ R) = Inr (a, vs @ R)"
    by (auto simp: args intro: readsD)
  moreover have "andLoop len [a] (vs @ R) = Inr (finish_args And args, R)"
    using andLoop_reads [OF _ vs R, of len "[a]"] assms(2) by (simp add: args)
  moreover have "finish_args And args = BoolExpr And args"
    using assms(1) by (intro finish_args_id) (auto simp: list_all_iff)
  ultimately show "andExpr len (ts @ R) = Inr (BoolExpr And args, R)"
    by (subst andExpr.simps) (simp add: ts)
qed

lemma reads_Or:
  assumes "canonical (BoolExpr Or args)" and "\<forall>a \<in> set args. reads andExpr after_and a 3" and "p \<le> 2"
  shows "reads orExpr after_or (BoolExpr Or args) p"
  unfolding reads_def
proof (intro allI impI)
  fix len ts R
  assume toks: "map kv ts = ftoks (BoolExpr Or args) p" and R: "after_or R"
  obtain a as where args: "args = a # as" using assms(1) by (cases args) auto
  have "map kv ts = ftoks a 3 @ concat (map (\<lambda>a. (KBare, ''OR'') # ftoks a 3) as)"
    using toks assms(3) by (simp add: args bool_prec_def bool_word_def join_concat comp_def)
  then obtain us vs where ts: "ts = us @ vs" and us: "map kv us = ftoks a 3"
    and vs: "map kv vs = concat (map (\<lambda>a. (KBare, ''OR'') # ftoks a 3) as)"
    by (auto simp: map_kv_append)
  have "after_and (vs @ R)"
  proof (cases as)
    case Nil
    with vs R show ?thesis by (simp add: after_or_and)
  next
    case (Cons b bs)
    with vs obtain u us' where "vs = u # us'" "kv u = (KBare, ''OR'')"
      by (auto simp: map_kv_Cons)
    then show ?thesis by (simp add: after_and_def keyword_token)
  qed
  with assms(2) us have "andExpr len (us @ vs @ R) = Inr (a, vs @ R)"
    by (auto simp: args intro: readsD)
  moreover have "orLoop len [a] (vs @ R) = Inr (finish_args Or args, R)"
    using orLoop_reads [OF _ vs R, of len "[a]"] assms(2) by (simp add: args)
  moreover have "finish_args Or args = BoolExpr Or args"
    using assms(1) by (intro finish_args_id) (auto simp: list_all_iff)
  ultimately show "orExpr len (ts @ R) = Inr (BoolExpr Or args, R)"
    by (subst orExpr.simps) (simp add: ts)
qed

text \<open>A parenthesised expression is an operand.\<close>

lemma reads_parens:
  assumes "reads orExpr after_or (BoolExpr op args) q" and "q \<le> bool_prec op" and "bool_prec op < p"
  shows "reads unary after_unary (BoolExpr op args) p"
  unfolding reads_def
proof (intro allI impI)
  fix len ts R
  assume "map kv ts = ftoks (BoolExpr op args) p" and "after_unary R"
  with assms(2,3) have "map kv ts = (KLparen, ''('') # ftoks (BoolExpr op args) q @ [(KRparen, '')'')]"
    by (simp add: Let_def)
  then obtain t us u where ts: "ts = t # us @ [u]" and t: "kv t = (KLparen, ''('')"
    and us: "map kv us = ftoks (BoolExpr op args) q" and u: "kv u = (KRparen, '')'')"
    by (auto simp: map_kv_Cons map_kv_append simp del: ftoks.simps)
  from assms(1) us u have "orExpr len (us @ u # R) = Inr (BoolExpr op args, u # R)"
    by (auto simp: after_or_def kv_eq intro: readsD)
  with t u show "unary len (ts @ R) = Inr (BoolExpr op args, R)"
    by (subst unary.simps) (simp add: ts kv_eq isKeyword_def)
qed

section \<open>The round trip\<close>

text \<open>Where the serializer writes an expression without parentheses, and with which method
  the parser then meets it.\<close>

definition reads_back :: "FilterExpr \<Rightarrow> bool" where
  "reads_back e \<longleftrightarrow> reads orExpr after_or e 0 \<and>
     (\<not> is_bool Or e \<longrightarrow> reads andExpr after_and e 3) \<and>
     (\<not> is_bool And e \<longrightarrow> reads unary after_unary e 5) \<and> reads unary after_unary e 6"

lemma reads_back_operand: "(\<And>p. reads unary after_unary e p) \<Longrightarrow> reads_back e"
  by (simp add: reads_back_def unary_andExpr andExpr_orExpr)

lemma reads_back_bool:
  assumes can: "canonical (BoolExpr op args)" and args: "\<forall>a \<in> set args. reads_back a"
  shows "reads_back (BoolExpr op args)"
proof -
  have nested: "\<forall>a \<in> set args. \<not> is_bool op a" using can by (simp add: list_all_iff)
  have inner: "reads andExpr after_and (BoolExpr op args) p" if "op = And" "p \<le> 4" for p
    using can nested args that by (simp add: reads_And reads_back_def del: canonical.simps)
  have top: "reads orExpr after_or (BoolExpr op args) 0"
  proof (cases op)
    case And
    with inner [of 0] show ?thesis by (simp add: andExpr_orExpr)
  next
    case Or
    with can nested args show ?thesis by (simp add: reads_Or reads_back_def del: canonical.simps)
  qed
  then have "reads unary after_unary (BoolExpr op args) p" if "bool_prec op < p" for p
    using that by (intro reads_parens [of _ _ 0]) simp_all
  with top inner show ?thesis
    by (cases op) (simp_all add: reads_back_def is_bool_def bool_prec_def)
qed

lemma reads_back_not:
  assumes "reads_back a"
  shows "reads_back (NotExpr a)"
proof (rule reads_back_operand, unfold reads_def, intro allI impI)
  fix p len ts R
  assume "map kv ts = ftoks (NotExpr a) p" and R: "after_unary R"
  then obtain t us where ts: "ts = t # us" and t: "kv t = (KBare, ''NOT'')"
    and us: "map kv us = ftoks a 6" by (auto simp: map_kv_Cons)
  have "unary len (us @ R) = Inr (a, R)"
    using assms us R by (auto simp: reads_back_def intro: readsD)
  with t show "unary len (ts @ R) = Inr (NotExpr a, R)"
    by (subst unary.simps) (simp add: ts keyword_token)
qed

lemma canonical_reads_back: "canonical e \<Longrightarrow> reads_back e"
proof (induction e)
  case (BoolExpr op args)
  then show ?case by (intro reads_back_bool) (auto simp: list_all_iff)
next
  case (NotExpr a)
  then show ?case by (simp add: reads_back_not)
next
  case (TextExpr v)
  then show ?case by (intro reads_back_operand) (simp add: reads_def unary_text del: ftoks.simps)
next
  case (FieldValueExpr op f v)
  then show ?case by (intro reads_back_operand) (simp add: reads_def unary_value del: ftoks.simps)
next
  case (FieldValuesExpr op f vs)
  then show ?case by (intro reads_back_operand) (simp add: reads_def unary_values del: ftoks.simps)
next
  case (FieldExistsExpr op f)
  then show ?case by (intro reads_back_operand) (simp add: reads_def unary_exists del: ftoks.simps)
qed

lemma fmt_not_blank: "canonical e \<Longrightarrow> trim (fmt e p) \<noteq> []"
proof -
  assume "canonical e"
  have "ftoks e p \<noteq> []"
  proof (cases e)
    case (BoolExpr op args)
    have "ftoks a q \<noteq> []" if "canonical a" for a q
      using that
    proof (induction a arbitrary: q)
      case (BoolExpr op args)
      then obtain b bs where "args = b # bs" by (cases args) auto
      with BoolExpr show ?case by (auto simp: Let_def join_concat)
    next
      case (FieldExistsExpr op f)
      then show ?case by (cases op) auto
    qed auto
    with \<open>canonical e\<close> show ?thesis by blast
  next
    case (FieldExistsExpr op f)
    then show ?thesis by (cases op) auto
  qed auto
  moreover have "lexes (fmt e p) (ftoks e p)"
    using lex_fmt [of "[]" "[]" e p] by (simp add: ends_word_def lexes_Nil)
  moreover have "lexes s []" if "\<forall>c \<in> set s. is_space c" for s
    using that by (induction s) (auto simp: lexes_def tokenize_from.simps(2))
  ultimately show ?thesis
    unfolding trim_eq_Nil_iff lexes_def by (metis Inr_inject)
qed

lemma parse_fmt:
  assumes "canonical e"
  shows "parseFilter (fmt e 0) = Inr (Some e)"
proof -
  have "lexes (fmt e 0) (ftoks e 0)"
    using lex_fmt [of "[]" "[]" e 0] by (simp add: ends_word_def lexes_Nil)
  then obtain ts where "tokenize (fmt e 0) = Inr ts" and ts: "map kv ts = ftoks e 0"
    unfolding lexes_def tokenize_def by blast
  moreover have "orExpr (length (fmt e 0)) (ts @ []) = Inr (e, [])"
    by (rule readsD [where after = after_or, OF _ ts])
      (use canonical_reads_back [OF assms] in \<open>simp_all add: reads_back_def after_or_def\<close>)
  ultimately show ?thesis
    using fmt_not_blank [OF assms] by (simp add: parseFilter_def parse_def)
qed

section \<open>The parser only builds canonical ASTs\<close>

lemma flatten_arg_cases:
  "flatten_arg op a = [a] \<and> \<not> is_bool op a \<or> (\<exists>as. a = BoolExpr op as \<and> flatten_arg op a = as)"
  by (cases a) (simp_all add: flatten_arg_def is_bool_def)

lemma flatten_arg_canonical:
  assumes "canonical a"
  shows "list_all (\<lambda>b. canonical b \<and> \<not> is_bool op b) (flatten_arg op a)" and "flatten_arg op a \<noteq> []"
  using flatten_arg_cases [of op a] assms by (elim disjE exE conjE; simp; fastforce)+

lemma finish_args_canonical:
  assumes "args \<noteq> []" and "list_all canonical args"
  shows "canonical (finish_args op args)"
proof -
  have "list_all (\<lambda>b. canonical b \<and> \<not> is_bool op b) (concat (map (flatten_arg op) args))"
    using assms(2) by (induction args) (simp_all add: flatten_arg_canonical)
  moreover have "length args \<le> length (concat (map (flatten_arg op) args))"
    using assms(2)
  proof (induction args)
    case (Cons a args)
    then have "flatten_arg op a \<noteq> []" by (simp add: flatten_arg_canonical)
    with Cons show ?case by (cases "flatten_arg op a") auto
  qed simp
  ultimately show ?thesis
    using assms by (auto simp: finish_args_def flatten_def split: list.splits)
qed

lemma value_loop_nonempty: "value_loop len vs ts = Inr (us, r) \<Longrightarrow> vs \<noteq> [] \<Longrightarrow> us \<noteq> []"
  by (induction len vs ts rule: value_loop.induct) (auto split: if_splits list.splits)

lemma parse_list_canonical: "parse_list len l f ts = Inr (e, r) \<Longrightarrow> f \<noteq> [] \<Longrightarrow> canonical e"
  by (auto simp: parse_list_def split: list.splits if_splits sum.splits
      dest!: value_loop_nonempty [OF _ list.distinct(2)])

lemma parse_term_canonical: "parse_term len t ts = Inr (e, r) \<Longrightarrow> canonical e"
  by (auto simp: parse_term_def field_op_def split: if_splits list.splits sum.splits option.splits
      dest: parse_list_canonical)

lemma parse_bang_canonical: "parse_bang len ts = Inr (e, r) \<Longrightarrow> canonical e"
  by (auto simp: parse_bang_def split: if_splits list.splits)

lemma parser_canonical:
  "orExpr len ts = Inr (e, r) \<Longrightarrow> canonical e"
  "orLoop len args ts = Inr (e, r) \<Longrightarrow> args \<noteq> [] \<Longrightarrow> list_all canonical args \<Longrightarrow> canonical e"
  "andExpr len ts = Inr (e, r) \<Longrightarrow> canonical e"
  "andLoop len args ts = Inr (e, r) \<Longrightarrow> args \<noteq> [] \<Longrightarrow> list_all canonical args \<Longrightarrow> canonical e"
  "unary len ts = Inr (e, r) \<Longrightarrow> canonical e"
proof (induction len ts and len args ts and len ts and len args ts and len ts
    arbitrary: e r and e r and e r and e r and e r
    rule: orExpr_orLoop_andExpr_andLoop_unary.induct)
  case (1 len ts)
  then show ?case
    unfolding orExpr.simps [of len ts] by (fastforce split: sum.splits)
next
  case (2 len args ts)
  then show ?case
    unfolding orLoop.simps [of len args ts]
    by (fastforce split: sum.splits list.splits if_splits simp: finish_args_canonical)
next
  case (3 len ts)
  then show ?case
    unfolding andExpr.simps [of len ts] by (fastforce split: sum.splits)
next
  case (4 len args ts)
  then show ?case
    unfolding andLoop.simps [of len args ts]
    by (fastforce split: sum.splits list.splits if_splits simp: finish_args_canonical)
next
  case (5 len ts)
  then show ?case
    unfolding unary.simps [of len ts]
    by (fastforce split: sum.splits list.splits if_splits
        dest: parse_term_canonical parse_bang_canonical)
qed

section \<open>Properties\<close>

text \<open>C1. Printing a canonical filter and parsing the text gives the filter back: parentheses,
  quoting, escapes, keywords and operators of the printed text are all read the way they
  were meant.\<close>

theorem formatFilter_roundtrip:
  "canonical e \<Longrightarrow> parseFilter (formatFilter (Some e)) = Inr (Some e)"
  by (simp add: formatFilter_def parse_fmt)

definition sample_filter :: FilterExpr where
  "sample_filter =
     BoolExpr And
       [BoolExpr Or [FieldValueExpr Eq ''app name'' ''a\"b'', TextExpr ''not''],
        NotExpr (FieldValuesExpr Not_in ''severity'' [''err'', '''']),
        FieldExistsExpr Not_exists ''x'']"

theorem formatFilter_roundtrip_witness:
  "canonical sample_filter \<and> parseFilter (formatFilter (Some sample_filter)) = Inr (Some sample_filter)"
proof -
  have "canonical sample_filter" by (simp add: sample_filter_def is_bool_def)
  then show ?thesis using formatFilter_roundtrip by blast
qed

text \<open>C2. Whatever text the parser accepts, the filter it builds is canonical, so formatting it
  and parsing again is stable: the query bar can show the normalized text of any filter
  that was typed without changing it.\<close>

theorem parseFilter_stable:
  "parseFilter t = Inr (Some e) \<Longrightarrow> canonical e \<and> parseFilter (formatFilter (Some e)) = Inr (Some e)"
proof -
  assume "parseFilter t = Inr (Some e)"
  then have "canonical e"
    by (auto simp: parseFilter_def parse_def split: if_splits sum.splits list.splits
        dest: parser_canonical(1))
  then show ?thesis by (simp add: formatFilter_def parse_fmt)
qed

theorem parseFilter_stable_witness:
  "parseFilter ''a=1'' = Inr (Some (FieldValueExpr Eq ''a'' ''1'')) \<and>
   canonical (FieldValueExpr Eq ''a'' ''1'') \<and>
   parseFilter (formatFilter (Some (FieldValueExpr Eq ''a'' ''1''))) = Inr (Some (FieldValueExpr Eq ''a'' ''1''))"
proof -
  have "parseFilter ''a=1'' = Inr (Some (FieldValueExpr Eq ''a'' ''1''))" by code_simp
  with parseFilter_stable [OF this] show ?thesis by blast
qed

end
