(* ===== verification/Log_Fields.thy ===== *)
theory Log_Fields
  imports Prelude
begin

text \<open>
  Log rows and their fields: \<open>src/frontend/src/lib/fields.ts\<close> over the type \<open>LogRow\<close> of
  \<open>src/frontend/src/api/schema.d.ts\<close>. A row is its top-level properties as an association
  list of JSON scalars, the \<open>labels\<close> and \<open>fields\<close> objects as association lists in insertion
  order, and the \<open>_ref\<close> pair.
\<close>

section \<open>Rows\<close>

datatype JsonScalar = JStr string | JNum int | JBool bool | JNull

definition js_String :: "JsonScalar \<Rightarrow> string" where
  "js_String v =
     (case v of
        JStr s \<Rightarrow> s
      | JNum i \<Rightarrow> show_int i
      | JBool b \<Rightarrow> (if b then ''true'' else ''false'')
      | JNull \<Rightarrow> ''null'')"

record LogRow =
  row_props :: "(string \<times> JsonScalar) list"
  row_labels :: "(string \<times> string) list option"
  row_fields :: "(string \<times> string) list option"
  ref_stream_id :: string
  ref_time_ns :: string

section \<open>Field names\<close>

definition CORE_FIELDS :: "string list" where
  "CORE_FIELDS =
     [''timestamp'', ''received_at'', ''hostname'', ''source_ip'', ''source_port'', ''peer_ip'',
      ''facility'', ''facility_code'', ''severity'', ''severity_code'', ''priority'', ''protocol'',
      ''format'', ''app_name'', ''process_id'', ''message_id'', ''source'', ''source_type'',
      ''message'', ''raw_message'', ''parse_error'', ''time_source'', ''severity_source'',
      ''timestamp_raw'', ''truncated'', ''fields_dropped'']"

definition CORE_SET :: "string set" where
  "CORE_SET = set CORE_FIELDS"

definition apiFieldName :: "string \<Rightarrow> string" where
  "apiFieldName name =
     (if name = ''_time'' then ''timestamp'' else if name = ''_msg'' then ''message'' else name)"

definition HIDDEN_FIELDS :: "string set" where
  "HIDDEN_FIELDS = {''_stream'', ''_stream_id''}"

definition isCoreField :: "string \<Rightarrow> bool" where
  "isCoreField name \<longleftrightarrow> apiFieldName name \<in> CORE_SET"

definition DEFAULT_COLUMNS :: "string list" where
  "DEFAULT_COLUMNS = [''timestamp'', ''hostname'', ''severity'', ''app_name'', ''message'']"

definition PINNED_FACETS :: "string list" where
  "PINNED_FACETS = [''severity'', ''hostname'', ''facility'', ''app_name'', ''source'']"

section \<open>Reading a row\<close>

definition getField :: "LogRow \<Rightarrow> string \<Rightarrow> string option" where
  "getField row name =
     (let n = apiFieldName name in
      if n \<in> CORE_SET then
        (case map_of (row_props row) n of
           None \<Rightarrow> None
         | Some v \<Rightarrow> if v = JNull then None else Some (js_String v))
      else if startsWith n ''labels.'' then
        (case row_labels row of None \<Rightarrow> None | Some ls \<Rightarrow> map_of ls (drop 7 n))
      else (case row_fields row of None \<Rightarrow> None | Some fs \<Rightarrow> map_of fs n))"

record RowEntries =
  entries_core :: "(string \<times> string) list"
  entries_labels :: "(string \<times> string) list"
  entries_dynamic :: "(string \<times> string) list"

text \<open>\<open>leq\<close> is \<open>a.localeCompare(b) <= 0\<close>, the collation of the user's locale. The two objects
  are listed in the order of their association lists.\<close>

definition rowEntries :: "(string \<Rightarrow> string \<Rightarrow> bool) \<Rightarrow> LogRow \<Rightarrow> RowEntries" where
  "rowEntries leq row =
     (let core = concat (map (\<lambda>f. case getField row f of
                   None \<Rightarrow> []
                 | Some v \<Rightarrow> if v \<noteq> [] then [(f, v)] else []) CORE_FIELDS);
          labels = map (\<lambda>(k, v). (''labels.'' @ k, v))
                     (case row_labels row of None \<Rightarrow> [] | Some ls \<Rightarrow> ls);
          dynamic = (case row_fields row of None \<Rightarrow> [] | Some fs \<Rightarrow> fs)
      in \<lparr>entries_core = core,
          entries_labels = sort_by (\<lambda>a b. leq (fst a) (fst b)) labels,
          entries_dynamic = sort_by (\<lambda>a b. leq (fst a) (fst b)) dynamic\<rparr>)"

definition rowKey :: "LogRow \<Rightarrow> nat \<Rightarrow> string" where
  "rowKey row index = ref_stream_id row @ '':'' @ ref_time_ns row @ '':'' @ show_nat index"

section \<open>What the detail pane lists is what a filter reads\<close>

text \<open>An object of a row: distinct keys, and no dynamic field under the name of a core field
  or in the label name space (the storage keeps those apart).\<close>

definition row_wf :: "LogRow \<Rightarrow> bool" where
  "row_wf row \<longleftrightarrow>
     (case row_labels row of None \<Rightarrow> True | Some ls \<Rightarrow> distinct (map fst ls)) \<and>
     (case row_fields row of None \<Rightarrow> True | Some fs \<Rightarrow>
        distinct (map fst fs) \<and>
        list_all (\<lambda>(k, v). k = apiFieldName k \<and> k \<notin> CORE_SET \<and> \<not> startsWith k ''labels.'') fs)"

lemma apiFieldName_idem [simp]: "apiFieldName (apiFieldName n) = apiFieldName n"
  by (simp add: apiFieldName_def)

lemma apiFieldName_core: "f \<in> set CORE_FIELDS \<Longrightarrow> apiFieldName f = f"
  by (auto simp: CORE_FIELDS_def apiFieldName_def)

lemma distinct_CORE_FIELDS: "distinct CORE_FIELDS"
  by code_simp

lemma getField_alias: "getField row (apiFieldName n) = getField row n"
  by (simp add: getField_def)

lemma label_not_core: "startsWith f ''labels.'' \<Longrightarrow> f \<notin> CORE_SET"
  by (auto simp: CORE_SET_def CORE_FIELDS_def startsWith_def)

lemma label_apiFieldName: "apiFieldName (''labels.'' @ k) = ''labels.'' @ k"
  by (simp add: apiFieldName_def)

lemma getField_label:
  "getField row (''labels.'' @ k) = (case row_labels row of None \<Rightarrow> None | Some ls \<Rightarrow> map_of ls k)"
proof -
  have "startsWith (''labels.'' @ k) ''labels.''" by (rule startsWith_append)
  moreover from this have "''labels.'' @ k \<notin> CORE_SET" by (rule label_not_core)
  moreover have "drop 7 (''labels.'' @ k) = k" by (simp add: numeral_eq_Suc)
  ultimately show ?thesis
    unfolding getField_def label_apiFieldName Let_def by (simp only: if_True if_False)
qed

lemma getField_dynamic:
  "apiFieldName k = k \<Longrightarrow> k \<notin> CORE_SET \<Longrightarrow> \<not> startsWith k ''labels.'' \<Longrightarrow>
   getField row k = (case row_fields row of None \<Rightarrow> None | Some fs \<Rightarrow> map_of fs k)"
  by (simp add: getField_def)

lemma rowEntries_core:
  "(f, v) \<in> set (entries_core (rowEntries leq row)) \<longleftrightarrow>
   f \<in> set CORE_FIELDS \<and> getField row f = Some v \<and> v \<noteq> []"
  by (auto simp: rowEntries_def split: option.splits if_splits)

lemma rowEntries_readable:
  assumes "row_wf row"
    and "(f, v) \<in> set (entries_core (rowEntries leq row) @ entries_labels (rowEntries leq row) @
                      entries_dynamic (rowEntries leq row))"
  shows "getField row f = Some v"
proof -
  consider (core) "(f, v) \<in> set (entries_core (rowEntries leq row))"
    | (label) ls k where "row_labels row = Some ls" "(k, v) \<in> set ls" "f = ''labels.'' @ k"
    | (dynamic) fs where "row_fields row = Some fs" "(f, v) \<in> set fs"
    using assms(2) by (force simp: rowEntries_def split: option.splits)
  then show ?thesis
  proof cases
    case core
    then show ?thesis by (simp add: rowEntries_core)
  next
    case label
    with assms(1) show ?thesis by (simp only: getField_label) (simp add: row_wf_def)
  next
    case dynamic
    with assms(1) have "apiFieldName f = f" "f \<notin> CORE_SET" "\<not> startsWith f ''labels.''"
        "distinct (map fst fs)"
      by (auto simp: row_wf_def list_all_iff)
    with dynamic show ?thesis by (simp add: getField_dynamic)
  qed
qed

section \<open>Properties\<close>

text \<open>C8. Every name and value the detail pane lists for a row, core, label or dynamic, is what a
  filter on that name reads from the row.\<close>

theorem rowEntries_getField:
  "row_wf row \<Longrightarrow>
   (f, v) \<in> set (entries_core (rowEntries leq row) @ entries_labels (rowEntries leq row) @
                 entries_dynamic (rowEntries leq row)) \<Longrightarrow>
   getField row f = Some v"
  by (rule rowEntries_readable)

definition sample_row :: LogRow where
  "sample_row =
     \<lparr>row_props = [(''timestamp'', JStr ''t''), (''severity_code'', JNum 3), (''message'', JStr ''hi'')],
      row_labels = Some [(''site'', ''hq'')], row_fields = Some [(''user'', ''ann'')],
      ref_stream_id = ''s'', ref_time_ns = ''1''\<rparr>"

theorem rowEntries_getField_witness:
  "getField sample_row ''labels.site'' = Some ''hq''"
proof (rule rowEntries_getField [where leq = "\<lambda>a b. True"])
  show "row_wf sample_row" by code_simp
  show "(''labels.site'', ''hq'') \<in> set (entries_core (rowEntries (\<lambda>a b. True) sample_row) @
      entries_labels (rowEntries (\<lambda>a b. True) sample_row) @ entries_dynamic (rowEntries (\<lambda>a b. True) sample_row))"
    by code_simp
qed

end
