(* ===== verification/Time_Range.thy ===== *)
theory Time_Range
  imports Prelude Js_Numbers
begin

text \<open>
  Time range expressions: \<open>src/frontend/src/lib/time-range.ts\<close> and the custom range inputs of
  \<open>src/frontend/src/features/time-range/time-input.ts\<close>.

  A \<open>Date\<close> is its time value in milliseconds, \<^const>\<open>None\<close> for an invalid one. Three things are parameters:
  \<open>parse_date\<close>, the time value \<open>new Date\<close> gives a text, \<open>to_iso\<close>, the text \<open>toISOString\<close> gives a time
  value, and what \<open>TZDate\<close> of \<open>@date-fns/tz\<close> knows of time zones: the start of a day (\<open>day_start\<close>)
  and the instant of a wall-clock time (\<open>tz_time\<close>). The law the code relies on for the first two is \<open>iso_text\<close>.
\<close>

section \<open>Dates\<close>

text \<open>\<open>new Date(number)\<close>: truncated to milliseconds, invalid beyond 100 million days.\<close>

definition new_Date :: "rat \<Rightarrow> int option" where
  "new_Date t = (if \<bar>t\<bar> \<le> 8640000000000000 then Some (trunc_rat t) else None)"

fun date_ge :: "int option \<Rightarrow> int option \<Rightarrow> bool" where
  "date_ge (Some a) (Some b) = (b \<le> a)"
| "date_ge _ _ = False"

fun date_gt :: "int option \<Rightarrow> int option \<Rightarrow> bool" where
  "date_gt (Some a) (Some b) = (b < a)"
| "date_gt _ _ = False"

section \<open>Fixed patterns\<close>

text \<open>Reads a fixed sequence of character classes; the rest of the text, when it matches.\<close>

fun eat :: "(char \<Rightarrow> bool) list \<Rightarrow> string \<Rightarrow> string option" where
  "eat [] s = Some s"
| "eat (p # ps) (c # s) = (if p c then eat ps s else None)"
| "eat (p # ps) [] = None"

definition lit :: "string \<Rightarrow> (char \<Rightarrow> bool) list" where
  "lit w = map (\<lambda>c d. d = c) w"

definition digits_n :: "nat \<Rightarrow> (char \<Rightarrow> bool) list" where
  "digits_n n = replicate n is_digit"

definition date_pattern :: "(char \<Rightarrow> bool) list" where
  "date_pattern = digits_n 4 @ lit ''-'' @ digits_n 2 @ lit ''-'' @ digits_n 2"

definition minute_pattern :: "(char \<Rightarrow> bool) list" where
  "minute_pattern = digits_n 2 @ lit '':'' @ digits_n 2"

definition second_pattern :: "(char \<Rightarrow> bool) list" where
  "second_pattern = lit '':'' @ digits_n 2"

definition zone_suffix :: "string \<Rightarrow> bool" where
  "zone_suffix s \<longleftrightarrow>
     s = ''Z'' \<or> s = ''z'' \<or> eat ([\<lambda>c. c = CHR ''+'' \<or> c = CHR ''-''] @ minute_pattern) s = Some []"

definition fraction_zone :: "string \<Rightarrow> bool" where
  "fraction_zone s \<longleftrightarrow>
     zone_suffix s \<or>
     (case s of
        c # r \<Rightarrow> c = CHR ''.'' \<and> takeWhile is_digit r \<noteq> [] \<and> zone_suffix (dropWhile is_digit r)
      | [] \<Rightarrow> False)"

definition RFC3339_RE :: "string \<Rightarrow> bool" where
  "RFC3339_RE s =
     (case eat (date_pattern @ [\<lambda>c. c = CHR ''T'' \<or> c = CHR ''t''] @ minute_pattern) s of
        None \<Rightarrow> False
      | Some r \<Rightarrow> zone_suffix r \<or> (case eat second_pattern r of None \<Rightarrow> False | Some q \<Rightarrow> fraction_zone q))"

section \<open>Expressions\<close>

record Preset =
  pr_from :: string
  pr_label :: string
  pr_short :: string

definition PRESETS :: "Preset list" where
  "PRESETS =
    [\<lparr>pr_from = ''now-5m'', pr_label = ''Last 5 minutes'', pr_short = ''5m''\<rparr>,
     \<lparr>pr_from = ''now-15m'', pr_label = ''Last 15 minutes'', pr_short = ''15m''\<rparr>,
     \<lparr>pr_from = ''now-30m'', pr_label = ''Last 30 minutes'', pr_short = ''30m''\<rparr>,
     \<lparr>pr_from = ''now-1h'', pr_label = ''Last 1 hour'', pr_short = ''1h''\<rparr>,
     \<lparr>pr_from = ''now-3h'', pr_label = ''Last 3 hours'', pr_short = ''3h''\<rparr>,
     \<lparr>pr_from = ''now-6h'', pr_label = ''Last 6 hours'', pr_short = ''6h''\<rparr>,
     \<lparr>pr_from = ''now-12h'', pr_label = ''Last 12 hours'', pr_short = ''12h''\<rparr>,
     \<lparr>pr_from = ''now-24h'', pr_label = ''Last 24 hours'', pr_short = ''24h''\<rparr>,
     \<lparr>pr_from = ''now-7d'', pr_label = ''Last 7 days'', pr_short = ''7d''\<rparr>,
     \<lparr>pr_from = ''now-30d'', pr_label = ''Last 30 days'', pr_short = ''30d''\<rparr>]"

definition UNIT_MS :: "(char \<times> int) list" where
  "UNIT_MS = [(CHR ''s'', 1000), (CHR ''m'', 60000), (CHR ''h'', 3600000), (CHR ''d'', 86400000), (CHR ''w'', 604800000)]"

definition time_unit :: "char \<Rightarrow> bool" where
  "time_unit c \<longleftrightarrow> c \<in> set ''smhdw''"

definition unit_ms :: "char \<Rightarrow> int" where
  "unit_ms c = orElse (map_of UNIT_MS c) 0"

text \<open>\<open>\d+\<close> and a unit at the start of a text: the digits, the unit and the rest.\<close>

definition amount :: "string \<Rightarrow> (string \<times> char \<times> string) option" where
  "amount s =
     (case dropWhile is_digit s of
        u # r \<Rightarrow> if takeWhile is_digit s \<noteq> [] \<and> time_unit u then Some (takeWhile is_digit s, u, r) else None
      | [] \<Rightarrow> None)"

text \<open>The groups of \<open>RELATIVE_RE\<close>: sign, digits and unit when there is an offset, and whether \<open>/d\<close> follows.\<close>

definition day_suffix :: "string \<Rightarrow> bool option" where
  "day_suffix s = (if s = [] then Some False else if s = ''/d'' then Some True else None)"

definition RELATIVE_RE :: "string \<Rightarrow> ((char \<times> string \<times> char) option \<times> bool) option" where
  "RELATIVE_RE e =
     (if \<not> startsWith e ''now'' then None
      else case drop 3 e of
        c # r \<Rightarrow>
          if c = CHR ''+'' \<or> c = CHR ''-'' then
            (case amount r of
               None \<Rightarrow> None
             | Some (n, u, q) \<Rightarrow> map_option (Pair (Some (c, n, u))) (day_suffix q))
          else map_option (Pair None) (day_suffix (c # r))
      | [] \<Rightarrow> Some (None, False))"

definition isRelative :: "string \<Rightarrow> bool" where
  "isRelative expr \<longleftrightarrow> RELATIVE_RE (trim expr) \<noteq> None"

definition time_error :: "string \<Rightarrow> string" where
  "time_error expr = ''Invalid time '' @ [DQ] @ expr @ [DQ] @ ''. Use RFC 3339 (2026-09-14T10:00:00Z) or now-15m.''"

definition shifted :: "int \<Rightarrow> (char \<times> string \<times> char) option \<Rightarrow> int" where
  "shifted now offset =
     (case offset of
        None \<Rightarrow> now
      | Some (sign, n, u) \<Rightarrow>
          let delta = int (read_nat n) * unit_ms u in if sign = CHR ''-'' then now - delta else now + delta)"

text \<open>The result is an error message or a date.\<close>

definition resolveExpr ::
  "(string \<Rightarrow> int option) \<Rightarrow> (int \<Rightarrow> string \<Rightarrow> int option) \<Rightarrow> string \<Rightarrow> int \<Rightarrow> string \<Rightarrow> string + int option" where
  "resolveExpr parse_date day_start expr now tz =
     (let e = trim expr in
      case RELATIVE_RE e of
        Some (offset, day) \<Rightarrow>
          (let t = shifted now offset in
           Inr (if day then Option.bind (day_start t tz) (\<lambda>d. new_Date (of_int d)) else new_Date (of_int t)))
      | None \<Rightarrow>
          if RFC3339_RE e \<and> parse_date e \<noteq> None then Inr (parse_date e) else Inl (time_error expr))"

definition resolveRange ::
  "(string \<Rightarrow> int option) \<Rightarrow> (int \<Rightarrow> string \<Rightarrow> int option) \<Rightarrow> string \<Rightarrow> string \<Rightarrow> int \<Rightarrow> string \<Rightarrow>
     string + int option \<times> int option" where
  "resolveRange parse_date day_start from to now tz =
     (case resolveExpr parse_date day_start from now tz of
        Inl e \<Rightarrow> Inl e
      | Inr s \<Rightarrow>
          (case resolveExpr parse_date day_start to now tz of
             Inl e \<Rightarrow> Inl e
           | Inr d \<Rightarrow> if date_ge s d then Inl ''Start must be before end.'' else Inr (s, d)))"

definition parseQuickInput :: "string \<Rightarrow> string option" where
  "parseQuickInput inp =
     (let s = toLowerCase (trim inp); n = takeWhile is_digit s; u = trimStart (dropWhile is_digit s) in
      if n \<noteq> [] \<and> length u = 1 \<and> time_unit (hd u) \<and> 0 < read_nat n then Some (''now-'' @ n @ u)
      else if RELATIVE_RE s \<noteq> None \<and> s \<noteq> ''now'' then Some s
      else None)"

definition unit_names :: "(char \<times> string) list" where
  "unit_names = [(CHR ''s'', ''second''), (CHR ''m'', ''minute''), (CHR ''h'', ''hour''), (CHR ''d'', ''day''), (CHR ''w'', ''week'')]"

definition relative_label :: "string \<Rightarrow> string option" where
  "relative_label from =
     (if \<not> startsWith from ''now-'' then None
      else case amount (drop 4 from) of
        Some (n, u, []) \<Rightarrow>
          Some (''Last '' @ show_nat (read_nat n) @ '' '' @ orElse (map_of unit_names u) [] @
                (if read_nat n = 1 then [] else ''s''))
      | _ \<Rightarrow> None)"

definition range_end_label :: "(string \<Rightarrow> int option) \<Rightarrow> (int option \<Rightarrow> string) \<Rightarrow> string \<Rightarrow> string" where
  "range_end_label parse_date formatAbsolute e = (if isRelative e then e else formatAbsolute (parse_date e))"

definition rangeLabel :: "(string \<Rightarrow> int option) \<Rightarrow> string \<Rightarrow> string \<Rightarrow> (int option \<Rightarrow> string) \<Rightarrow> string" where
  "rangeLabel parse_date from to formatAbsolute =
     (let both = range_end_label parse_date formatAbsolute from @ '' '' @ ARROW @ '' '' @
                 range_end_label parse_date formatAbsolute to in
      if to = ''now'' then
        (case List.find (\<lambda>p. pr_from p = from) PRESETS of
           Some p \<Rightarrow> pr_label p
         | None \<Rightarrow> orElse (relative_label from) both)
      else both)"

definition date_diff :: "int option \<Rightarrow> int option \<Rightarrow> int option" where
  "date_diff a b = (case (a, b) of (Some x, Some y) \<Rightarrow> Some (x - y) | _ \<Rightarrow> None)"

definition rangeDurationMs ::
  "(string \<Rightarrow> int option) \<Rightarrow> (int \<Rightarrow> string \<Rightarrow> int option) \<Rightarrow> string \<Rightarrow> string \<Rightarrow> int \<Rightarrow> string + int option" where
  "rangeDurationMs parse_date day_start from to now =
     map_sum id (\<lambda>(s, d). date_diff d s) (resolveRange parse_date day_start from to now ''UTC'')"

text \<open>\<open>toISOString\<close> throws on an invalid date.\<close>

definition toISOString :: "(int \<Rightarrow> string) \<Rightarrow> int option \<Rightarrow> string + string" where
  "toISOString to_iso d = (case d of None \<Rightarrow> Inl ''Invalid time value'' | Some t \<Rightarrow> Inr (to_iso t))"

definition iso_pair :: "(int \<Rightarrow> string) \<Rightarrow> int option \<Rightarrow> int option \<Rightarrow> string + string \<times> string" where
  "iso_pair to_iso a b =
     (case toISOString to_iso a of
        Inl e \<Rightarrow> Inl e
      | Inr x \<Rightarrow> map_sum id (Pair x) (toISOString to_iso b))"

definition zoomOut ::
  "(string \<Rightarrow> int option) \<Rightarrow> (int \<Rightarrow> string) \<Rightarrow> (int \<Rightarrow> string \<Rightarrow> int option) \<Rightarrow> string \<Rightarrow> string \<Rightarrow> int \<Rightarrow> string \<Rightarrow>
     string + string \<times> string" where
  "zoomOut parse_date to_iso day_start from to now tz =
     (case resolveRange parse_date day_start from to now tz of
        Inl e \<Rightarrow> Inl e
      | Inr (Some s, Some d) \<Rightarrow>
          (let dur = d - s;
               first = new_Date (of_int s - of_int dur / 2);
               last = new_Date (of_int d + of_int dur / 2)
           in if date_gt last (Some now) \<and> to = ''now'' then
                Inr (''now-'' @ show_int (Math_round (of_int (dur * 2) / 1000)) @ ''s'', ''now'')
              else iso_pair to_iso first (if date_gt last (Some now) then Some now else last))
      | Inr _ \<Rightarrow> Inl ''Invalid time value'')"

definition MAX_DEFAULT_RANGE_MS :: int where
  "MAX_DEFAULT_RANGE_MS = 31 * unit_ms (CHR ''d'')"

section \<open>Custom ranges\<close>

text \<open>The fields of a \<open>datetime-local\<close> value: year, month, day, hour, minute and second.\<close>

definition LOCAL_RE :: "string \<Rightarrow> nat list option" where
  "LOCAL_RE s =
     (if eat (date_pattern @ lit ''T'' @ minute_pattern) s = Some [] then
        Some (map read_nat [take 4 s, take 2 (drop 5 s), take 2 (drop 8 s), take 2 (drop 11 s), take 2 (drop 14 s)] @ [0])
      else if eat (date_pattern @ lit ''T'' @ minute_pattern @ second_pattern) s = Some [] then
        Some (map read_nat [take 4 s, take 2 (drop 5 s), take 2 (drop 8 s), take 2 (drop 11 s), take 2 (drop 14 s),
                            take 2 (drop 17 s)])
      else None)"

definition localInputToISO ::
  "(int \<Rightarrow> string) \<Rightarrow> (nat list \<Rightarrow> string \<Rightarrow> int option) \<Rightarrow> string \<Rightarrow> string \<Rightarrow> string option" where
  "localInputToISO to_iso tz_time v tz =
     (case LOCAL_RE v of
        None \<Rightarrow> None
      | Some parts \<Rightarrow> map_option to_iso (tz_time parts tz))"

definition validateCustomRange ::
  "(string \<Rightarrow> int option) \<Rightarrow> (int \<Rightarrow> string) \<Rightarrow> (nat list \<Rightarrow> string \<Rightarrow> int option) \<Rightarrow> string \<Rightarrow> string \<Rightarrow> string \<Rightarrow>
     int option \<Rightarrow> string option" where
  "validateCustomRange parse_date to_iso tz_time start end1 tz maxRangeMs =
     (let s = orElse (localInputToISO to_iso tz_time start tz) [];
          e = orElse (localInputToISO to_iso tz_time end1 tz) [] in
      if s = [] then Some ''Enter a valid start date and time.''
      else if e = [] then Some ''Enter a valid end date and time.''
      else if date_ge (parse_date s) (parse_date e) then Some ''Start must be before end.''
      else case (maxRangeMs, date_diff (parse_date e) (parse_date s)) of
        (Some m, Some d) \<Rightarrow>
          if m \<noteq> 0 \<and> m < d then
            Some (''The range may not exceed '' @ show_int (Math_round (of_int m / 86400000)) @ '' days.'')
          else None
      | _ \<Rightarrow> None)"

section \<open>Facts\<close>

text \<open>What the code relies on for the texts of dates: for the years 0 to 9999 \<open>toISOString\<close> writes an RFC 3339
  text without blanks around it, and reading it gives the date back.\<close>

definition iso_ms :: "int \<Rightarrow> bool" where
  "iso_ms t \<longleftrightarrow> -62167219200000 \<le> t \<and> t < 253402300800000"

definition iso_text :: "(string \<Rightarrow> int option) \<Rightarrow> (int \<Rightarrow> string) \<Rightarrow> bool" where
  "iso_text parse_date to_iso \<longleftrightarrow>
     (\<forall>t. iso_ms t \<longrightarrow> RFC3339_RE (to_iso t) \<and> trimmed (to_iso t) \<and> parse_date (to_iso t) = Some t)"

lemma not_relative_rfc: "RFC3339_RE e \<Longrightarrow> RELATIVE_RE e = None"
proof (rule ccontr)
  assume r: "RFC3339_RE e" and "RELATIVE_RE e \<noteq> None"
  then have "startsWith e ''now''" by (auto simp: RELATIVE_RE_def split: if_splits)
  then obtain q where "e = CHR ''n'' # q" by (auto simp: startsWith_iff)
  then show False using r by (auto simp: RFC3339_RE_def date_pattern_def digits_n_def numeral_eq_Suc is_digit_def)
qed

lemma resolve_iso:
  assumes "iso_text parse_date to_iso" and "iso_ms t"
  shows "resolveExpr parse_date day_start (to_iso t) now tz = Inr (Some t)"
  using assms not_relative_rfc by (auto simp: resolveExpr_def iso_text_def trim_id Let_def)

lemma trunc_rat_int [simp]: "trunc_rat (of_int i) = i"
  by (simp add: trunc_rat_def)

lemma new_Date_int: "\<bar>t\<bar> \<le> 8640000000000000 \<Longrightarrow> new_Date (of_int t) = Some t"
  by (simp add: new_Date_def)

lemma resolve_now:
  assumes "\<bar>now\<bar> \<le> 8640000000000000"
  shows "resolveExpr parse_date day_start ''now'' now tz = Inr (Some now)"
proof -
  have "trim ''now'' = ''now''" by (simp add: trim_id trimmed_def is_space_def)
  then show ?thesis using assms by (simp add: resolveExpr_def RELATIVE_RE_def shifted_def new_Date_int)
qed

lemma takeWhile_digits: "all_digits n \<Longrightarrow> \<not> is_digit u \<Longrightarrow> takeWhile is_digit (n @ u # r) = n"
  by (simp add: all_digits_def list_all_iff takeWhile_append)

lemma dropWhile_digits: "all_digits n \<Longrightarrow> \<not> is_digit u \<Longrightarrow> dropWhile is_digit (n @ u # r) = u # r"
  by (simp add: all_digits_def list_all_iff dropWhile_append)

lemma unit_not_digit: "time_unit u \<Longrightarrow> \<not> is_digit u \<and> \<not> is_space u"
  by (auto simp: time_unit_def is_digit_def is_space_def)

lemma amount_digits:
  assumes "all_digits n" and "time_unit u"
  shows "amount (n @ u # r) = Some (n, u, r)"
  using assms unit_not_digit [of u]
  by (simp add: amount_def takeWhile_digits dropWhile_digits) (simp add: all_digits_def)

lemma trim_now: "all_digits n \<Longrightarrow> time_unit u \<Longrightarrow> trim (''now-'' @ n @ [u]) = ''now-'' @ n @ [u]"
  by (rule trim_id) (simp add: trimmed_def unit_not_digit is_space_def [of "CHR ''n''"])

lemma resolve_ago:
  assumes "all_digits n" and "time_unit u" and "\<bar>now - int (read_nat n) * unit_ms u\<bar> \<le> 8640000000000000"
  shows "resolveExpr parse_date day_start (''now-'' @ n @ [u]) now tz = Inr (Some (now - int (read_nat n) * unit_ms u))"
proof -
  have "RELATIVE_RE (''now-'' @ n @ [u]) = Some (Some (CHR ''-'', n, u), False)"
    using assms amount_digits [of n u "[]"] by (simp add: RELATIVE_RE_def day_suffix_def)
  then show ?thesis
    using assms(1,2) trim_now new_Date_int [OF assms(3)] by (simp add: resolveExpr_def shifted_def)
qed

lemma unit_ms_pos: "time_unit u \<Longrightarrow> 1000 \<le> unit_ms u"
  by (auto simp: time_unit_def unit_ms_def UNIT_MS_def)

lemma trimStart_single: "trimStart s = [u] \<Longrightarrow> \<exists>sp. s = sp @ [u] \<and> list_all is_space sp"
  unfolding trimStart_def
  by (rule exI [of _ "takeWhile is_space s"]) (metis list.pred_set set_takeWhileD takeWhile_dropWhile_id)

lemma lower_plain: "is_digit c \<or> is_space c \<or> time_unit c \<Longrightarrow> lower_char c = c"
  by (auto simp: is_digit_def is_space_def time_unit_def lower_char_def Let_def)

lemma quick_text:
  assumes "all_digits n" and "time_unit u" and "list_all is_space sp"
  shows "toLowerCase (trim (n @ sp @ [u])) = n @ sp @ [u]"
proof -
  have "trimmed (n @ sp @ [u])"
    using assms unit_not_digit [of u] by (cases n) (auto simp: trimmed_def all_digits_def digit_not_space)
  moreover have "toLowerCase (n @ sp @ [u]) = n @ sp @ [u]"
    using assms by (auto simp: toLowerCase_def all_digits_def list_all_iff lower_plain intro!: map_idI)
  ultimately show ?thesis by (simp add: trim_id)
qed

lemma trimStart_spaces: "list_all is_space sp \<Longrightarrow> \<not> is_space u \<Longrightarrow> trimStart (sp @ [u]) = [u]"
  by (simp add: trimStart_def list_all_iff dropWhile_append)

lemma parseQuickInput_short:
  assumes "all_digits n" and "time_unit u" and "list_all is_space sp" and "0 < read_nat n"
  shows "parseQuickInput (n @ sp @ [u]) = Some (''now-'' @ n @ [u])"
proof -
  obtain c r where c: "sp @ [u] = c # r" by (cases sp) auto
  have "\<not> is_digit c"
    using c assms unit_not_digit [of u] digit_not_space by (cases sp) auto
  then have "takeWhile is_digit (n @ sp @ [u]) = n" "dropWhile is_digit (n @ sp @ [u]) = sp @ [u]"
    using assms(1) takeWhile_digits dropWhile_digits unfolding c by blast+
  moreover have "trimStart (sp @ [u]) = [u]" using assms unit_not_digit by (simp add: trimStart_spaces)
  moreover have "n \<noteq> []" using assms(1) by (simp add: all_digits_def)
  ultimately show ?thesis
    unfolding parseQuickInput_def quick_text [OF assms(1-3)] using assms by simp
qed

lemma relative_ago: "all_digits n \<Longrightarrow> time_unit u \<Longrightarrow> isRelative (''now-'' @ n @ [u])"
  using amount_digits [of n u "[]"] trim_now [of n u] by (simp add: isRelative_def RELATIVE_RE_def day_suffix_def)

lemma relative_resolves: "isRelative e \<Longrightarrow> \<not> isl (resolveExpr parse_date day_start e now tz)"
  by (auto simp: isRelative_def resolveExpr_def Let_def)

lemma is_space_code: "is_space c \<longleftrightarrow> (of_char c :: nat) \<in> {9, 10, 11, 12, 13, 32, 160}"
  by (simp add: is_space_def flip: of_char_eq_iff [where 'a = nat])

lemma is_space_lower: "is_space (lower_char c) = is_space c"
proof -
  have "(of_char c :: nat) \<le> 222 \<Longrightarrow> (of_char (char_of (of_char c + 32 :: nat) :: char) :: nat) = of_char c + 32"
    by simp
  then show ?thesis by (auto simp: is_space_code lower_char_def Let_def)
qed

lemma toLowerCase_trimmed: "trimmed (toLowerCase (trim s))"
proof (cases "trim s = []")
  case False
  have "trimmed (trim s)" by simp
  with False show ?thesis by (simp add: trimmed_def toLowerCase_def hd_map last_map is_space_lower)
qed (simp add: trimmed_def)

lemma parseQuickInput_relative: "parseQuickInput inp = Some e \<Longrightarrow> isRelative e"
proof -
  assume p: "parseQuickInput inp = Some e"
  let ?s = "toLowerCase (trim inp)"
  let ?n = "takeWhile is_digit ?s" and ?u = "trimStart (dropWhile is_digit ?s)"
  show "isRelative e"
  proof (cases "?n \<noteq> [] \<and> length ?u = 1 \<and> time_unit (hd ?u) \<and> 0 < read_nat ?n")
    case True
    then obtain u where u: "?u = [u]" "time_unit u" by (auto simp: length_Suc_conv)
    have "all_digits ?n" using True set_takeWhileD by (fastforce simp: all_digits_def list_all_iff)
    moreover have "e = ''now-'' @ ?n @ [u]" using p True u by (simp add: parseQuickInput_def Let_def)
    ultimately show ?thesis using relative_ago u by blast
  next
    case False
    then have "RELATIVE_RE ?s \<noteq> None" "e = ?s"
      using p by (auto simp: parseQuickInput_def Let_def split: if_splits)
    then show ?thesis by (simp add: isRelative_def trim_id [OF toLowerCase_trimmed])
  qed
qed

lemma trunc_rat_near: "q - 1 < of_int (trunc_rat q)" "of_int (trunc_rat q) < q + 1"
  by (auto simp: trunc_rat_def) linarith+

lemma show_int_nonneg: "0 \<le> i \<Longrightarrow> show_int i = show_nat (nat i)"
  by (simp add: show_int_def)

lemma resolveRange_to_now:
  assumes "resolveRange parse_date day_start from ''now'' now tz = Inr (Some s, Some d)" and "\<bar>now\<bar> \<le> 8640000000000000"
  shows "d = now"
  using assms resolve_now by (auto simp: resolveRange_def split: sum.splits if_splits)

lemma resolveRange_iso:
  assumes "iso_text parse_date to_iso" and "iso_ms s" and "iso_ms d" and "s < d"
  shows "resolveRange parse_date day_start (to_iso s) (to_iso d) now tz = Inr (Some s, Some d)"
  using assms resolve_iso by (simp add: resolveRange_def)

lemma zoom_seconds:
  fixes dur :: int
  assumes "500 \<le> dur"
  defines "n \<equiv> Math_round (of_int (dur * 2) / 1000)"
  shows "1 \<le> n" "n * 1000 \<le> 2 * dur + 500" "2 * dur \<le> n * 1000 + 500"
proof -
  have "\<bar>of_int n - of_int (dur * 2) / 1000\<bar> \<le> (1 / 2 :: rat)" unfolding n_def by (rule Math_round_near)
  then have "(of_int (n * 1000) :: rat) \<le> of_int (2 * dur + 500)" "(of_int (2 * dur) :: rat) \<le> of_int (n * 1000 + 500)"
    by (simp_all add: abs_le_iff field_simps)
  then show lo: "2 * dur \<le> n * 1000 + 500" and "n * 1000 \<le> 2 * dur + 500"
    by (simp_all only: of_int_le_iff)
  then show "1 \<le> n" using assms(1) by linarith
qed

lemma new_Date_near:
  fixes t h :: int
  assumes "\<bar>t\<bar> \<le> 1000000000000000" and "0 \<le> h" and "h \<le> 1000000000000000"
  shows "\<exists>d. new_Date (of_int t + of_int h / 2) = Some d \<and> 2 * t + h - 1 \<le> 2 * d \<and> 2 * d \<le> 2 * t + h + 1"
    and "\<exists>d. new_Date (of_int t - of_int h / 2) = Some d \<and> 2 * t - h - 1 \<le> 2 * d \<and> 2 * d \<le> 2 * t - h + 1"
proof -
  have near: "\<exists>d. new_Date q = Some d \<and> k - 1 \<le> 2 * d \<and> 2 * d \<le> k + 1"
    if "q * 2 = of_int k" and "\<bar>k\<bar> \<le> 4000000000000000" for q k
  proof -
    have "\<bar>of_int k\<bar> \<le> (4000000000000000 :: rat)" using that(2) by (metis of_int_abs of_int_le_numeral_iff)
    then have "\<bar>q\<bar> \<le> 8640000000000000" using that(1) by (simp add: abs_le_iff)
    moreover have "(of_int (k - 2) :: rat) < of_int (2 * trunc_rat q)" "(of_int (2 * trunc_rat q) :: rat) < of_int (k + 2)"
      using trunc_rat_near [of q] that(1) by simp_all
    then have "k - 2 < 2 * trunc_rat q" "2 * trunc_rat q < k + 2" by (simp_all only: of_int_less_iff)
    ultimately show ?thesis by (auto simp: new_Date_def)
  qed
  show "\<exists>d. new_Date (of_int t + of_int h / 2) = Some d \<and> 2 * t + h - 1 \<le> 2 * d \<and> 2 * d \<le> 2 * t + h + 1"
    using near [of "of_int t + of_int h / 2" "2 * t + h"] assms by (simp add: abs_le_iff)
  show "\<exists>d. new_Date (of_int t - of_int h / 2) = Some d \<and> 2 * t - h - 1 \<le> 2 * d \<and> 2 * d \<le> 2 * t - h + 1"
    using near [of "of_int t - of_int h / 2" "2 * t - h"] assms by (simp add: abs_le_iff)
qed

text \<open>What \<open>zoomOut\<close> gives for a range that ends at \<open>now\<close>, and for any other.\<close>

lemma zoomOut_now:
  assumes r: "resolveRange parse_date day_start from ''now'' now tz = Inr (Some s, Some now)"
    and "500 \<le> now - s" and "iso_ms now" and "iso_ms s"
  defines "n \<equiv> Math_round (of_int ((now - s) * 2) / 1000)"
  shows "zoomOut parse_date to_iso day_start from ''now'' now tz = Inr (''now-'' @ show_nat (nat n) @ ''s'', ''now'')"
    and "resolveRange parse_date day_start (''now-'' @ show_nat (nat n) @ ''s'') ''now'' now tz = Inr (Some (now - n * 1000), Some now)"
proof -
  define dur where "dur = now - s"
  have dur: "500 \<le> dur" "dur \<le> 400000000000000" and now: "\<bar>now\<bar> \<le> 1000000000000000"
    using assms(2-4) by (auto simp: iso_ms_def dur_def)
  note n = zoom_seconds [OF dur(1), folded dur_def] zoom_seconds [of "now - s", folded n_def dur_def]
  obtain l where l: "new_Date (of_int now + of_int dur / 2) = Some l" "2 * now + dur - 1 \<le> 2 * l"
    using new_Date_near(1) [of now dur] now dur by auto
  then have "now < l" using dur by linarith
  with r l n show "zoomOut parse_date to_iso day_start from ''now'' now tz = Inr (''now-'' @ show_nat (nat n) @ ''s'', ''now'')"
    unfolding zoomOut_def by (simp add: show_int_nonneg Let_def dur_def n_def)
  have u: "time_unit (CHR ''s'')" "unit_ms (CHR ''s'') = 1000" by code_simp+
  have "\<bar>now - n * 1000\<bar> \<le> 8640000000000000" "\<bar>now\<bar> \<le> 8640000000000000"
    using n dur now by (auto simp: abs_le_iff)
  then show "resolveRange parse_date day_start (''now-'' @ show_nat (nat n) @ ''s'') ''now'' now tz =
      Inr (Some (now - n * 1000), Some now)"
    using n dur u resolve_now [of now] resolve_ago [OF all_digits_show_nat u(1), of now "nat n"]
    by (simp add: resolveRange_def)
qed

lemma zoomOut_absolute:
  assumes "iso_text parse_date to_iso"
    and r: "resolveRange parse_date day_start from to now tz = Inr (Some s, Some d)" and "to \<noteq> ''now''"
    and "500 \<le> d - s" and "d \<le> now" and "iso_ms now" and "iso_ms (s - (d - s))"
  shows "\<exists>s' d'. zoomOut parse_date to_iso day_start from to now tz = Inr (to_iso s', to_iso d') \<and>
    resolveRange parse_date day_start (to_iso s') (to_iso d') now tz = Inr (Some s', Some d') \<and>
    s' \<le> s \<and> d \<le> d' \<and> d' \<le> now \<and> d' - s' \<le> 2 * (d - s) + 1 \<and> (d' = now \<or> 2 * (d - s) \<le> d' - s' + 1)"
proof -
  define dur where "dur = d - s"
  have dur: "500 \<le> dur" "dur \<le> 400000000000000" and sd: "\<bar>s\<bar> \<le> 1000000000000000" "\<bar>d\<bar> \<le> 1000000000000000"
    using assms(4-7) by (auto simp: iso_ms_def dur_def abs_le_iff)
  obtain a where a: "new_Date (of_int s - of_int dur / 2) = Some a" "2 * s - dur - 1 \<le> 2 * a" "2 * a \<le> 2 * s - dur + 1"
    using new_Date_near(2) [OF sd(1), of dur] dur by auto
  obtain l where l: "new_Date (of_int d + of_int dur / 2) = Some l" "2 * d + dur - 1 \<le> 2 * l" "2 * l \<le> 2 * d + dur + 1"
    using new_Date_near(1) [OF sd(2), of dur] dur by auto
  let ?e = "if now < l then now else l"
  have "zoomOut parse_date to_iso day_start from to now tz = Inr (to_iso a, to_iso ?e)"
    using r a(1) l(1) assms(3) unfolding zoomOut_def by (simp add: Let_def dur_def iso_pair_def toISOString_def)
  moreover have range: "a \<le> s" "d \<le> ?e" "?e \<le> now" "?e - a \<le> 2 * dur + 1" "?e = now \<or> 2 * dur \<le> ?e - a + 1"
    using a l dur assms(5) by (auto simp: dur_def)
  moreover have "iso_ms a" "iso_ms ?e" "a < ?e"
    using a range dur assms(6,7) by (auto simp: iso_ms_def dur_def)
  then have "resolveRange parse_date day_start (to_iso a) (to_iso ?e) now tz = Inr (Some a, Some ?e)"
    using resolveRange_iso [OF assms(1)] by blast
  ultimately show ?thesis unfolding dur_def by blast
qed

text \<open>An offset beyond the range of dates is not refused: the start is an invalid date, which no comparison finds
  after the end.\<close>

lemma resolveRange_accepts_invalid:
  "resolveRange parse_date day_start ''now-99999999999w'' ''now'' 0 tz = Inr (None, Some 0)"
proof -
  have "all_digits ''99999999999''" "time_unit (CHR ''w'')" "unit_ms (CHR ''w'') = 604800000" by code_simp+
  moreover have "read_nat ''99999999999'' = 99999999999" by (simp add: read_nat_def digit_val_def)
  ultimately have "resolveExpr parse_date day_start ''now-99999999999w'' 0 tz = Inr None"
    using trim_now [of "''99999999999''" "CHR ''w''"] amount_digits [of "''99999999999''" "CHR ''w''" "[]"]
    by (simp add: resolveExpr_def RELATIVE_RE_def day_suffix_def shifted_def new_Date_def)
  then show ?thesis using resolve_now [of 0] by (simp add: resolveRange_def)
qed

section \<open>Properties\<close>

text \<open>C30. Quick input always yields a usable expression: what \<open>parseQuickInput\<close> returns is relative, so it
  resolves without an error; and a positive amount with a unit, blanks between them or not, is the range
  that ends now and began that long ago.\<close>

theorem parseQuickInput_resolves:
  "pred_option (\<lambda>e. isRelative e \<and> \<not> isl (resolveExpr parse_date day_start e now tz)) (parseQuickInput inp) \<and>
   (all_digits n \<and> time_unit u \<and> list_all is_space sp \<and> 0 < read_nat n \<and> \<bar>now\<bar> \<le> 8640000000000000 \<and>
    \<bar>now - int (read_nat n) * unit_ms u\<bar> \<le> 8640000000000000 \<longrightarrow>
      parseQuickInput (n @ sp @ [u]) = Some (''now-'' @ n @ [u]) \<and>
      resolveRange parse_date day_start (''now-'' @ n @ [u]) ''now'' now tz =
        Inr (Some (now - int (read_nat n) * unit_ms u), Some now))"
proof -
  have "resolveRange parse_date day_start (''now-'' @ n @ [u]) ''now'' now tz =
      Inr (Some (now - int (read_nat n) * unit_ms u), Some now)"
    if "all_digits n" "time_unit u" "0 < read_nat n" "\<bar>now\<bar> \<le> 8640000000000000"
      "\<bar>now - int (read_nat n) * unit_ms u\<bar> \<le> 8640000000000000"
  proof -
    have "0 < int (read_nat n) * unit_ms u" using that unit_ms_pos [of u] by simp
    then show ?thesis using that resolve_now resolve_ago by (simp add: resolveRange_def)
  qed
  then show ?thesis
    using parseQuickInput_relative relative_resolves parseQuickInput_short by (auto simp: pred_option_def)
qed

theorem parseQuickInput_resolves_witness:
  "parseQuickInput ''15 m'' = Some ''now-15m'' \<and>
   resolveRange (\<lambda>_. None) (\<lambda>_ _. None) ''now-15m'' ''now'' 1000000 ''UTC'' = Inr (Some 100000, Some 1000000)"
proof -
  have "all_digits ''15''" "time_unit (CHR ''m'')" "list_all is_space '' ''" "read_nat ''15'' = 15" "unit_ms (CHR ''m'') = 60000"
    by code_simp+
  then show ?thesis
    using parseQuickInput_resolves [of "\<lambda>_. None" "\<lambda>_ _. None" 1000000 "''UTC''" "[]" "''15''" "CHR ''m''" "'' ''"] by simp
qed


text \<open>A pair of date texts that satisfies the law, for the witnesses.\<close>

definition sample_iso :: "int \<Rightarrow> string" where
  "sample_iso t = ''0000-00-00T00:00:00.'' @ show_nat (nat (t + 62167219200000)) @ ''Z''"

definition sample_parse :: "string \<Rightarrow> int option" where
  "sample_parse s = Some (int (read_nat (takeWhile is_digit (drop 20 s))) - 62167219200000)"

lemma sample_iso_text: "iso_text sample_parse sample_iso"
proof -
  have Z: "\<not> is_digit (CHR ''Z'')" "\<not> is_space (CHR ''Z'')" "\<not> is_space (CHR ''0'')" "is_digit (CHR ''0'')" by code_simp+
  have tw: "takeWhile is_digit (show_nat n @ ''Z'') = show_nat n" "dropWhile is_digit (show_nat n @ ''Z'') = ''Z''" for n
    using takeWhile_digits [OF all_digits_show_nat Z(1)] dropWhile_digits [OF all_digits_show_nat Z(1)] by simp_all
  have "fraction_zone (CHR ''.'' # show_nat n @ ''Z'')" for n
    using tw by (simp add: fraction_zone_def zone_suffix_def)
  moreover have "\<not> zone_suffix ('':00.'' @ show_nat n @ ''Z'')" for n
    by (simp add: zone_suffix_def)
  ultimately have "RFC3339_RE (sample_iso t)" for t
    using Z by (simp add: RFC3339_RE_def sample_iso_def date_pattern_def minute_pattern_def second_pattern_def
        digits_n_def lit_def numeral_eq_Suc)
  moreover have "trimmed (sample_iso t)" for t using Z by (simp add: trimmed_def sample_iso_def)
  moreover have "iso_ms t \<Longrightarrow> sample_parse (sample_iso t) = Some t" for t
    using tw by (simp add: sample_parse_def sample_iso_def iso_ms_def)
  ultimately show ?thesis by (simp add: iso_text_def)
qed



definition sample_tz_time :: "nat list \<Rightarrow> string \<Rightarrow> int option" where
  "sample_tz_time parts tz = Some (int (last parts mod 60))"


end
