(* ===== verification/Url_State.thy ===== *)
theory Url_State
  imports Filter_Roundtrip Log_Fields Web_Codecs Time_Range "HOL-Library.AList"
begin

text \<open>
  What a page keeps in its URL: \<open>src/frontend/src/lib/url-state.ts\<close>,
  \<open>src/frontend/src/features/saved-searches/savedSearchUrl.ts\<close> and \<open>sourceExplorerSearch\<close> of
  \<open>src/frontend/src/features/sources/source-form.ts\<close>.

  A search object is an association list of its entries. The schemas are descriptions of their fields; the
  library that reads a value against such a description (\<open>zod\<close>) is a parameter, and what the
  descriptions ask of it is \<open>zod_laws\<close>.
\<close>

section \<open>Schemas\<close>

datatype SearchField = Str string | OptStr | Enum "string list" string

type_synonym 'v entries = "(string \<times> 'v) list"
type_synonym zod = "SearchField \<Rightarrow> JsonScalar option \<Rightarrow> string option"

definition zod_laws :: "zod \<Rightarrow> bool" where
  "zod_laws zod \<longleftrightarrow>
     (\<forall>fb v. zod (Str fb) v = (case v of Some (JStr s) \<Rightarrow> Some s | _ \<Rightarrow> Some fb)) \<and>
     (\<forall>v. zod OptStr v = (case v of Some (JStr s) \<Rightarrow> Some s | _ \<Rightarrow> None)) \<and>
     (\<forall>opts d v. zod (Enum opts d) v = (case v of Some (JStr s) \<Rightarrow> Some (if s \<in> set opts then s else d) | _ \<Rightarrow> Some d))"

definition zod_object :: "zod \<Rightarrow> SearchField entries \<Rightarrow> JsonScalar entries \<Rightarrow> string option entries" where
  "zod_object zod schema inp = map (\<lambda>(k, f). (k, zod f (map_of inp k))) schema"

definition explorerSearchSchema :: "SearchField entries" where
  "explorerSearchSchema =
    [(''from'', Str ''now-1h''), (''to'', Str ''now''), (''tz'', OptStr), (''q'', OptStr), (''native'', OptStr),
     (''mode'', Enum [''visual'', ''advanced''] ''visual''), (''cols'', OptStr), (''split'', OptStr), (''saved'', OptStr)]"

definition analyticsSearchSchema :: "SearchField entries" where
  "analyticsSearchSchema =
    [(''from'', Str ''now-1h''), (''to'', Str ''now''), (''tz'', OptStr), (''q'', OptStr), (''native'', OptStr),
     (''mode'', Enum [''visual'', ''advanced''] ''visual''), (''group'', OptStr),
     (''metric'', Enum [''count'', ''unique''] ''count''), (''mfield'', OptStr), (''top'', OptStr),
     (''view'', Enum [''explore'', ''trends'', ''directory'', ''mssql'', ''iis''] ''explore''),
     (''win'', OptStr), (''count'', OptStr), (''scope'', OptStr), (''svc'', OptStr), (''catalog'', OptStr),
     (''acct'', OptStr), (''inst'', OptStr), (''uri'', OptStr), (''slow'', OptStr), (''rows'', OptStr)]"

definition liveSearchSchema :: "SearchField entries" where
  "liveSearchSchema = [(''q'', OptStr), (''native'', OptStr)]"

definition timeSearchSchema :: "SearchField entries" where
  "timeSearchSchema = [(''from'', Str ''now-24h''), (''to'', Str ''now''), (''refresh'', OptStr)]"

definition auditSearchSchema :: "SearchField entries" where
  "auditSearchSchema =
    [(''from'', Str ''now-24h''), (''to'', Str ''now''), (''action'', OptStr), (''actor'', OptStr),
     (''outcome'', Enum [[], ''success'', ''failure''] []), (''limit'', Str ''200'')]"

text \<open>The inferred types: one component per field, optional where the schema's is.\<close>

record ExplorerSearch =
  es_from :: string
  es_to :: string
  es_tz :: "string option"
  es_q :: "string option"
  es_native :: "string option"
  es_mode :: string
  es_cols :: "string option"
  es_split :: "string option"
  es_saved :: "string option"

definition explorer_entries :: "ExplorerSearch \<Rightarrow> string option entries" where
  "explorer_entries s =
    [(''from'', Some (es_from s)), (''to'', Some (es_to s)), (''tz'', es_tz s), (''q'', es_q s), (''native'', es_native s),
     (''mode'', Some (es_mode s)), (''cols'', es_cols s), (''split'', es_split s), (''saved'', es_saved s)]"

section \<open>Columns\<close>

definition parseColumns :: "string option \<Rightarrow> string list" where
  "parseColumns cols =
     (if orElse cols [] = [] then DEFAULT_COLUMNS
      else let xs = split_list (\<lambda>c. c = CHR '','') (orElse cols []) in
        if xs \<noteq> [] then uniq xs else DEFAULT_COLUMNS)"

definition formatColumns :: "string list \<Rightarrow> string option" where
  "formatColumns cols = (if cols = DEFAULT_COLUMNS then None else Some (join '','' cols))"

section \<open>Queries\<close>

record DecodedQuery =
  dq_filter :: "FilterExpr option"
  dq_native :: "string option"
  dq_error :: "string option"

definition decodeQuery :: "string option \<Rightarrow> string option \<Rightarrow> DecodedQuery" where
  "decodeQuery q native =
     (let t = trim (orElse native []) in
      case parseFilter (orElse q []) of
        Inr f \<Rightarrow> \<lparr>dq_filter = f, dq_native = nonempty t, dq_error = None\<rparr>
      | Inl e \<Rightarrow> \<lparr>dq_filter = None, dq_native = nonempty t, dq_error = Some (err_message e)\<rparr>)"

definition encodeFilter :: "FilterExpr option \<Rightarrow> string option" where
  "encodeFilter f = nonempty (formatFilter f)"

record TimeRange =
  tr_from :: string
  tr_to :: string
  tr_tz :: "string option"

record Selection =
  sel_time_range :: TimeRange
  sel_filter :: "FilterExpr option"
  sel_native :: "string option"

definition buildSelection ::
  "(int \<Rightarrow> string) \<Rightarrow> int option \<times> int option \<Rightarrow> FilterExpr option \<Rightarrow> string option \<Rightarrow> string option \<Rightarrow> string + Selection" where
  "buildSelection to_iso resolved f native tz =
     map_sum id (\<lambda>(a, b). \<lparr>sel_time_range = \<lparr>tr_from = a, tr_to = b, tr_tz = tz\<rparr>, sel_filter = f, sel_native = native\<rparr>)
       (iso_pair to_iso (fst resolved) (snd resolved))"

text \<open>The scan of \<open>splitNativePipes\<close>: the index of the first pipe outside string literals, with the
  quote that is open.\<close>

fun pipe_at :: "char option \<Rightarrow> string \<Rightarrow> nat option" where
  "pipe_at q [] = None"
| "pipe_at (Some q) (c # s) =
     (if c = BSLASH \<and> q \<noteq> BACKTICK then
        (case s of [] \<Rightarrow> None | _ # r \<Rightarrow> map_option (\<lambda>i. i + 2) (pipe_at (Some q) r))
      else map_option Suc (pipe_at (if c = q then None else Some q) s))"
| "pipe_at None (c # s) =
     (if c = DQ \<or> c = SQ \<or> c = BACKTICK then map_option Suc (pipe_at (Some c) s)
      else if c = CHR ''|'' then Some 0
      else map_option Suc (pipe_at None s))"

definition splitNativePipes :: "string \<Rightarrow> string \<times> string" where
  "splitNativePipes s =
     (case pipe_at None s of
        Some i \<Rightarrow> (trim (take i s), trim (drop (i + 1) s))
      | None \<Rightarrow> (trim s, []))"

definition withoutPipes :: "Selection option \<Rightarrow> Selection option" where
  "withoutPipes sel =
     (case sel of
        None \<Rightarrow> None
      | Some s \<Rightarrow>
          (case sel_native s of
             None \<Rightarrow> sel
           | Some t \<Rightarrow>
               let (f, pipes) = splitNativePipes t in
               if pipes = [] then sel
               else if f \<noteq> [] \<and> f \<noteq> ''*'' then Some (s\<lparr>sel_native := Some f\<rparr>)
               else Some (s\<lparr>sel_native := None\<rparr>)))"

section \<open>Search parameters\<close>

text \<open>\<^const>\<open>None\<close> stands for \<open>undefined\<close> and \<open>null\<close>.\<close>

definition kept_value :: "string option \<Rightarrow> bool" where
  "kept_value v \<longleftrightarrow> v \<noteq> None \<and> v \<noteq> Some []"

definition cleanSearch :: "string option entries \<Rightarrow> string option entries" where
  "cleanSearch s = filter (\<lambda>(k, v). kept_value v) s"

definition parseSearchParams :: "string \<Rightarrow> string entries" where
  "parseSearchParams str =
     fold (\<lambda>(k, v) out. AList.update k v out) (parse_params (if startsWith str ''?'' then drop 1 str else str)) []"

definition stringifySearchParams :: "string option entries \<Rightarrow> string" where
  "stringifySearchParams search =
     (let s = params_toString
        (fold (\<lambda>(k, v) ps. if kept_value v then AList.update k (orElse v []) ps else ps) search [])
      in if s \<noteq> [] then ''?'' @ s else [])"

section \<open>Saved searches\<close>

record SavedSearch =
  ss_id :: string
  ss_filter :: "FilterExpr option"
  ss_native :: "string option"
  ss_time_range :: "TimeRange option"
  ss_columns :: "string list option"

definition savedSearchToExplorerSearch :: "SavedSearch \<Rightarrow> ExplorerSearch" where
  "savedSearchToExplorerSearch s =
     (let q = formatFilter (ss_filter s); native = orElse (ss_native s) [] in
      \<lparr>es_from = (case ss_time_range s of Some r \<Rightarrow> tr_from r | None \<Rightarrow> ''now-1h''),
       es_to = (case ss_time_range s of Some r \<Rightarrow> tr_to r | None \<Rightarrow> ''now''),
       es_tz = Option.bind (ss_time_range s) tr_tz,
       es_q = nonempty q,
       es_native = nonempty native,
       es_mode = (if native \<noteq> [] \<and> q = [] then ''advanced'' else ''visual''),
       es_cols = (if orElse (ss_columns s) [] \<noteq> [] then formatColumns (orElse (ss_columns s) []) else None),
       es_split = None,
       es_saved = Some (ss_id s)\<rparr>)"

definition isModified :: "SavedSearch \<Rightarrow> ExplorerSearch \<Rightarrow> string list \<Rightarrow> bool" where
  "isModified s search columns =
     (let savedCols = orElse (ss_columns s) [];
          colsChanged = (savedCols \<noteq> [] \<and> join '','' savedCols \<noteq> join '','' columns)
      in orElse (es_q search) [] \<noteq> formatFilter (ss_filter s) \<or>
         orElse (es_native search) [] \<noteq> orElse (ss_native s) [] \<or> colsChanged)"

definition sourceExplorerSearch :: "string \<Rightarrow> ExplorerSearch" where
  "sourceExplorerSearch name =
     \<lparr>es_from = ''now-1h'', es_to = ''now'', es_tz = None, es_q = Some (''source='' @ quote name), es_native = None,
      es_mode = ''visual'', es_cols = None, es_split = None, es_saved = None\<rparr>"

section \<open>Facts\<close>

lemma update_new: "k \<notin> fst ` set al \<Longrightarrow> AList.update k v al = al @ [(k, v)]"
  by (induction al) auto

lemma fold_update_new:
  assumes "distinct (map fst (al @ ps))"
  shows "fold (\<lambda>(k, v) out. AList.update k v out) ps al = al @ ps"
  using assms
proof (induction ps arbitrary: al)
  case (Cons p ps)
  obtain k v where p: "p = (k, v)" by fastforce
  have "AList.update k v al = al @ [p]" using Cons.prems p by (simp add: update_new)
  then show ?case using Cons.IH [of "al @ [p]"] Cons.prems p by simp
qed simp

lemma fold_kept:
  "fold (\<lambda>(k, v) ps. if kept_value v then AList.update k (orElse v []) ps else ps) search al =
   fold (\<lambda>(k, v) ps. AList.update k v ps) (map (apsnd (\<lambda>v. orElse v [])) (cleanSearch search)) al"
  by (induction search arbitrary: al) (auto simp: cleanSearch_def)

lemma cleanSearch_keys: "distinct (map fst s) \<Longrightarrow> distinct (map fst (cleanSearch s))"
  by (simp add: cleanSearch_def distinct_map_filter)

text \<open>What the router reads back from what it wrote: the entries that are kept, as strings.\<close>

lemma params_not_question: "\<not> startsWith (params_toString ps) ''?''"
proof (cases ps)
  case (Cons p rest)
  obtain k v where p: "p = (k, v)" by fastforce
  have "\<forall>c \<in> set (form_encode k). c \<noteq> CHR ''?''" using form_encode_signs by (auto simp: form_sign_def)
  then show ?thesis
    using Cons p by (cases rest; cases "form_encode k") (auto simp: params_toString_def)
qed (simp add: params_toString_def)

lemma search_params_roundtrip:
  assumes "distinct (map fst s)"
  shows "parseSearchParams (stringifySearchParams s) = map (apsnd (\<lambda>v. orElse v [])) (cleanSearch s)"
proof -
  let ?ps = "map (apsnd (\<lambda>v. orElse v [])) (cleanSearch s)"
  have d: "distinct (map fst ([] @ ?ps))" using cleanSearch_keys [OF assms] by (simp add: comp_def)
  have w: "stringifySearchParams s = (if params_toString ?ps \<noteq> [] then ''?'' @ params_toString ?ps else [])"
    unfolding stringifySearchParams_def fold_kept fold_update_new [OF d] by (simp add: Let_def)
  have "params_toString ?ps = [] \<Longrightarrow> ?ps = []"
    using parse_params_toString [of ?ps] by (simp add: parse_params_def)
  then have "parse_params (if startsWith (stringifySearchParams s) ''?'' then drop 1 (stringifySearchParams s)
      else stringifySearchParams s) = ?ps"
    using parse_params_toString [of ?ps] unfolding w by (cases "params_toString ?ps = []") (auto simp: parse_params_def)
  then show ?thesis unfolding parseSearchParams_def using fold_update_new [OF d] by simp
qed

definition fits_field :: "SearchField \<Rightarrow> string option \<Rightarrow> bool" where
  "fits_field f v \<longleftrightarrow>
     (case f of
        Str fb \<Rightarrow> kept_value v
      | OptStr \<Rightarrow> v \<noteq> Some []
      | Enum opts d \<Rightarrow> (\<exists>s. v = Some s \<and> List.member opts s \<and> (s = [] \<longrightarrow> d = [])))"

definition fits :: "SearchField entries \<Rightarrow> string option entries \<Rightarrow> bool" where
  "fits schema s \<longleftrightarrow> list_all2 (\<lambda>(k, f) (l, v). k = l \<and> fits_field f v) schema s"

lemma zod_field:
  assumes "zod_laws zod" and "fits_field f v"
  shows "zod f (if kept_value v then Some (JStr (orElse v [])) else None) = v"
  using assms by (cases f; cases v) (auto simp: zod_laws_def fits_field_def kept_value_def)

lemma map_of_clean:
  assumes "distinct (map fst s)" and "(k, v) \<in> set s"
  shows "map_of (map (apsnd JStr) (map (apsnd (\<lambda>v. orElse v [])) (cleanSearch s))) k =
    (if kept_value v then Some (JStr (orElse v [])) else None)"
  using assms
proof (induction s)
  case (Cons p s)
  have "k \<notin> fst ` set s \<Longrightarrow> map_of (map (apsnd JStr) (map (apsnd (\<lambda>v. orElse v [])) (cleanSearch s))) k = None"
    by (force simp: map_of_eq_None_iff cleanSearch_def)
  moreover have "(k, v) \<in> set s \<Longrightarrow> k \<in> fst ` set s" by force
  ultimately show ?case using Cons by (auto simp: cleanSearch_def)
qed simp

lemma zod_object_roundtrip:
  assumes "zod_laws zod" and "distinct (map fst schema)" and "fits schema s"
  shows "zod_object zod schema (map (apsnd JStr) (parseSearchParams (stringifySearchParams s))) = s"
proof -
  let ?inp = "map (apsnd JStr) (map (apsnd (\<lambda>v. orElse v [])) (cleanSearch s))"
  have keys: "map fst schema = map fst s"
    using assms(3) by (auto simp: fits_def list_all2_conv_all_nth case_prod_beta intro: nth_equalityI)
  then have d: "distinct (map fst s)" using assms(2) by simp
  have "map (\<lambda>(k, f). (k, zod f (map_of ?inp k))) schema = s"
  proof (rule nth_equalityI)
    show len: "length (map (\<lambda>(k, f). (k, zod f (map_of ?inp k))) schema) = length s"
      using keys by (metis length_map)
    fix i
    assume i: "i < length (map (\<lambda>(k, f). (k, zod f (map_of ?inp k))) schema)"
    obtain k f l v where kf: "schema ! i = (k, f)" "s ! i = (l, v)" by fastforce
    have "i < length schema" "i < length s" using i len by simp_all
    then have "k = l" "fits_field f v" "(k, v) \<in> set s"
      using assms(3) kf nth_mem [of i s] by (auto simp: fits_def list_all2_conv_all_nth)
    then show "map (\<lambda>(k, f). (k, zod f (map_of ?inp k))) schema ! i = s ! i"
      using kf i map_of_clean [OF d] zod_field [OF assms(1)] by simp
  qed
  then show ?thesis unfolding zod_object_def search_params_roundtrip [OF d] .
qed

lemma explorer_fits:
  assumes "es_from s \<noteq> []" and "es_to s \<noteq> []" and "List.member [''visual'', ''advanced''] (es_mode s)"
    and "Some [] \<notin> {es_tz s, es_q s, es_native s, es_cols s, es_split s, es_saved s}"
  shows "fits explorerSearchSchema (explorer_entries s)"
  using assms by (auto simp: fits_def explorerSearchSchema_def explorer_entries_def fits_field_def kept_value_def)

definition column_list :: "string list \<Rightarrow> bool" where
  "column_list cols \<longleftrightarrow> distinct cols \<and> list_all (list_item (\<lambda>c. c = CHR '','')) cols"

lemma join_neq_Nil: "cols \<noteq> [] \<Longrightarrow> [] \<notin> set cols \<Longrightarrow> join sep cols \<noteq> []"
  by (cases cols) (auto simp: join_concat)

lemma columns_roundtrip:
  assumes "column_list cols" and "cols \<noteq> []"
  shows "parseColumns (formatColumns cols) = cols" and "formatColumns cols \<noteq> Some []"
proof -
  have "[] \<notin> set cols" using assms(1) by (auto simp: column_list_def list_all_iff list_item_def)
  then have n: "join '','' cols \<noteq> []" using assms(2) by (rule join_neq_Nil [rotated])
  moreover have "split_list (\<lambda>c. c = CHR '','') (join '','' cols) = cols"
    using assms(1) by (intro split_list_join) (auto simp: column_list_def list_all_iff)
  ultimately show "parseColumns (formatColumns cols) = cols"
    using assms by (simp add: parseColumns_def formatColumns_def column_list_def uniq_id)
  show "formatColumns cols \<noteq> Some []" using n by (simp add: formatColumns_def)
qed

lemma parseColumns_None: "parseColumns None = DEFAULT_COLUMNS"
  by (simp add: parseColumns_def)

lemma decodeQuery_format:
  assumes "pred_option canonical f"
  shows "decodeQuery (nonempty (formatFilter f)) n = \<lparr>dq_filter = f, dq_native = nonempty (trim (orElse n [])), dq_error = None\<rparr>"
proof (cases f)
  case None
  then show ?thesis by (simp add: decodeQuery_def formatFilter_def parseFilter_def)
next
  case (Some e)
  with assms show ?thesis by (simp add: decodeQuery_def formatFilter_def parse_fmt)
qed

text \<open>The link from a source shows exactly its logs.\<close>

lemma sourceExplorerSearch_filter:
  "dq_filter (decodeQuery (es_q (sourceExplorerSearch name)) None) = Some (FieldValueExpr Eq ''source'' name)"
proof -
  have "quote ''source'' = ''source''" by code_simp
  then have "''source='' @ quote name = fmt (FieldValueExpr Eq ''source'' name) 0" by (simp add: AST_TO_OP_def OP_TO_AST_def)
  moreover have "parseFilter (fmt (FieldValueExpr Eq ''source'' name) 0) = Inr (Some (FieldValueExpr Eq ''source'' name))"
    by (rule parse_fmt) simp
  ultimately show ?thesis by (simp add: sourceExplorerSearch_def decodeQuery_def)
qed

lemma pipe_at_prefix: "pipe_at q (a @ b) = None \<Longrightarrow> pipe_at q a = None"
proof (induction q a rule: pipe_at.induct)
  case (2 q c s)
  show ?case
  proof (cases "c = BSLASH \<and> q \<noteq> BACKTICK")
    case True
    with 2 show ?thesis by (cases s) auto
  next
    case False
    have "pipe_at (if c = q then None else Some q) (s @ b) = None"
      using 2(3) False by (simp only: append_Cons pipe_at.simps if_False map_option_is_None)
    then have "pipe_at (if c = q then None else Some q) s = None" using 2(2) False by blast
    with False show ?thesis by (simp only: pipe_at.simps if_False option.map)
  qed
qed (auto split: if_splits)

lemma pipe_at_before: "pipe_at q s = Some i \<Longrightarrow> pipe_at q (take i s) = None"
proof (induction q s arbitrary: i rule: pipe_at.induct)
  case (2 q c s)
  show ?case
  proof (cases "c = BSLASH \<and> q \<noteq> BACKTICK")
    case True
    with 2 show ?thesis by (cases s) auto
  next
    case False
    have "\<exists>j. pipe_at (if c = q then None else Some q) s = Some j \<and> Suc j = i"
      using 2(3) False by (simp only: pipe_at.simps if_False map_option_eq_Some)
    then obtain j where j: "i = Suc j" "pipe_at (if c = q then None else Some q) s = Some j" by blast
    have "pipe_at (if c = q then None else Some q) (take j s) = None" by (rule 2(2) [OF False j(2)])
    with False show ?thesis by (simp only: j take_Suc_Cons pipe_at.simps if_False option.map)
  qed
qed (auto split: if_splits)

lemma pipe_at_trimStart: "pipe_at None s = None \<Longrightarrow> pipe_at None (trimStart s) = None"
proof (induction s)
  case (Cons c s)
  have "is_space c \<Longrightarrow> c \<noteq> DQ \<and> c \<noteq> SQ \<and> c \<noteq> BACKTICK" by (auto simp: is_space_def char_consts)
  with Cons show ?case by (auto simp: trimStart_def split: if_splits)
qed (simp add: trimStart_def)

lemma trimEnd_prefix: "\<exists>r. s = trimEnd s @ r"
  unfolding trimEnd_def
  by (rule exI [of _ "rev (takeWhile is_space (rev s))"])
    (metis rev_append rev_rev_ident takeWhile_dropWhile_id)

lemma pipe_at_trim: "pipe_at None s = None \<Longrightarrow> pipe_at None (trim s) = None"
  using pipe_at_trimStart [of s] trimEnd_prefix [of "trimStart s"] pipe_at_prefix unfolding trim_def by metis

lemma split_filter_part: "snd (splitNativePipes (fst (splitNativePipes s))) = []"
  by (cases "pipe_at None s") (auto simp: splitNativePipes_def pipe_at_trim pipe_at_before)

section \<open>Properties\<close>

definition SEARCH_SCHEMAS :: "SearchField entries list" where
  "SEARCH_SCHEMAS =
     [explorerSearchSchema, analyticsSearchSchema, liveSearchSchema, timeSearchSchema, auditSearchSchema]"

lemma schemas_distinct: "schema \<in> set SEARCH_SCHEMAS \<Longrightarrow> distinct (map fst schema)"
  by (auto simp: SEARCH_SCHEMAS_def explorerSearchSchema_def analyticsSearchSchema_def liveSearchSchema_def
      timeSearchSchema_def auditSearchSchema_def)

text \<open>C33. A page's state survives its URL: writing a state that fits one of the five schemas as search parameters,
  reading them back and validating them gives the same state, whatever characters its values
  have.\<close>

theorem search_state_roundtrip:
  assumes "zod_laws zod" and "schema \<in> set SEARCH_SCHEMAS" and "fits schema s"
  shows "zod_object zod schema (map (apsnd JStr) (parseSearchParams (stringifySearchParams s))) = s"
  using zod_object_roundtrip [OF assms(1) schemas_distinct [OF assms(2)] assms(3)] .

definition sample_zod :: zod where
  "sample_zod f v =
     (case f of
        Str fb \<Rightarrow> (case v of Some (JStr s) \<Rightarrow> Some s | _ \<Rightarrow> Some fb)
      | OptStr \<Rightarrow> (case v of Some (JStr s) \<Rightarrow> Some s | _ \<Rightarrow> None)
      | Enum opts d \<Rightarrow> (case v of Some (JStr s) \<Rightarrow> Some (if s \<in> set opts then s else d) | _ \<Rightarrow> Some d))"

lemma sample_zod_laws: "zod_laws sample_zod"
  by (simp add: zod_laws_def sample_zod_def)

theorem search_state_roundtrip_witness:
  "zod_object sample_zod liveSearchSchema
     (map (apsnd JStr) (parseSearchParams (stringifySearchParams [(''q'', Some ''a=1 & b%''), (''native'', None)]))) =
   [(''q'', Some ''a=1 & b%''), (''native'', None)]"
proof -
  have "fits liveSearchSchema [(''q'', Some ''a=1 & b%''), (''native'', None)]"
    by (simp add: fits_def liveSearchSchema_def fits_field_def)
  moreover have "liveSearchSchema \<in> set SEARCH_SCHEMAS" by (simp add: SEARCH_SCHEMAS_def)
  ultimately show ?thesis using search_state_roundtrip [OF sample_zod_laws] by blast
qed

definition saved_wf :: "SavedSearch \<Rightarrow> bool" where
  "saved_wf s \<longleftrightarrow>
     pred_option canonical (ss_filter s) \<and> column_list (orElse (ss_columns s) []) \<and> ss_id s \<noteq> [] \<and>
     pred_option (\<lambda>r. tr_from r \<noteq> [] \<and> tr_to r \<noteq> [] \<and> tr_tz r \<noteq> Some []) (ss_time_range s)"

text \<open>C34. Opening a saved search shows it: its explorer state survives the URL, decodes to the saved filter and
  native query without an error, has the saved columns (the default ones when none are saved), and does
  not count as modified.\<close>

theorem saved_search_opens:
  assumes "zod_laws zod" and "saved_wf s" and "e = savedSearchToExplorerSearch s"
  shows "zod_object zod explorerSearchSchema (map (apsnd JStr) (parseSearchParams (stringifySearchParams (explorer_entries e)))) =
      explorer_entries e \<and>
    decodeQuery (es_q e) (es_native e) =
      \<lparr>dq_filter = ss_filter s, dq_native = nonempty (trim (orElse (ss_native s) [])), dq_error = None\<rparr> \<and>
    parseColumns (es_cols e) = (if orElse (ss_columns s) [] = [] then DEFAULT_COLUMNS else orElse (ss_columns s) []) \<and>
    \<not> isModified s e (parseColumns (es_cols e))"
proof -
  let ?c = "orElse (ss_columns s) []"
  have wf: "pred_option canonical (ss_filter s)" "column_list ?c" "ss_id s \<noteq> []"
    "pred_option (\<lambda>r. tr_from r \<noteq> [] \<and> tr_to r \<noteq> [] \<and> tr_tz r \<noteq> Some []) (ss_time_range s)"
    using assms(2) by (simp_all add: saved_wf_def)
  note e = assms(3) savedSearchToExplorerSearch_def Let_def
  have cols: "es_cols e \<noteq> Some []" "parseColumns (es_cols e) = (if ?c = [] then DEFAULT_COLUMNS else ?c)"
    using columns_roundtrip [OF wf(2)] parseColumns_None by (simp_all add: e)
  have "fits explorerSearchSchema (explorer_entries e)"
  proof (rule explorer_fits)
    show "Some [] \<notin> {es_tz e, es_q e, es_native e, es_cols e, es_split e, es_saved e}"
      using wf cols(1) by (cases "ss_time_range s") (auto simp: e nonempty_def)
  qed (use wf in \<open>cases "ss_time_range s"; simp add: e\<close>)+
  then have "zod_object zod explorerSearchSchema
      (map (apsnd JStr) (parseSearchParams (stringifySearchParams (explorer_entries e)))) = explorer_entries e"
    using zod_object_roundtrip [OF assms(1)] schemas_distinct [of explorerSearchSchema] by (simp add: SEARCH_SCHEMAS_def)
  moreover have "decodeQuery (es_q e) (es_native e) =
      \<lparr>dq_filter = ss_filter s, dq_native = nonempty (trim (orElse (ss_native s) [])), dq_error = None\<rparr>"
    using decodeQuery_format [OF wf(1)] by (simp add: e)
  moreover have "\<not> isModified s e (parseColumns (es_cols e))"
    unfolding cols(2) by (simp add: isModified_def e)
  ultimately show ?thesis using cols(2) by blast
qed

definition sample_saved :: SavedSearch where
  "sample_saved =
     \<lparr>ss_id = ''s1'', ss_filter = Some (FieldValueExpr Eq ''app'' ''nginx''), ss_native = None, ss_time_range = None,
      ss_columns = Some [''message'']\<rparr>"

theorem saved_search_opens_witness:
  "\<not> isModified sample_saved (savedSearchToExplorerSearch sample_saved)
     (parseColumns (es_cols (savedSearchToExplorerSearch sample_saved)))"
proof -
  have "saved_wf sample_saved"
    by (simp add: saved_wf_def sample_saved_def column_list_def list_item_def trimmed_def is_space_def)
  then show ?thesis using saved_search_opens [OF sample_zod_laws _ refl] by blast
qed

text \<open>The side panels query what the pipeline starts from: \<open>withoutPipes\<close> leaves nothing to split off,
  is idempotent, and changes neither the time range nor the filter.\<close>

lemma withoutPipes_settles:
  "withoutPipes (withoutPipes sel) = withoutPipes sel \<and>
   pred_option (\<lambda>s. pred_option (\<lambda>t. snd (splitNativePipes t) = []) (sel_native s)) (withoutPipes sel) \<and>
   map_option (\<lambda>s. (sel_time_range s, sel_filter s)) (withoutPipes sel) = map_option (\<lambda>s. (sel_time_range s, sel_filter s)) sel"
proof (cases "Option.bind sel sel_native")
  case None
  then show ?thesis by (cases sel) (simp_all add: withoutPipes_def)
next
  case (Some t)
  then obtain s where s: "sel = Some s" "sel_native s = Some t" by (cases sel) auto
  obtain f p where fp: "splitNativePipes t = (f, p)" by fastforce
  have "snd (splitNativePipes f) = []" using split_filter_part [of t] fp by simp
  then show ?thesis using s fp by (auto simp: withoutPipes_def case_prod_beta)
qed

end
