(* ===== verification/Analytics_Query.thy ===== *)
theory Analytics_Query
  imports Url_State Lib_Text
begin

text \<open>
  The analytics page: \<open>src/frontend/src/features/analytics/analytics-query.ts\<close>, its URL codec, the comparison
  with the previous period and the mapping from a series response to chart rows. The contract that every
  URL codec of the page keeps is the locale \<open>url_codec\<close>.
\<close>

section \<open>URL codecs\<close>

text \<open>A codec encodes queries as URL parameters. Whatever the URL says, decoding gives a normal query, and
  a normal query survives its URL.\<close>

locale url_codec =
  fixes encode :: "'q \<Rightarrow> 'u"
    and decode :: "'u \<Rightarrow> 'q"
    and normal :: "'q \<Rightarrow> bool"
  assumes decode_normal: "normal (decode u)"
    and decode_encode: "normal q \<Longrightarrow> decode (encode q) = q"
begin

lemma settles: "decode (encode (decode u)) = decode u"
  by (rule decode_encode) (rule decode_normal)

lemma encode_inject: "normal p \<Longrightarrow> normal q \<Longrightarrow> encode p = encode q \<longleftrightarrow> p = q"
  by (metis decode_encode)

lemma normal_iff: "normal q \<longleftrightarrow> (\<exists>u. decode u = q)"
  by (metis decode_normal decode_encode)

end

section \<open>The aggregation in the URL\<close>

definition DEFAULT_GROUP_BY :: string where
  "DEFAULT_GROUP_BY = ''app_name''"

definition DEFAULT_TOP :: nat where
  "DEFAULT_TOP = 10"

definition TOP_OPTIONS :: "nat list" where
  "TOP_OPTIONS = [5, 10, 20, 50]"

definition SERIES_BUCKETS :: nat where
  "SERIES_BUCKETS = 120"

datatype AnalyticsMetric = Count | CountDistinct (metric_field: "string option")

record AnalyticsQuery =
  aq_groupBy :: string
  aq_metric :: AnalyticsMetric
  aq_limit :: nat

text \<open>The parameters of \<open>AnalyticsSearch\<close> that hold the aggregation.\<close>

record AggregationSearch =
  ag_group :: "string option"
  ag_metric :: string
  ag_mfield :: "string option"
  ag_top :: "string option"

definition Number_opt :: "string option \<Rightarrow> JsNum" where
  "Number_opt v = (case v of None \<Rightarrow> NaN | Some s \<Rightarrow> Number s)"

definition one_of :: "nat list \<Rightarrow> JsNum \<Rightarrow> nat \<Rightarrow> nat" where
  "one_of options x d = orElse (List.find (\<lambda>n. x = Num (of_nat n)) options) d"

definition decodeAnalytics :: "AggregationSearch \<Rightarrow> AnalyticsQuery" where
  "decodeAnalytics search =
     \<lparr>aq_groupBy = (let g = trim (orElse (ag_group search) []) in if g = [] then DEFAULT_GROUP_BY else g),
      aq_metric =
        (if ag_metric search = ''unique'' then CountDistinct (nonempty (trim (orElse (ag_mfield search) []))) else Count),
      aq_limit = one_of TOP_OPTIONS (Number_opt (ag_top search)) DEFAULT_TOP\<rparr>"

definition encodeAnalytics :: "AnalyticsQuery \<Rightarrow> AggregationSearch" where
  "encodeAnalytics q =
     \<lparr>ag_group = (if aq_groupBy q = DEFAULT_GROUP_BY then None else Some (aq_groupBy q)),
      ag_metric = (case aq_metric q of CountDistinct f \<Rightarrow> ''unique'' | Count \<Rightarrow> ''count''),
      ag_mfield = (case aq_metric q of CountDistinct f \<Rightarrow> f | Count \<Rightarrow> None),
      ag_top = (if aq_limit q = DEFAULT_TOP then None else Some (show_nat (aq_limit q)))\<rparr>"

definition opt_name :: "string option \<Rightarrow> bool" where
  "opt_name v = (case v of None \<Rightarrow> True | Some s \<Rightarrow> s \<noteq> [] \<and> trimmed s)"

definition analytics_normal :: "AnalyticsQuery \<Rightarrow> bool" where
  "analytics_normal q \<longleftrightarrow>
     aq_groupBy q \<noteq> [] \<and> trimmed (aq_groupBy q) \<and> aq_limit q \<in> set TOP_OPTIONS \<and>
     (case aq_metric q of Count \<Rightarrow> True | CountDistinct f \<Rightarrow> opt_name f)"

lemma opt_name_nonempty [simp]: "opt_name (nonempty (trim s))"
  by (simp add: opt_name_def nonempty_def)

lemma nonempty_opt_name [simp]: "opt_name v \<Longrightarrow> nonempty (trim (orElse v [])) = v"
  by (cases v) (simp_all add: opt_name_def trim_id)

lemma find_mem: "List.find p xs = Some x \<Longrightarrow> x \<in> set xs"
  by (induction xs) (auto split: if_splits)

lemma one_of_mem: "d \<in> set options \<Longrightarrow> one_of options x d \<in> set options"
  by (induction options) (auto simp: one_of_def orElse_def split: option.splits dest: find_mem)

lemma one_of_show:
  assumes "n \<in> set options"
  shows "one_of options (Number_opt (Some (show_nat n))) d = n"
proof -
  have "List.find (\<lambda>m. Number (show_nat n) = Num (of_nat m)) options = Some n"
    using assms by (induction options) (auto simp: Number_show_nat)
  then show ?thesis by (simp add: one_of_def Number_opt_def)
qed

lemma one_of_none [simp]: "one_of options (Number_opt None) d = d"
proof -
  have "List.find (\<lambda>n. NaN = Num (of_nat n)) options = None" by (simp add: find_None_iff)
  then show ?thesis by (simp add: one_of_def Number_opt_def)
qed

lemma default_group: "DEFAULT_GROUP_BY \<noteq> []" "trimmed DEFAULT_GROUP_BY"
  by (simp_all add: DEFAULT_GROUP_BY_def trimmed_def is_space_def)

lemma default_top: "DEFAULT_TOP \<in> set TOP_OPTIONS"
  by (simp add: DEFAULT_TOP_def TOP_OPTIONS_def)

interpretation agg: url_codec encodeAnalytics decodeAnalytics analytics_normal
proof
  show "analytics_normal (decodeAnalytics u)" for u
    using one_of_mem [of DEFAULT_TOP TOP_OPTIONS] default_group default_top
    by (simp add: analytics_normal_def decodeAnalytics_def Let_def)
  show "decodeAnalytics (encodeAnalytics q) = q" if "analytics_normal q" for q
  proof -
    have "decodeAnalytics (encodeAnalytics q) =
        \<lparr>aq_groupBy = aq_groupBy q, aq_metric = aq_metric q, aq_limit = aq_limit q\<rparr>"
      using that one_of_show [of "aq_limit q" TOP_OPTIONS DEFAULT_TOP]
      by (auto simp: analytics_normal_def decodeAnalytics_def encodeAnalytics_def trim_id Let_def
          split: AnalyticsMetric.splits)
    then show ?thesis by simp
  qed
qed

section \<open>Metrics in words\<close>

definition metricComplete :: "AnalyticsMetric \<Rightarrow> bool" where
  "metricComplete m = (case m of Count \<Rightarrow> True | CountDistinct f \<Rightarrow> orElse f [] \<noteq> [])"

definition metricLabel :: "AnalyticsMetric \<Rightarrow> string" where
  "metricLabel m = (case m of CountDistinct f \<Rightarrow> ''unique '' @ orElse f ELLIPSIS | Count \<Rightarrow> ''events'')"

definition metricHeading :: "AnalyticsMetric \<Rightarrow> string" where
  "metricHeading m = (case m of CountDistinct f \<Rightarrow> ''Unique'' | Count \<Rightarrow> ''Events'')"

definition metricTitle :: "AnalyticsMetric \<Rightarrow> string" where
  "metricTitle m = (case m of CountDistinct f \<Rightarrow> ''Unique '' @ orElse f ''values'' | Count \<Rightarrow> ''Events'')"

definition metricIsAdditive :: "AnalyticsMetric \<Rightarrow> bool" where
  "metricIsAdditive m = (m = Count)"

definition groupLabel :: "string \<Rightarrow> string" where
  "groupLabel v = (if v = [] then ''(none)'' else v)"

definition metricUnit :: "AnalyticsMetric \<Rightarrow> string" where
  "metricUnit m = (case m of CountDistinct f \<Rightarrow> ''unique'' | Count \<Rightarrow> [])"

section \<open>The previous period\<close>

definition previousRange :: "int \<times> int \<Rightarrow> int option \<times> int option" where
  "previousRange r = (new_Date (of_int (fst r - (snd r - fst r))), new_Date (of_int (fst r)))"

datatype DeltaKind = Delta_new | Delta_up | Delta_down | Delta_flat | Delta_unknown

record Delta =
  dl_kind :: DeltaKind
  dl_ratio :: "rat option"
  dl_label :: string
  dl_significant :: bool

definition SIGNIFICANT :: rat where
  "SIGNIFICANT = 1 / 10"

text \<open>A number of tenths as JavaScript prints it: without a trailing zero.\<close>

definition show_tenths :: "nat \<Rightarrow> string" where
  "show_tenths n = show_nat (n div 10) @ (if n mod 10 = 0 then [] else ''.'' @ show_nat (n mod 10))"

text \<open>\<open>rounded\<close> in tenths: to one decimal below ten percent, to a whole number above.\<close>

definition rounded_tenths :: "rat \<Rightarrow> int" where
  "rounded_tenths pct = (if \<bar>pct\<bar> < 10 then round_half_away (pct * 10) else Math_round pct * 10)"

definition formatDelta :: "rat \<Rightarrow> string" where
  "formatDelta ratio =
     (if ratio \<ge> 10 then TIMES @ show_int (Math_round (ratio + 1))
      else let rounded = rounded_tenths (ratio * 100) in
        if rounded = 0 then ''0%''
        else (if rounded > 0 then ''+'' else MINUS) @ show_tenths (nat \<bar>rounded\<bar>) @ ''%'')"

definition rowDelta :: "rat \<Rightarrow> rat option \<Rightarrow> bool \<Rightarrow> Delta" where
  "rowDelta current previous previousTruncated =
     (case previous of
        None \<Rightarrow>
          if previousTruncated then \<lparr>dl_kind = Delta_unknown, dl_ratio = None, dl_label = EMDASH, dl_significant = False\<rparr>
          else \<lparr>dl_kind = Delta_new, dl_ratio = None, dl_label = ''new'', dl_significant = True\<rparr>
      | Some p \<Rightarrow>
          if p = 0 then
            if current = 0 then \<lparr>dl_kind = Delta_flat, dl_ratio = Some 0, dl_label = ''0%'', dl_significant = False\<rparr>
            else \<lparr>dl_kind = Delta_new, dl_ratio = None, dl_label = ''new'', dl_significant = True\<rparr>
          else let ratio = (current - p) / p in
            \<lparr>dl_kind = (if ratio > 0 then Delta_up else if ratio < 0 then Delta_down else Delta_flat),
             dl_ratio = Some ratio, dl_label = formatDelta ratio, dl_significant = SIGNIFICANT \<le> \<bar>ratio\<bar>\<rparr>)"

record BreakdownRow =
  br_value :: string
  br_metric :: rat
  br_share :: rat

record BreakdownResponse =
  bd_rows :: "BreakdownRow list"
  bd_total :: rat
  bd_distinct_groups :: nat

definition computeDeltas :: "BreakdownRow list \<Rightarrow> BreakdownResponse option \<Rightarrow> Delta entries" where
  "computeDeltas rows previous =
     (case previous of
        None \<Rightarrow> []
      | Some p \<Rightarrow>
          (let before = map_of (rev (map (\<lambda>r. (br_value r, br_metric r)) (bd_rows p)));
               truncated = length (bd_rows p) < bd_distinct_groups p
           in fold (\<lambda>row out. AList.update (br_value row) (rowDelta (br_metric row) (before (br_value row)) truncated) out) rows []))"

section \<open>Charts\<close>

record ChartSeries =
  se_key :: string
  se_label :: string
  se_value :: string

record ChartRow =
  cr_t :: "int option"
  cr_cells :: "rat entries"

record ChartData =
  cd_rows :: "ChartRow list"
  cd_series :: "ChartSeries list"

record SeriesGroup =
  sg_value :: string
  sg_total :: rat
  sg_points :: "rat list"

record SeriesResponse =
  sr_timestamps :: "string list"
  sr_groups :: "SeriesGroup list"

definition series_key :: "nat \<Rightarrow> string" where
  "series_key i = ''s'' @ show_nat i"

text \<open>\<open>points[i] ?? 0\<close>.\<close>

definition point_at :: "rat list \<Rightarrow> nat \<Rightarrow> rat" where
  "point_at ps i = (if i < length ps then ps ! i else 0)"

definition chart_rows :: "(string \<Rightarrow> int option) \<Rightarrow> string list \<Rightarrow> rat list list \<Rightarrow> ChartRow list" where
  "chart_rows parse_date timestamps pss =
     map (\<lambda>(i, t). \<lparr>cr_t = parse_date t, cr_cells = map (\<lambda>(j, ps). (series_key j, point_at ps i)) (enumerate 0 pss)\<rparr>)
       (enumerate 0 timestamps)"

definition seriesChartData :: "(string \<Rightarrow> int option) \<Rightarrow> SeriesResponse option \<Rightarrow> ChartData" where
  "seriesChartData parse_date res =
     (case res of
        None \<Rightarrow> \<lparr>cd_rows = [], cd_series = []\<rparr>
      | Some r \<Rightarrow>
          \<lparr>cd_rows = chart_rows parse_date (sr_timestamps r) (map sg_points (sr_groups r)),
           cd_series = map (\<lambda>(i, g). \<lparr>se_key = series_key i, se_label = groupLabel (sg_value g), se_value = sg_value g\<rparr>)
             (enumerate 0 (sr_groups r))\<rparr>)"

record LineSeries =
  li_key :: string
  li_name :: string
  li_label :: string
  li_total :: rat
  li_color :: string

record LineChartData =
  lc_rows :: "ChartRow list"
  lc_series :: "LineSeries list"

record AnalysisLine =
  al_name :: string
  al_label :: string
  al_points :: "rat list"
  al_total :: rat

record AnalysisActivity =
  ac_step_seconds :: rat
  ac_timestamps :: "string list option"
  ac_lines :: "AnalysisLine list option"

definition lineChartData ::
  "(string \<Rightarrow> int option) \<Rightarrow> AnalysisActivity option \<Rightarrow> (string \<Rightarrow> nat \<Rightarrow> string) \<Rightarrow> LineChartData" where
  "lineChartData parse_date activity colorOf =
     (case activity of
        None \<Rightarrow> \<lparr>lc_rows = [], lc_series = []\<rparr>
      | Some a \<Rightarrow>
          (let ls = orElse (ac_lines a) [] in
           \<lparr>lc_rows = chart_rows parse_date (orElse (ac_timestamps a) []) (map al_points ls),
            lc_series = map (\<lambda>(i, l). \<lparr>li_key = series_key i, li_name = al_name l, li_label = al_label l,
              li_total = al_total l, li_color = colorOf (al_name l) i\<rparr>) (enumerate 0 ls)\<rparr>))"

definition stepLabel :: "rat \<Rightarrow> string" where
  "stepLabel seconds =
     (if seconds < 60 then show_int (max 1 (Math_round seconds)) @ ''s''
      else if seconds < 3600 then show_int (Math_round (seconds / 60)) @ ''m''
      else if of_int \<lfloor>seconds / 86400\<rfloor> = seconds / 86400 then show_int \<lfloor>seconds / 86400\<rfloor> @ ''d''
      else show_int (Math_round (seconds / 3600)) @ ''h'')"

record AnalysisCount =
  cn_value :: string
  cn_label :: "string option"
  cn_count :: rat

definition countLabel :: "AnalysisCount \<Rightarrow> string" where
  "countLabel c =
     (let l = trim (orElse (cn_label c) []) in if l \<noteq> [] then l else if cn_value c \<noteq> [] then cn_value c else ''(none)'')"

definition codeAndLabel :: "AnalysisCount \<Rightarrow> string" where
  "codeAndLabel c =
     (let l = trim (orElse (cn_label c) []) in
      if l \<noteq> [] then cn_value c @ '' '' @ EMDASH @ '' '' @ l else if cn_value c \<noteq> [] then cn_value c else ''(none)'')"

definition coverageLabel :: "nat \<Rightarrow> nat \<Rightarrow> string" where
  "coverageLabel shown distinct1 =
     (if distinct1 \<le> shown then show_nat shown @ '' value'' @ (if shown = 1 then [] else ''s'')
      else ''showing '' @ show_nat shown @ '' of '' @ show_nat distinct1 @ '' values'')"

section \<open>Facts\<close>

lemma enumerate_map_fst: "map fst (enumerate n xs) = [n..<n + length xs]"
  by simp

lemma inj_series_key: "series_key i = series_key j \<longleftrightarrow> i = j"
  by (simp add: series_key_def)

lemma length_chart_rows [simp]: "length (chart_rows parse_date ts pss) = length ts"
  by (simp add: chart_rows_def)

text \<open>Row \<open>i\<close> has the \<open>i\<close>-th timestamp and one cell per series, the series' \<open>i\<close>-th point or zero.\<close>

lemma chart_rows_nth:
  assumes "i < length ts"
  shows "chart_rows parse_date ts pss ! i =
    \<lparr>cr_t = parse_date (ts ! i), cr_cells = map (\<lambda>j. (series_key j, point_at (pss ! j) i)) [0..<length pss]\<rparr>"
  using assms by (auto simp: chart_rows_def enumerate_eq_zip intro!: nth_equalityI)

lemma chart_cell:
  assumes "i < length ts" and "j < length pss"
  shows "map_of (cr_cells (chart_rows parse_date ts pss ! i)) (series_key j) = Some (point_at (pss ! j) i)"
proof -
  let ?cells = "map (\<lambda>j. (series_key j, point_at (pss ! j) i)) [0..<length pss]"
  have "distinct (map fst ?cells)" by (simp add: comp_def distinct_map inj_on_def inj_series_key)
  moreover have "(series_key j, point_at (pss ! j) i) \<in> set ?cells" using assms(2) by auto
  ultimately show ?thesis using assms(1) by (simp add: chart_rows_nth del: map_map)
qed

end
