(* ===== verification/Service_Trends.thy ===== *)
theory Service_Trends
  imports Analytics_Query
begin

text \<open>
  The service trends of the analytics page: \<open>src/frontend/src/features/analytics/service-trends.ts\<close>. Trend
  windows, metrics and scopes are the enumerations of \<open>src/frontend/src/api/operations.ts\<close>; counts and rates
  are exact numbers; \<open>fmt_time\<close> is \<open>formatTimestamp\<close>, which formats through \<open>date-fns\<close>.
\<close>

section \<open>The trend query\<close>

datatype TrendWindow = Win_5m | Win_1h | Win_1d
datatype TrendMetric = Unique_clients | Queries
datatype TrendView = Stored TrendMetric | Qps
datatype TrendScope = Scope_all | Scope_main

definition window_name :: "TrendWindow \<Rightarrow> string" where
  "window_name w = (case w of Win_5m \<Rightarrow> ''5m'' | Win_1h \<Rightarrow> ''1h'' | Win_1d \<Rightarrow> ''1d'')"

record WindowChoice =
  tw_value :: TrendWindow
  tw_label :: string
  tw_seconds :: int

definition TREND_WINDOWS :: "WindowChoice list" where
  "TREND_WINDOWS =
    [\<lparr>tw_value = Win_5m, tw_label = ''5 minutes'', tw_seconds = 300\<rparr>,
     \<lparr>tw_value = Win_1h, tw_label = ''1 hour'', tw_seconds = 3600\<rparr>,
     \<lparr>tw_value = Win_1d, tw_label = ''1 day'', tw_seconds = 86400\<rparr>]"

definition DEFAULT_TREND_WINDOW :: TrendWindow where
  "DEFAULT_TREND_WINDOW = Win_1h"

definition DEFAULT_TREND_METRIC :: TrendView where
  "DEFAULT_TREND_METRIC = Stored Unique_clients"

text \<open>Counts are whole numbers, so only a rate has a fraction to show.\<close>

definition formatTrendValue :: "(rat \<Rightarrow> string) \<Rightarrow> TrendView \<Rightarrow> rat option \<Rightarrow> string" where
  "formatTrendValue compactFmt view v =
     (if view = Qps then formatRate compactFmt v else formatExact (map_option (\<lambda>q. \<lfloor>q\<rfloor>) v))"

definition trendApiMetric :: "TrendView \<Rightarrow> TrendMetric" where
  "trendApiMetric view = (if view = Stored Unique_clients then Unique_clients else Queries)"

definition trendDivisor :: "TrendView \<Rightarrow> rat \<Rightarrow> rat" where
  "trendDivisor view stepSeconds = (if view = Qps \<and> stepSeconds > 0 then stepSeconds else 1)"

definition DEFAULT_TREND_SCOPE :: TrendScope where
  "DEFAULT_TREND_SCOPE = Scope_all"

definition DEFAULT_TREND_RANGE :: "string \<times> string" where
  "DEFAULT_TREND_RANGE = (''now-24h'', ''now'')"

definition MAX_TREND_POINTS :: int where
  "MAX_TREND_POINTS = 2000"

definition TREND_SERIES_SHOWN :: nat where
  "TREND_SERIES_SHOWN = 8"

record ServiceTrendQuery =
  tq_window :: TrendWindow
  tq_metric :: TrendView
  tq_scope :: TrendScope
  tq_services :: "string list"

record TrendSearch =
  ts_win :: "string option"
  ts_count :: "string option"
  ts_scope :: "string option"
  ts_svc :: "string option"

definition find_window :: "string \<Rightarrow> TrendWindow option" where
  "find_window v = map_option tw_value (List.find (\<lambda>w. window_name (tw_value w) = v) TREND_WINDOWS)"

definition isWindow :: "string option \<Rightarrow> bool" where
  "isWindow v = (case v of None \<Rightarrow> False | Some s \<Rightarrow> list_ex (\<lambda>w. window_name (tw_value w) = s) TREND_WINDOWS)"

definition comma_names :: "string option \<Rightarrow> string list" where
  "comma_names v = split_list (\<lambda>c. c = CHR '','') (orElse v [])"

definition decodeServiceTrends :: "TrendSearch \<Rightarrow> ServiceTrendQuery" where
  "decodeServiceTrends search =
     (let win = map_option trim (ts_win search) in
      \<lparr>tq_window = (if isWindow win then orElse (Option.bind win find_window) DEFAULT_TREND_WINDOW else DEFAULT_TREND_WINDOW),
       tq_metric = (if ts_count search = Some ''queries'' then Stored Queries
                    else if ts_count search = Some ''qps'' then Qps else DEFAULT_TREND_METRIC),
       tq_scope = (if ts_scope search = Some ''main'' then Scope_main else DEFAULT_TREND_SCOPE),
       tq_services = uniq (comma_names (ts_svc search))\<rparr>)"

definition view_name :: "TrendView \<Rightarrow> string" where
  "view_name v = (case v of Stored Unique_clients \<Rightarrow> ''unique_clients'' | Stored Queries \<Rightarrow> ''queries'' | Qps \<Rightarrow> ''qps'')"

definition encodeServiceTrends :: "ServiceTrendQuery \<Rightarrow> TrendSearch" where
  "encodeServiceTrends q =
     \<lparr>ts_win = (if tq_window q = DEFAULT_TREND_WINDOW then None else Some (window_name (tq_window q))),
      ts_count = (if tq_metric q = DEFAULT_TREND_METRIC then None else Some (view_name (tq_metric q))),
      ts_scope = (if tq_scope q = Scope_main then Some ''main'' else None),
      ts_svc = (if tq_services q \<noteq> [] then Some (join '','' (tq_services q)) else None)\<rparr>"

definition name_list :: "string list \<Rightarrow> bool" where
  "name_list xs \<longleftrightarrow> distinct xs \<and> list_all (list_item (\<lambda>c. c = CHR '','')) xs"

lemma find_window_name [simp]: "find_window (window_name w) = Some w"
  by (cases w) (simp_all add: find_window_def TREND_WINDOWS_def window_name_def)

lemma isWindow_name [simp]: "isWindow (Some (window_name w))"
  by (cases w) (simp_all add: isWindow_def TREND_WINDOWS_def window_name_def)

lemma trim_window_name [simp]: "trim (window_name w) = window_name w"
  by (cases w) (simp_all add: window_name_def trim_id trimmed_def is_space_def)

lemma names_uniq: "name_list (uniq (comma_names v))"
  using split_list_item [of _ "\<lambda>c. c = CHR '',''"] by (auto simp: name_list_def comma_names_def list_all_iff)

lemma names_join: "name_list xs \<Longrightarrow> uniq (comma_names (if xs \<noteq> [] then Some (join '','' xs) else None)) = xs"
  using split_list_join [of xs "\<lambda>c. c = CHR '',''"]
  by (auto simp: name_list_def comma_names_def list_all_iff uniq_id)

interpretation trends: url_codec encodeServiceTrends decodeServiceTrends "\<lambda>q. name_list (tq_services q)"
proof
  show "name_list (tq_services (decodeServiceTrends u))" for u
    by (simp add: decodeServiceTrends_def Let_def names_uniq)
  show "decodeServiceTrends (encodeServiceTrends q) = q" if n: "name_list (tq_services q)" for q
  proof -
    have "isWindow None = False" by (simp add: isWindow_def)
    moreover have "tq_metric q \<noteq> DEFAULT_TREND_METRIC \<Longrightarrow> tq_metric q = Stored Queries \<or> tq_metric q = Qps"
      by (cases "tq_metric q") (auto simp: DEFAULT_TREND_METRIC_def intro: TrendMetric.exhaust)
    moreover have "tq_scope q = (if tq_scope q = Scope_main then Scope_main else DEFAULT_TREND_SCOPE)"
      by (cases "tq_scope q") (simp_all add: DEFAULT_TREND_SCOPE_def)
    ultimately have "decodeServiceTrends (encodeServiceTrends q) =
        \<lparr>tq_window = tq_window q, tq_metric = tq_metric q, tq_scope = tq_scope q, tq_services = tq_services q\<rparr>"
      using names_join [OF n]
      by (auto simp: decodeServiceTrends_def encodeServiceTrends_def Let_def view_name_def)
    then show ?thesis by simp
  qed
qed

section \<open>Ranges and windows\<close>

definition trendsRangePatch :: "string \<Rightarrow> string \<Rightarrow> (string \<times> string) option" where
  "trendsRangePatch from to = (if from = ''now-1h'' \<and> to = ''now'' then Some DEFAULT_TREND_RANGE else None)"

definition windowSeconds :: "TrendWindow \<Rightarrow> int" where
  "windowSeconds w = (case List.find (\<lambda>c. tw_value c = w) TREND_WINDOWS of Some c \<Rightarrow> tw_seconds c | None \<Rightarrow> 3600)"

definition windowLabel :: "TrendWindow \<Rightarrow> string" where
  "windowLabel w = (case List.find (\<lambda>c. tw_value c = w) TREND_WINDOWS of Some c \<Rightarrow> tw_label c | None \<Rightarrow> window_name w)"

definition trendPointCount :: "int \<times> int \<Rightarrow> TrendWindow \<Rightarrow> int" where
  "trendPointCount r w = \<lfloor>of_int (snd r - fst r) / 1000 / (of_int (windowSeconds w) :: rat)\<rfloor>"

definition rangeTooLong :: "int \<times> int \<Rightarrow> TrendWindow \<Rightarrow> string option" where
  "rangeTooLong r w =
     (let points = trendPointCount r w in
      if points \<le> MAX_TREND_POINTS then None
      else Some (''That range holds '' @ formatExact (Some points) @ '' '' @ windowLabel w @
        '' windows, more than the '' @ formatExact (Some MAX_TREND_POINTS) @
        '' a chart can show. Choose a coarser window or a shorter range.''))"

definition rangeTooShort :: "int \<times> int \<Rightarrow> TrendWindow \<Rightarrow> string option" where
  "rangeTooShort r w =
     (if trendPointCount r w \<ge> 2 then None
      else Some (''This range holds one '' @ windowLabel w @ '' window at most, which is a single point. '' @
        ''Widen the range, or choose a finer window.''))"

definition trendMetricLabel :: "TrendView \<Rightarrow> string" where
  "trendMetricLabel v = (if v = Qps then ''queries per second'' else if v = Stored Queries then ''DNS queries'' else ''unique clients'')"

definition trendMetricNoun :: "TrendView \<Rightarrow> string" where
  "trendMetricNoun v = (if v = Qps then ''queries/sec'' else if v = Stored Queries then ''queries'' else ''clients'')"

definition trendMetricIsAdditive :: "TrendView \<Rightarrow> bool" where
  "trendMetricIsAdditive v \<longleftrightarrow> v = Stored Queries \<or> v = Qps"

definition windowHelp :: "TrendView \<Rightarrow> string" where
  "windowHelp v =
     (if v = Qps then
        ''A point is the average rate across one window, so a coarser window flattens bursts: '' @
        ''3,600 queries in a single minute read as 1/sec over an hour and 12/sec over 5 minutes.''
      else if v = Stored Queries then
        ''Every window is counted separately, so a point is the queries in one window '' @ EMDASH @ '' not a running total.''
      else ''Every window is counted separately and unique counts cannot be added up: a day'' @ RSQUO @
        ''s unique clients is not the sum of its hours, because a client active all day is still one client.'')"

definition scopeHelp :: "TrendScope \<Rightarrow> string" where
  "scopeHelp s =
     (if s = Scope_main then
        ''Background CDN and API traffic is left out, so this is closer to who opened a service; one with no main domains is not counted at all.''
      else ''Background CDN and API traffic counts towards a service too, which inflates who '' @ LDQUO @ ''used'' @ RDQUO @
        '' it; main domains only is closer to who opened it.'')"

record TrendService =
  sv_name :: string
  sv_label :: string
  sv_domains :: "string list"
  sv_main_domains :: "string list option"
  sv_country :: "string option"
  sv_enabled :: bool

definition mainScopeEmptyHint :: "TrendService list \<Rightarrow> string list \<Rightarrow> string option" where
  "mainScopeEmptyHint services selected =
     (let counted = filter (\<lambda>s. sv_enabled s \<and> (selected = [] \<or> List.member selected (sv_name s))) services in
      if counted = [] then None
      else if list_ex (\<lambda>s. orElse (sv_main_domains s) [] \<noteq> []) counted then None
      else Some (if length counted = 1 then
        ''This service has no main domains, so this scope counts nothing for it. Add them in the catalog, or count all domains.''
      else ''None of these services have main domains, so this scope counts nothing. Add them in the catalog, or count all domains.''))"

record ServiceTrendPeak =
  pk_service :: string
  pk_label :: "string option"
  pk_value :: rat
  pk_at :: string

definition peakSentence ::
  "(string \<Rightarrow> string \<Rightarrow> string \<Rightarrow> string) \<Rightarrow> (rat \<Rightarrow> string) \<Rightarrow> ServiceTrendPeak \<Rightarrow> TrendWindow \<Rightarrow> TrendView \<Rightarrow> string \<Rightarrow> rat \<Rightarrow> string" where
  "peakSentence fmt_time compactFmt peak w metric tz stepSeconds =
     (let day = fmt_time (pk_at peak) tz ''d MMM'';
          when = (if w = Win_1d then ''on '' @ day else ''at '' @ fmt_time (pk_at peak) tz ''HH:mm'' @ '' on '' @ day);
          who = (if orElse (pk_label peak) [] \<noteq> [] then orElse (pk_label peak) [] else pk_service peak);
          v = pk_value peak / trendDivisor metric stepSeconds
      in ''Most '' @ trendMetricLabel metric @ '': '' @ who @ '', '' @ formatTrendValue compactFmt metric (Some v) @ '' '' @
         trendMetricNoun metric @ '' '' @ when)"

section \<open>The chart\<close>

record ServiceTrendPoint =
  pt_at :: string
  pt_value :: rat

record ServiceTrendSeries =
  tse_service :: string
  tse_label :: "string option"
  tse_points :: "ServiceTrendPoint list"
  tse_peak :: rat

record ServiceTrendResponse =
  tre_step_seconds :: rat
  tre_series :: "ServiceTrendSeries list"

record TrendChartSeries =
  tcs_key :: string
  tcs_label :: string
  tcs_service :: string
  tcs_peak :: rat

record TrendChartData =
  tcd_rows :: "ChartRow list"
  tcd_series :: "TrendChartSeries list"
  tcd_hidden :: nat

text \<open>One point of a series put into the rows, which are keyed by their time.\<close>

definition add_point ::
  "(string \<Rightarrow> int option) \<Rightarrow> rat \<Rightarrow> string \<Rightarrow> ServiceTrendPoint \<Rightarrow> (int option \<times> ChartRow) list \<Rightarrow> (int option \<times> ChartRow) list" where
  "add_point parse_date per key p rows =
     (let t = parse_date (pt_at p);
          row = orElse (map_of rows t) \<lparr>cr_t = t, cr_cells = []\<rparr>
      in AList.update t (row\<lparr>cr_cells := AList.update key (pt_value p / per) (cr_cells row)\<rparr>) rows)"

definition trend_rows ::
  "(string \<Rightarrow> int option) \<Rightarrow> rat \<Rightarrow> ServiceTrendSeries list \<Rightarrow> (int option \<times> ChartRow) list" where
  "trend_rows parse_date per shown =
     fold (\<lambda>(i, s) rows. fold (add_point parse_date per (series_key i)) (tse_points s) rows) (enumerate 0 shown) []"

text \<open>The order of \<open>a.t - b.t\<close>; an invalid time compares as equal.\<close>

definition row_le :: "ChartRow \<Rightarrow> ChartRow \<Rightarrow> bool" where
  "row_le a b = (case (cr_t a, cr_t b) of (Some x, Some y) \<Rightarrow> x \<le> y | _ \<Rightarrow> True)"

definition trendChartData ::
  "(string \<Rightarrow> int option) \<Rightarrow> ServiceTrendResponse option \<Rightarrow> nat \<Rightarrow> TrendView \<Rightarrow> TrendChartData" where
  "trendChartData parse_date res limit1 view =
     (case res of
        None \<Rightarrow> \<lparr>tcd_rows = [], tcd_series = [], tcd_hidden = 0\<rparr>
      | Some r \<Rightarrow>
          (let per = trendDivisor view (tre_step_seconds r);
               shown = take limit1 (tre_series r)
           in \<lparr>tcd_rows = sort_by row_le (map snd (trend_rows parse_date per shown)),
               tcd_series = map (\<lambda>(i, s). \<lparr>tcs_key = series_key i,
                 tcs_label = (if orElse (tse_label s) [] \<noteq> [] then orElse (tse_label s) [] else tse_service s),
                 tcs_service = tse_service s, tcs_peak = tse_peak s / per\<rparr>) (enumerate 0 shown),
               tcd_hidden = length (tre_series r) - length shown\<rparr>))"

definition serviceFilterLabel :: "string list \<Rightarrow> (string \<Rightarrow> string option) \<Rightarrow> string" where
  "serviceFilterLabel selected labelOf =
     (case selected of
        [] \<Rightarrow> ''All services''
      | [x] \<Rightarrow> orElse (labelOf x) x
      | _ \<Rightarrow> show_nat (length selected) @ '' services'')"

section \<open>What the chart shows\<close>

text \<open>The cell of a row table, and the value a series has at a time: its last point there.\<close>

definition cell :: "(int option \<times> ChartRow) list \<Rightarrow> int option \<Rightarrow> string \<Rightarrow> rat option" where
  "cell rows t k = (case map_of rows t of None \<Rightarrow> None | Some row \<Rightarrow> map_of (cr_cells row) k)"

definition trend_value :: "(string \<Rightarrow> int option) \<Rightarrow> rat \<Rightarrow> ServiceTrendPoint list \<Rightarrow> int option \<Rightarrow> rat option" where
  "trend_value parse_date per ps t = map_of (rev (map (\<lambda>p. (parse_date (pt_at p), pt_value p / per)) ps)) t"

lemma cell_add:
  "cell (add_point parse_date per key p rows) t k =
     (if t = parse_date (pt_at p) \<and> k = key then Some (pt_value p / per) else cell rows t k)"
  by (cases "map_of rows t") (auto simp: cell_def add_point_def Let_def update_conv')

lemma cell_series:
  "cell (fold (add_point parse_date per key) ps rows) t k =
     (if k = key \<and> trend_value parse_date per ps t \<noteq> None then trend_value parse_date per ps t else cell rows t k)"
proof (induction ps arbitrary: rows)
  case (Cons p ps)
  show ?case
    using Cons [of "add_point parse_date per key p rows"]
    by (auto simp: cell_add trend_value_def map_add_def split: option.splits)
qed (simp add: trend_value_def)

lemma cell_rows_from:
  "cell (fold (\<lambda>(i, s) rows. fold (add_point parse_date per (series_key i)) (tse_points s) rows) (enumerate n shown) rows) t (series_key i) =
     (if n \<le> i \<and> i < n + length shown \<and> trend_value parse_date per (tse_points (shown ! (i - n))) t \<noteq> None
      then trend_value parse_date per (tse_points (shown ! (i - n))) t else cell rows t (series_key i))"
proof (induction shown arbitrary: n rows)
  case (Cons s shown)
  show ?case
  proof (cases "i = n")
    case True
    then show ?thesis using Cons [of "Suc n"] by (simp add: cell_series)
  next
    case False
    then have "n \<le> i \<Longrightarrow> (s # shown) ! (i - n) = shown ! (i - Suc n)" by (simp add: nth_Cons')
    with False Cons [of "Suc n"] show ?thesis by (auto simp: cell_series inj_series_key)
  qed
qed auto

lemma cell_trend_rows:
  "i < length shown \<Longrightarrow> cell (trend_rows parse_date per shown) t (series_key i) = trend_value parse_date per (tse_points (shown ! i)) t"
  using cell_rows_from [of parse_date per 0 shown "[]" t i]
  by (auto simp: trend_rows_def cell_def)

text \<open>The table's keys are distinct, are the times of the points, and name their row's time.\<close>

definition rows_ok :: "(int option \<times> ChartRow) list \<Rightarrow> bool" where
  "rows_ok rows \<longleftrightarrow> distinct (map fst rows) \<and> (\<forall>(t, row) \<in> set rows. cr_t row = t)"

lemma rows_ok_add: "rows_ok rows \<Longrightarrow> rows_ok (add_point parse_date per key p rows)"
proof -
  assume ok: "rows_ok rows"
  let ?t = "parse_date (pt_at p)"
  have t: "cr_t (orElse (map_of rows ?t) \<lparr>cr_t = ?t, cr_cells = []\<rparr>) = ?t"
    using ok by (cases "map_of rows ?t") (auto simp: rows_ok_def dest: map_of_SomeD)
  have "set (AList.update k v al) \<subseteq> insert (k, v) (set al)" for k and v :: ChartRow and al
    by (induction al) auto
  then show ?thesis using ok t by (fastforce simp: rows_ok_def add_point_def Let_def distinct_update)
qed

lemma keys_add: "fst ` set (add_point parse_date per key p rows) = insert (parse_date (pt_at p)) (fst ` set rows)"
  by (simp add: add_point_def Let_def dom_update)

lemma rows_ok_series: "rows_ok rows \<Longrightarrow> rows_ok (fold (add_point parse_date per key) ps rows)"
  by (induction ps arbitrary: rows) (simp_all add: rows_ok_add)

lemma keys_series:
  "fst ` set (fold (add_point parse_date per key) ps rows) = (\<lambda>p. parse_date (pt_at p)) ` set ps \<union> fst ` set rows"
  by (induction ps arbitrary: rows) (simp_all add: keys_add)

lemma trend_rows_ok:
  "rows_ok (trend_rows parse_date per shown) \<and>
   fst ` set (trend_rows parse_date per shown) = (\<Union>s \<in> set shown. (\<lambda>p. parse_date (pt_at p)) ` set (tse_points s))"
proof -
  have "rows_ok (fold (\<lambda>(i, s) rows. fold (add_point parse_date per (series_key i)) (tse_points s) rows) (enumerate n shown) rows) \<and>
      fst ` set (fold (\<lambda>(i, s) rows. fold (add_point parse_date per (series_key i)) (tse_points s) rows) (enumerate n shown) rows) =
      (\<Union>s \<in> set shown. (\<lambda>p. parse_date (pt_at p)) ` set (tse_points s)) \<union> fst ` set rows"
    if "rows_ok rows" for n rows
    using that by (induction shown arbitrary: n rows) (auto simp: rows_ok_series keys_series)
  from this [of "[]" 0] show ?thesis by (simp add: trend_rows_def rows_ok_def)
qed

lemma insert_by_cong:
  "(\<forall>y \<in> set ys. le x y = le' x y) \<Longrightarrow> insert_by le x ys = insert_by le' x ys"
  by (induction ys) auto

lemma sort_by_cong:
  "(\<And>x y. x \<in> set xs \<Longrightarrow> y \<in> set xs \<Longrightarrow> le x y = le' x y) \<Longrightarrow> sort_by le xs = sort_by le' xs"
proof (induction xs)
  case (Cons x xs)
  then have "sort_by le xs = sort_by le' xs" by simp
  moreover have "insert_by le x (sort_by le' xs) = insert_by le' x (sort_by le' xs)"
    using Cons.prems by (intro insert_by_cong) simp
  ultimately show ?case by (simp add: sort_by_def)
qed (simp add: sort_by_def)

section \<open>Properties\<close>

text \<open>C36. The URLs of the analytics page settle: decoding any parameters, writing the query back and decoding again
  gives the same query, for the aggregation and for the trends; and a query that was chosen in the page is
  the one a shared link opens.\<close>

theorem analytics_urls_settle:
  "decodeAnalytics (encodeAnalytics (decodeAnalytics a)) = decodeAnalytics a \<and>
   decodeServiceTrends (encodeServiceTrends (decodeServiceTrends b)) = decodeServiceTrends b \<and>
   (analytics_normal q \<and> name_list (tq_services r) \<longrightarrow>
      decodeAnalytics (encodeAnalytics q) = q \<and> decodeServiceTrends (encodeServiceTrends r) = r)"
  using agg.settles trends.settles agg.decode_encode trends.decode_encode by blast

theorem analytics_urls_settle_witness:
  "decodeAnalytics (encodeAnalytics \<lparr>aq_groupBy = ''host'', aq_metric = CountDistinct (Some ''user''), aq_limit = 20\<rparr>) =
     \<lparr>aq_groupBy = ''host'', aq_metric = CountDistinct (Some ''user''), aq_limit = 20\<rparr> \<and>
   decodeServiceTrends (encodeServiceTrends \<lparr>tq_window = Win_1d, tq_metric = Qps, tq_scope = Scope_main, tq_services = [''a'', ''b'']\<rparr>) =
     \<lparr>tq_window = Win_1d, tq_metric = Qps, tq_scope = Scope_main, tq_services = [''a'', ''b'']\<rparr>"
proof -
  have "analytics_normal \<lparr>aq_groupBy = ''host'', aq_metric = CountDistinct (Some ''user''), aq_limit = 20\<rparr>"
    by (simp add: analytics_normal_def opt_name_def trimmed_def is_space_def TOP_OPTIONS_def)
  moreover have "name_list [''a'', ''b'']"
    by (simp add: name_list_def list_item_def trimmed_def is_space_def)
  ultimately show ?thesis
    using analytics_urls_settle [of _ _ "\<lparr>aq_groupBy = ''host'', aq_metric = CountDistinct (Some ''user''), aq_limit = 20\<rparr>"
        "\<lparr>tq_window = Win_1d, tq_metric = Qps, tq_scope = Scope_main, tq_services = [''a'', ''b'']\<rparr>"] by simp
qed

text \<open>C37. The trend chart shows the recorded points and nothing else: its rows are in strict order of time and are the
  union of the shown services' timestamps, and in each of them a service has its own value for that time, divided
  by the window for a rate, or no value where none was recorded.\<close>

theorem trendChartData_shows:
  assumes "\<forall>s \<in> set (take n (tre_series r)). \<forall>p \<in> set (tse_points s). parse_date (pt_at p) \<noteq> None"
    and "rows = tcd_rows (trendChartData parse_date (Some r) n view)"
    and "shown = take n (tre_series r)"
  shows "sorted_wrt (<) (map (the \<circ> cr_t) rows) \<and>
    cr_t ` set rows = (\<Union>s \<in> set shown. (\<lambda>p. parse_date (pt_at p)) ` set (tse_points s)) \<and>
    (\<forall>row \<in> set rows. \<forall>i < length shown.
       map_of (cr_cells row) (series_key i) =
       trend_value parse_date (trendDivisor view (tre_step_seconds r)) (tse_points (shown ! i)) (cr_t row))"
proof -
  let ?per = "trendDivisor view (tre_step_seconds r)"
  let ?T = "trend_rows parse_date ?per shown"
  have rows: "rows = sort_by row_le (map snd ?T)"
    using assms(2,3) by (simp add: trendChartData_def Let_def)
  have ok: "rows_ok ?T" and keys: "fst ` set ?T = (\<Union>s \<in> set shown. (\<lambda>p. parse_date (pt_at p)) ` set (tse_points s))"
    using trend_rows_ok [of parse_date ?per shown] by simp_all
  have ts: "map (cr_t \<circ> snd) ?T = map fst ?T" using ok by (auto simp: rows_ok_def)
  then have times: "cr_t ` set rows = fst ` set ?T"
    unfolding rows by (metis (no_types, lifting) image_comp list.set_map set_sort_by)
  have valid: "cr_t row \<noteq> None" if "row \<in> set rows" for row
  proof -
    have "cr_t row \<in> (\<Union>s \<in> set shown. (\<lambda>p. parse_date (pt_at p)) ` set (tse_points s))"
      using that times keys by blast
    then show ?thesis using assms(1,3) by fastforce
  qed
  let ?le = "\<lambda>a b. the (cr_t a) \<le> the (cr_t b)"
  have "rows = sort_by ?le (map snd ?T)"
    unfolding rows by (rule sort_by_cong) (use valid rows in \<open>force simp: row_le_def split: option.splits\<close>)
  then have "sorted (map (the \<circ> cr_t) rows)"
    using sorted_sort_by [of ?le "map snd ?T"] by (simp add: sorted_wrt_map transp_def linear)
  moreover have "distinct (map (the \<circ> cr_t) rows)"
  proof -
    have "distinct (map fst ?T)" using ok by (simp add: rows_ok_def)
    then have "distinct (map cr_t rows)"
      using ts rows by (metis (no_types, lifting) map_map mset_eq_imp_distinct_iff mset_map mset_sort_by)
    moreover have "inj_on the (set (map cr_t rows))"
    proof (rule inj_onI)
      fix x y
      assume "x \<in> set (map cr_t rows)" "y \<in> set (map cr_t rows)" "the x = the y"
      moreover from this have "x \<noteq> None" "y \<noteq> None" using valid by auto
      ultimately show "x = y" by auto
    qed
    ultimately have "distinct (map the (map cr_t rows))" by (simp only: distinct_map)
    then show ?thesis by (simp only: map_map)
  qed
  ultimately have strict: "sorted_wrt (<) (map (the \<circ> cr_t) rows)" by (rule strict_sorted_iff [THEN iffD2, OF conjI])
  have cells: "map_of (cr_cells row) (series_key i) = trend_value parse_date ?per (tse_points (shown ! i)) (cr_t row)"
    if "row \<in> set rows" and "i < length shown" for row i
  proof -
    have "row \<in> snd ` set ?T" using that(1) unfolding rows by simp
    then obtain t where t: "(t, row) \<in> set ?T" by force
    then have "cr_t row = t" "map_of ?T t = Some row" using ok by (auto simp: rows_ok_def)
    then show ?thesis using cell_trend_rows [OF that(2), of parse_date ?per t] by (simp add: cell_def)
  qed
  show ?thesis using strict times keys cells by (intro conjI ballI allI impI) simp_all
qed

definition sample_trend :: ServiceTrendResponse where
  "sample_trend =
     \<lparr>tre_step_seconds = 60,
      tre_series = [\<lparr>tse_service = ''a'', tse_label = None, tse_points = [\<lparr>pt_at = ''2'', pt_value = 120\<rparr>, \<lparr>pt_at = ''1'', pt_value = 60\<rparr>], tse_peak = 120\<rparr>]\<rparr>"

theorem trendChartData_shows_witness:
  "sorted_wrt (<) (map (the \<circ> cr_t) (tcd_rows (trendChartData (\<lambda>s. Some (int (read_nat s))) (Some sample_trend) 8 Qps)))"
  using trendChartData_shows [of 8 sample_trend "\<lambda>s. Some (int (read_nat s))" _ Qps, OF _ refl refl] by simp

end
