(* ===== verification/Service_Catalog.thy ===== *)
theory Service_Catalog
  imports Service_Trends Problems Form_Fields
begin

text \<open>
  The service catalog editor: \<open>src/frontend/src/features/analytics/service-catalog.ts\<close>. The module's key counter is
  passed in and out; the messages of a row are the value of an association list from positions.
\<close>

section \<open>Forms\<close>

definition MAX_SERVICES :: nat where "MAX_SERVICES = 32"
definition MAX_DOMAINS_PER_SERVICE :: nat where "MAX_DOMAINS_PER_SERVICE = 32"
definition MAX_NAME_CHARS :: nat where "MAX_NAME_CHARS = 64"
definition MAX_LABEL_CHARS :: nat where "MAX_LABEL_CHARS = 64"

record ServiceForm =
  svf_key :: string
  svf_name :: string
  svf_label :: string
  svf_domains :: string
  svf_mainDomains :: string
  svf_country :: string
  svf_enabled :: bool

text \<open>\<open>newServiceForm\<close> with the values of a catalog entry, and the empty row the editor adds.\<close>

definition newServiceForm :: "string \<Rightarrow> string \<Rightarrow> string \<Rightarrow> string \<Rightarrow> string \<Rightarrow> bool \<Rightarrow> nat \<Rightarrow> ServiceForm \<times> nat" where
  "newServiceForm name label domains mainDomains country enabled serviceKeySeq =
     (let n = serviceKeySeq + 1 in
      (\<lparr>svf_key = ''service-'' @ show_nat n, svf_name = name, svf_label = label, svf_domains = domains,
        svf_mainDomains = mainDomains, svf_country = country, svf_enabled = enabled\<rparr>, n))"

definition emptyServiceForm :: "nat \<Rightarrow> ServiceForm \<times> nat" where
  "emptyServiceForm = newServiceForm [] [] [] [] [] True"

fun catalogToForm :: "TrendService list \<Rightarrow> nat \<Rightarrow> ServiceForm list \<times> nat" where
  "catalogToForm [] n = ([], n)"
| "catalogToForm (s # ss) n =
     (let (f, n1) = newServiceForm (sv_name s) (sv_label s) (join [NL] (sv_domains s))
            (join [NL] (orElse (sv_main_domains s) [])) (orElse (sv_country s) []) (sv_enabled s) n;
          (fs, n2) = catalogToForm ss n1
      in (f # fs, n2))"

definition domain_sep :: "char \<Rightarrow> bool" where
  "domain_sep c \<longleftrightarrow> c = NL \<or> c = CHR '',''"

definition parseDomains :: "string \<Rightarrow> string list" where
  "parseDomains s = uniq (filter (\<lambda>d. d \<noteq> []) (map (\<lambda>d. toLowerCase (trim d)) (split_on domain_sep s)))"

definition is_dot :: "char \<Rightarrow> bool" where
  "is_dot c \<longleftrightarrow> c = CHR ''.''"

definition normalDomain :: "string \<Rightarrow> string" where
  "normalDomain d = rev (dropWhile is_dot (rev (dropWhile is_dot d)))"

definition form_to_service :: "ServiceForm \<Rightarrow> TrendService" where
  "form_to_service f =
     \<lparr>sv_name = trim (svf_name f), sv_label = trim (svf_label f), sv_domains = parseDomains (svf_domains f),
      sv_main_domains = nonempty (parseDomains (svf_mainDomains f)),
      sv_country = nonempty (normalCountry (Some (svf_country f))), sv_enabled = svf_enabled f\<rparr>"

definition formToServices :: "ServiceForm list \<Rightarrow> TrendService list" where
  "formToServices forms = map form_to_service forms"

text \<open>The shipped entries' countries by lower-case name; a later entry of the same name wins.\<close>

definition known_countries :: "TrendService list \<Rightarrow> string entries" where
  "known_countries shipped =
     fold (\<lambda>s known. let c = normalCountry (sv_country s) in
       if c \<noteq> [] then AList.update (toLowerCase (trim (sv_name s))) c known else known) shipped []"

definition fill_country :: "string entries \<Rightarrow> ServiceForm \<Rightarrow> ServiceForm option" where
  "fill_country known row =
     (if normalCountry (Some (svf_country row)) \<noteq> [] then None
      else case map_of known (toLowerCase (trim (svf_name row))) of
        Some c \<Rightarrow> if c \<noteq> [] then Some (row\<lparr>svf_country := c\<rparr>) else None
      | None \<Rightarrow> None)"

definition fillCountries :: "ServiceForm list \<Rightarrow> TrendService list \<Rightarrow> ServiceForm list \<times> string list" where
  "fillCountries rows shipped =
     (let known = known_countries shipped;
          filled = map (\<lambda>row. if trim (svf_label row) \<noteq> [] then trim (svf_label row) else trim (svf_name row))
            (filter (\<lambda>row. fill_country known row \<noteq> None) rows);
          next1 = map (\<lambda>row. orElse (fill_country known row) row) rows
      in (if filled \<noteq> [] then next1 else rows, filled))"

section \<open>Validation\<close>

record CatalogErrors =
  ce_rows :: "(nat \<times> string) list"
  ce_general :: "string list"

definition emptyCatalogErrors :: CatalogErrors where
  "emptyCatalogErrors = \<lparr>ce_rows = [], ce_general = []\<rparr>"

definition hasCatalogErrors :: "CatalogErrors \<Rightarrow> bool" where
  "hasCatalogErrors e \<longleftrightarrow> ce_general e \<noteq> [] \<or> ce_rows e \<noteq> []"

definition addRowError :: "nat \<Rightarrow> string \<Rightarrow> CatalogErrors \<Rightarrow> CatalogErrors" where
  "addRowError row message e =
     (let existing = orElse (map_of (ce_rows e) row) [] in
      e\<lparr>ce_rows := AList.update row (if existing \<noteq> [] then existing @ '' '' @ message else message) (ce_rows e)\<rparr>)"

definition name_char :: "char \<Rightarrow> bool" where
  "name_char c \<longleftrightarrow> is_lower c \<or> is_digit c \<or> c = CHR ''_'' \<or> c = CHR ''-''"

definition serviceNameError :: "string \<Rightarrow> string option" where
  "serviceNameError name =
     (if name = [] then Some ''A name is required.''
      else if length name > MAX_NAME_CHARS then Some (''The name is longer than '' @ show_nat MAX_NAME_CHARS @ '' characters.'')
      else case List.find (\<lambda>c. \<not> name_char c) name of
        None \<Rightarrow> None
      | Some bad \<Rightarrow> Some (''The name cannot contain '' @ LDQUO @ [bad] @ RDQUO @ ''; use lower-case letters, digits, - and _.''))"

definition plain_domain :: "string \<Rightarrow> bool" where
  "plain_domain d \<longleftrightarrow> \<not> list_ex (\<lambda>c. c = DQ \<or> c = SQ \<or> c = CHR ''*'' \<or> is_space c) d"

definition domainError :: "string \<Rightarrow> string option" where
  "domainError d =
     (if \<not> plain_domain d then Some (LDQUO @ d @ RDQUO @ '' must be a plain domain name, without spaces or wildcards.'')
      else if \<not> list_ex is_dot (normalDomain d) then Some (LDQUO @ d @ RDQUO @ '' must be a domain name, such as tiktok.com.'')
      else None)"

definition when_msg :: "bool \<Rightarrow> string \<Rightarrow> string list" where
  "when_msg b m = (if b then [m] else [])"

definition main_domain_msg :: "string list \<Rightarrow> string \<Rightarrow> string list" where
  "main_domain_msg owned d =
     (case domainError d of
        Some m \<Rightarrow> [m]
      | None \<Rightarrow> when_msg (\<not> List.member owned (normalDomain d))
          (''Main domain '' @ LDQUO @ d @ RDQUO @ '' is not one of this service'' @ RSQUO @ ''s domains.''))"

text \<open>The messages of one row, in the order they are added; \<open>seen\<close> holds the names of the rows before it.\<close>

definition row_messages :: "string list \<Rightarrow> ServiceForm \<Rightarrow> string list" where
  "row_messages seen form =
     (let name = trim (svf_name form); domains = parseDomains (svf_domains form) in
      (case serviceNameError name of
         Some m \<Rightarrow> [m]
       | None \<Rightarrow> when_msg (List.member seen name) ''Another service already uses this name.'') @
      when_msg (length (trim (svf_label form)) > MAX_LABEL_CHARS)
        (''The label is longer than '' @ show_nat MAX_LABEL_CHARS @ '' characters.'') @
      when_msg (list_ex (\<lambda>c. c = NL \<or> c = CR) (svf_label form)) ''The label must be a single line.'' @
      (if domains = [] then [''Add at least one domain.'']
       else when_msg (length domains > MAX_DOMAINS_PER_SERVICE)
         (''At most '' @ show_nat MAX_DOMAINS_PER_SERVICE @ '' domains are allowed; this one has '' @ show_nat (length domains) @ ''.'')) @
      concat (map (\<lambda>d. case domainError d of Some m \<Rightarrow> [m] | None \<Rightarrow> []) domains) @
      concat (map (main_domain_msg (map normalDomain domains)) (parseDomains (svf_mainDomains form))))"

fun validate_rows :: "nat \<Rightarrow> string list \<Rightarrow> ServiceForm list \<Rightarrow> CatalogErrors \<Rightarrow> CatalogErrors" where
  "validate_rows i seen [] e = e"
| "validate_rows i seen (form # forms) e =
     validate_rows (i + 1) (trim (svf_name form) # seen) forms (fold (addRowError i) (row_messages seen form) e)"

definition validateCatalog :: "ServiceForm list \<Rightarrow> CatalogErrors" where
  "validateCatalog forms =
     validate_rows 0 [] forms
       (if length forms > MAX_SERVICES then
          emptyCatalogErrors\<lparr>ce_general := [''At most '' @ show_nat MAX_SERVICES @ '' services are allowed; the catalog has '' @
            show_nat (length forms) @ ''.'']\<rparr>
        else emptyCatalogErrors)"

section \<open>The server's complaints\<close>

text \<open>\<open>service "name": message\<close> and \<open>service 3: message\<close>; the text has no blanks around it.\<close>

definition after_colon :: "string \<Rightarrow> string option" where
  "after_colon s =
     (if startsWith s '':'' \<and> trimStart (drop 1 s) \<noteq> [] then Some (trim (drop 1 s)) else None)"

definition serviceErrorIndex :: "TrendService list \<Rightarrow> string \<Rightarrow> (nat \<times> string) option" where
  "serviceErrorIndex services s =
     (let quoted = startsWith s (''service '' @ [DQ]);
          inner = drop 9 s;
          name = takeWhile (\<lambda>c. c \<noteq> DQ) inner;
          named = (if quoted \<and> dropWhile (\<lambda>c. c \<noteq> DQ) inner \<noteq> [] then after_colon (drop 1 (dropWhile (\<lambda>c. c \<noteq> DQ) inner)) else None);
          digits = takeWhile is_digit (drop 8 s);
          positional = (if startsWith s ''service '' \<and> digits \<noteq> [] then after_colon (dropWhile is_digit (drop 8 s)) else None)
      in case named of
           Some m \<Rightarrow> map_option (\<lambda>i. (i, m)) (find_index (\<lambda>t. sv_name t = name) services)
         | None \<Rightarrow>
             (case positional of
                Some m \<Rightarrow>
                  (if 1 \<le> read_nat digits \<and> read_nat digits - 1 < length services then Some (read_nat digits - 1, m) else None)
              | None \<Rightarrow> None))"

definition add_complaint :: "TrendService list \<Rightarrow> string \<Rightarrow> CatalogErrors \<Rightarrow> CatalogErrors" where
  "add_complaint services line e =
     (let s = trim line in
      if s = [] then e
      else case serviceErrorIndex services s of
        Some (i, m) \<Rightarrow> addRowError i m e
      | None \<Rightarrow> e\<lparr>ce_general := ce_general e @ [s]\<rparr>)"

definition problem_text :: "Problem option \<Rightarrow> string \<Rightarrow> string" where
  "problem_text problem fallback =
     (let joined = join [NL] (map (\<lambda>e. orElse (pe_message e) []) (orElse (Option.bind problem problem_errors) []));
          detail = orElse (Option.bind problem problem_detail) []
      in if joined \<noteq> [] then joined else if detail \<noteq> [] then detail else fallback)"

definition catalogProblemErrors :: "Problem option \<Rightarrow> string \<Rightarrow> TrendService list \<Rightarrow> CatalogErrors" where
  "catalogProblemErrors problem fallback services =
     (let e = fold (add_complaint services) (split_on (\<lambda>c. c = NL) (problem_text problem fallback)) emptyCatalogErrors in
      if hasCatalogErrors e then e else e\<lparr>ce_general := ce_general e @ [fallback]\<rparr>)"

section \<open>What validation accepts\<close>

definition domain_ok :: "string \<Rightarrow> bool" where
  "domain_ok d \<longleftrightarrow> plain_domain d \<and> list_ex is_dot (normalDomain d)"

definition service_ok :: "TrendService \<Rightarrow> bool" where
  "service_ok s \<longleftrightarrow>
     sv_name s \<noteq> [] \<and> length (sv_name s) \<le> MAX_NAME_CHARS \<and> list_all name_char (sv_name s) \<and>
     length (sv_label s) \<le> MAX_LABEL_CHARS \<and>
     sv_domains s \<noteq> [] \<and> length (sv_domains s) \<le> MAX_DOMAINS_PER_SERVICE \<and> list_all domain_ok (sv_domains s) \<and>
     list_all (\<lambda>d. domain_ok d \<and> List.member (map normalDomain (sv_domains s)) (normalDomain d)) (orElse (sv_main_domains s) [])"

definition one_line :: "string \<Rightarrow> bool" where
  "one_line s \<longleftrightarrow> \<not> list_ex (\<lambda>c. c = NL \<or> c = CR) s"

lemma when_msg_Nil [simp]: "when_msg b m = [] \<longleftrightarrow> \<not> b"
  by (simp add: when_msg_def)

lemma domainError_None [simp]: "domainError d = None \<longleftrightarrow> domain_ok d"
  by (simp add: domainError_def domain_ok_def)

lemma serviceNameError_None:
  "serviceNameError n = None \<longleftrightarrow> n \<noteq> [] \<and> length n \<le> MAX_NAME_CHARS \<and> list_all name_char n"
  using find_None_iff [of "\<lambda>c. \<not> name_char c" n]
  by (cases "List.find (\<lambda>c. \<not> name_char c) n") (auto simp: serviceNameError_def list_all_iff)

lemma main_domain_msg_Nil: "main_domain_msg owned d = [] \<longleftrightarrow> domain_ok d \<and> List.member owned (normalDomain d)"
  by (auto simp: main_domain_msg_def split: option.splits simp flip: domainError_None)

lemma domain_msgs_Nil: "(case domainError d of Some m \<Rightarrow> [m] | None \<Rightarrow> []) = [] \<longleftrightarrow> domain_ok d"
  by (auto split: option.splits simp flip: domainError_None)

lemma row_messages_Nil:
  "row_messages seen f = [] \<longleftrightarrow> service_ok (form_to_service f) \<and> one_line (svf_label f) \<and> trim (svf_name f) \<notin> set seen"
proof -
  have name: "(case serviceNameError n of Some m \<Rightarrow> [m] | None \<Rightarrow> when_msg (List.member seen n) m) = [] \<longleftrightarrow>
      serviceNameError n = None \<and> n \<notin> set seen" for n m
    by (auto split: option.splits)
  show ?thesis
    unfolding row_messages_def Let_def append_is_Nil_conv name serviceNameError_None when_msg_Nil concat_eq_Nil_conv
    by (auto simp: service_ok_def form_to_service_def one_line_def list_all_iff domain_msgs_Nil main_domain_msg_Nil
        split: if_splits)
qed

lemma hasErrors_addRow [simp]: "hasCatalogErrors (addRowError i m e)"
  by (simp add: hasCatalogErrors_def addRowError_def Let_def)

lemma hasErrors_fold: "hasCatalogErrors (fold (addRowError i) ms e) \<longleftrightarrow> hasCatalogErrors e \<or> ms \<noteq> []"
proof (induction ms arbitrary: e)
  case (Cons m ms)
  then show ?case by simp
qed simp

lemma hasErrors_rows:
  "hasCatalogErrors (validate_rows i seen forms e) \<longleftrightarrow>
     hasCatalogErrors e \<or>
     \<not> (list_all (\<lambda>f. service_ok (form_to_service f) \<and> one_line (svf_label f)) forms \<and>
        distinct (map (\<lambda>f. trim (svf_name f)) forms) \<and> set (map (\<lambda>f. trim (svf_name f)) forms) \<inter> set seen = {})"
proof (induction forms arbitrary: i seen e)
  case (Cons f forms)
  show ?case
    unfolding validate_rows.simps Cons hasErrors_fold using row_messages_Nil [of seen f] by auto
qed simp

text \<open>A catalog entry as the editor leaves it.\<close>

definition domain_list :: "string list \<Rightarrow> bool" where
  "domain_list ds \<longleftrightarrow> distinct ds \<and> list_all (\<lambda>d. list_item domain_sep d \<and> toLowerCase d = d) ds"

definition service_normal :: "TrendService \<Rightarrow> bool" where
  "service_normal s \<longleftrightarrow>
     trimmed (sv_name s) \<and> trimmed (sv_label s) \<and> domain_list (sv_domains s) \<and>
     sv_main_domains s \<noteq> Some [] \<and> domain_list (orElse (sv_main_domains s) []) \<and>
     nonempty (normalCountry (sv_country s)) = sv_country s"

lemma parseDomains_join: "domain_list ds \<Longrightarrow> parseDomains (join [NL] ds) = ds"
proof (cases "ds = []")
  case False
  assume d: "domain_list ds"
  have "split_on domain_sep (join [NL] ds) = ds"
    using d False by (intro split_on_join) (auto simp: domain_list_def list_all_iff list_item_def domain_sep_def)
  moreover have "map (\<lambda>d. toLowerCase (trim d)) ds = ds" "filter (\<lambda>d. d \<noteq> []) ds = ds"
    using d by (auto simp: domain_list_def list_all_iff list_item_def trim_id intro!: map_idI filter_True)
  ultimately show ?thesis using d by (simp add: parseDomains_def domain_list_def uniq_id)
qed (simp add: parseDomains_def)

lemma normalCountry_Some: "normalCountry (Some (orElse c [])) = normalCountry c"
  by (cases c) (simp_all add: normalCountry_def)

lemma form_to_service_new:
  assumes "service_normal s"
  shows "form_to_service (fst (newServiceForm (sv_name s) (sv_label s) (join [NL] (sv_domains s))
    (join [NL] (orElse (sv_main_domains s) [])) (orElse (sv_country s) []) (sv_enabled s) n)) = s"
  using assms
  by (simp add: service_normal_def form_to_service_def newServiceForm_def Let_def trim_id parseDomains_join normalCountry_Some)

lemma catalog_roundtrip: "list_all service_normal ss \<Longrightarrow> formToServices (fst (catalogToForm ss n)) = ss"
proof (induction ss arbitrary: n)
  case (Cons s ss)
  obtain f n1 where f: "newServiceForm (sv_name s) (sv_label s) (join [NL] (sv_domains s))
      (join [NL] (orElse (sv_main_domains s) [])) (orElse (sv_country s) []) (sv_enabled s) n = (f, n1)" by fastforce
  then have "form_to_service f = s" using form_to_service_new [of s n] Cons.prems by simp
  then show ?case using Cons f by (simp add: formToServices_def case_prod_beta Let_def)
qed (simp add: formToServices_def)

section \<open>Properties\<close>


definition sample_service :: TrendService where
  "sample_service =
     \<lparr>sv_name = ''tiktok'', sv_label = ''TikTok'', sv_domains = [''tiktok.com''], sv_main_domains = None, sv_country = None,
      sv_enabled = True\<rparr>"


end
