(* ===== verification/Api_Client.thy ===== *)
theory Api_Client
  imports Problems "HOL-Library.AList"
begin

text \<open>
  The API client: \<open>src/frontend/src/api/client.ts\<close>. The module's two variables are a record that is passed along; what the
  network answers is part of a request's event. A header list has lower-case names, as \<open>Headers\<close> compares
  them without case, and a handler is named by a number.
\<close>

section \<open>Errors\<close>

record ApiProblem = Problem +
  problem_title :: "string option"
  problem_request_id :: "string option"

record ApiError =
  ae_message :: string
  ae_status :: nat
  ae_problem :: "ApiProblem option"
  ae_requestId :: "string option"

definition new_ApiError :: "nat \<Rightarrow> ApiProblem option \<Rightarrow> string option \<Rightarrow> ApiError" where
  "new_ApiError status problem fallback =
     (let detail = orElse (Option.bind problem problem_detail) [];
          title = orElse (Option.bind problem problem_title) [];
          fb = orElse fallback []
      in \<lparr>ae_message = (if detail \<noteq> [] then detail else if title \<noteq> [] then title else if fb \<noteq> [] then fb
                        else ''Request failed (HTTP '' @ show_nat status @ '')''),
          ae_status = status, ae_problem = problem, ae_requestId = Option.bind problem problem_request_id\<rparr>)"

definition ae_code :: "ApiError \<Rightarrow> string option" where
  "ae_code e = map_option problem_code (ae_problem e)"

text \<open>A response body that was read: an object with a title, a text, or anything else.\<close>

datatype ErrorBody = Body_problem ApiProblem | Body_text string | Body_other

definition toApiError :: "nat \<Rightarrow> ErrorBody \<Rightarrow> ApiError" where
  "toApiError status body =
     (case body of
        Body_problem p \<Rightarrow> new_ApiError status (Some p) None
      | Body_text s \<Rightarrow> new_ApiError status None (if s \<noteq> [] then Some s else None)
      | Body_other \<Rightarrow> new_ApiError status None None)"

section \<open>Requests\<close>

record ClientState =
  cl_csrfToken :: "string option"
  cl_handler :: "nat option"

definition init_client :: ClientState where
  "init_client = \<lparr>cl_csrfToken = None, cl_handler = None\<rparr>"

definition setCsrfToken :: "string option \<Rightarrow> ClientState \<Rightarrow> ClientState" where
  "setCsrfToken token st = st\<lparr>cl_csrfToken := token\<rparr>"

definition onUnauthorized :: "nat option \<Rightarrow> ClientState \<Rightarrow> ClientState" where
  "onUnauthorized handler st = st\<lparr>cl_handler := handler\<rparr>"

definition UNSAFE :: "string list" where
  "UNSAFE = [''POST'', ''PUT'', ''PATCH'', ''DELETE'']"

definition CSRF_HEADER :: string where
  "CSRF_HEADER = ''x-csrf-token''"

record Request =
  rq_method :: string
  rq_path :: string
  rq_headers :: "(string \<times> string) list"

record 'a Response =
  rs_status :: nat
  rs_data :: 'a
  rs_error :: ErrorBody

definition rs_ok :: "'a Response \<Rightarrow> bool" where
  "rs_ok r \<longleftrightarrow> 200 \<le> rs_status r \<and> rs_status r \<le> 299"

definition onRequest :: "ClientState \<Rightarrow> Request \<Rightarrow> Request" where
  "onRequest st rq =
     (let token = orElse (cl_csrfToken st) [] in
      if List.member UNSAFE (rq_method rq) \<and> token \<noteq> [] then rq\<lparr>rq_headers := AList.update CSRF_HEADER token (rq_headers rq)\<rparr>
      else rq)"

definition endsWith :: "string \<Rightarrow> string \<Rightarrow> bool" where
  "endsWith s t = startsWith (rev s) (rev t)"

text \<open>The handlers a response calls.\<close>

definition onResponse :: "ClientState \<Rightarrow> Request \<Rightarrow> 'a Response \<Rightarrow> nat list" where
  "onResponse st rq rs =
     (if rs_status rs = 401 \<and> \<not> endsWith (rq_path rq) ''/auth/login'' then
        (case cl_handler st of None \<Rightarrow> [] | Some h \<Rightarrow> [h])
      else [])"

definition unwrap :: "'a Response \<Rightarrow> ApiError + 'a" where
  "unwrap rs = (if rs_ok rs then Inr (rs_data rs) else Inl (toApiError (rs_status rs) (rs_error rs)))"

text \<open>\<open>rawFetch\<close>: \<open>fetch\<close> is what the network answers to the request that is sent. The result is the request, the
  handlers called, and the outcome.\<close>

definition rawFetch ::
  "(Request \<Rightarrow> 'a Response) \<Rightarrow> ClientState \<Rightarrow> string \<Rightarrow> string option \<Rightarrow> (string \<times> string) list \<Rightarrow>
     Request \<times> nat list \<times> (ApiError + 'a)" where
  "rawFetch fetch st path method headers =
     (let verb = toUpperCase (orElse method ''GET'');
          token = orElse (cl_csrfToken st) [];
          hs = (if List.member UNSAFE verb \<and> token \<noteq> [] then AList.update CSRF_HEADER token headers else headers);
          rq = \<lparr>rq_method = orElse method ''GET'', rq_path = path, rq_headers = hs\<rparr>;
          rs = fetch rq
      in (rq, if rs_status rs = 401 then (case cl_handler st of None \<Rightarrow> [] | Some h \<Rightarrow> [h]) else [],
          if rs_ok rs then Inr (rs_data rs) else Inl (toApiError (rs_status rs) (rs_error rs))))"

section \<open>A session of the client\<close>

datatype 'a api_op = SetToken "string option" | SetHandler "nat option" | Send Request "'a Response"

record 'a Exchange =
  ex_request :: Request
  ex_called :: "nat list"
  ex_result :: "ApiError + 'a"

fun api_step :: "'a api_op \<Rightarrow> ClientState \<Rightarrow> ClientState \<times> 'a Exchange list" where
  "api_step (SetToken t) st = (setCsrfToken t st, [])"
| "api_step (SetHandler h) st = (onUnauthorized h st, [])"
| "api_step (Send rq rs) st =
     (st, [\<lparr>ex_request = onRequest st rq, ex_called = onResponse st rq rs, ex_result = unwrap rs\<rparr>])"

fun api_run :: "'a api_op list \<Rightarrow> ClientState \<Rightarrow> ClientState \<times> 'a Exchange list" where
  "api_run [] st = (st, [])"
| "api_run (p # ps) st =
     (let (st1, xs) = api_step p st; (st2, ys) = api_run ps st1 in (st2, xs @ ys))"

text \<open>What is in force after some operations: the last token and the last handler given.\<close>

definition token_after :: "'a api_op list \<Rightarrow> string" where
  "token_after ps = fold (\<lambda>p t. case p of SetToken v \<Rightarrow> orElse v [] | _ \<Rightarrow> t) ps []"

definition handler_after :: "'a api_op list \<Rightarrow> nat option" where
  "handler_after ps = fold (\<lambda>p h. case p of SetHandler v \<Rightarrow> v | _ \<Rightarrow> h) ps None"

lemma api_run_append:
  "api_run (ps @ qs) st = (fst (api_run qs (fst (api_run ps st))), snd (api_run ps st) @ snd (api_run qs (fst (api_run ps st))))"
  by (induction ps arbitrary: st) (auto simp: case_prod_beta Let_def)

lemma state_after:
  "orElse (cl_csrfToken (fst (api_run ps init_client))) [] = token_after ps \<and>
   cl_handler (fst (api_run ps init_client)) = handler_after ps"
proof (induction ps rule: rev_induct)
  case (snoc p ps)
  then show ?case
    by (cases p) (simp_all add: api_run_append token_after_def handler_after_def setCsrfToken_def onUnauthorized_def)
qed (simp add: init_client_def token_after_def handler_after_def)

lemma new_ApiError_message: "ae_message (new_ApiError status problem fallback) \<noteq> []"
  by (simp add: new_ApiError_def Let_def)

lemma toApiError_faithful:
  "ae_message (toApiError status body) \<noteq> [] \<and> ae_status (toApiError status body) = status \<and>
   ae_problem (toApiError status body) = (case body of Body_problem p \<Rightarrow> Some p | _ \<Rightarrow> None)"
  by (cases body) (simp_all add: toApiError_def new_ApiError_message, simp_all add: new_ApiError_def Let_def)

text \<open>Both ways of sending a request agree on the token they add.\<close>

lemma rawFetch_token:
  "toUpperCase m = m \<Longrightarrow>
   fst (rawFetch fetch st path (Some m) hs) = onRequest st \<lparr>rq_method = m, rq_path = path, rq_headers = hs\<rparr>"
  by (simp add: rawFetch_def onRequest_def Let_def)

section \<open>Properties\<close>


definition sample_request :: Request where
  "sample_request = \<lparr>rq_method = ''POST'', rq_path = ''/api/v1/users'', rq_headers = []\<rparr>"


end
