(* ===== verification/Api_Queries.thy ===== *)
theory Api_Queries
  imports Api_Client Analytics_Query
begin

text \<open>
  The reading hooks of \<open>src/frontend/src/api/hooks/index.ts\<close>: what each of them asks the server, under
  which cache key, when it may ask at all, and how often. The values that go through a hook untouched (a
  selection, a filter, a range, a metric) are JSON values; an \<open>undefined\<close> entry of a key is \<open>null\<close> and an
  \<open>undefined\<close> member of a body is absent, as in the JSON text both end up as. Caching, retrying and polling
  themselves are TanStack Query's.
\<close>

section \<open>JSON values and requests\<close>

datatype Json =
    Js_null
  | Js_bool bool
  | Js_num int
  | Js_str string
  | Js_arr "Json list"
  | Js_obj "(string \<times> Json) list"

type_synonym JsonObject = "(string \<times> Json) list"

definition js_opt :: "Json option \<Rightarrow> Json" where
  "js_opt v = orElse v Js_null"

definition js_strs :: "string list \<Rightarrow> Json" where
  "js_strs xs = Js_arr (map Js_str xs)"

definition js_nat :: "nat \<Rightarrow> Json" where
  "js_nat n = Js_num (int n)"

text \<open>\<open>{...o, k: v, ...}\<close>: a member keeps its place when it is overwritten, and \<open>undefined\<close> members are left out.\<close>

definition assign :: "JsonObject \<Rightarrow> (string \<times> Json option) list \<Rightarrow> JsonObject" where
  "assign o1 ms =
     fold (\<lambda>(k, v) o2. case v of None \<Rightarrow> AList.delete k o2 | Some x \<Rightarrow> AList.update k x o2) ms o1"

definition present :: "string option \<Rightarrow> bool" where
  "present s \<longleftrightarrow> orElse s [] \<noteq> []"

record HookRequest =
  hr_method :: string
  hr_path :: string
  hr_params :: "(string \<times> string) list"
  hr_query :: JsonObject
  hr_body :: "Json option"

definition GET :: "string \<Rightarrow> HookRequest" where
  "GET path = \<lparr>hr_method = ''GET'', hr_path = path, hr_params = [], hr_query = [], hr_body = None\<rparr>"

definition POST :: "string \<Rightarrow> JsonObject \<Rightarrow> HookRequest" where
  "POST path body =
     \<lparr>hr_method = ''POST'', hr_path = path, hr_params = [], hr_query = [], hr_body = Some (Js_obj body)\<rparr>"

datatype StaleTime = Stale_default | Stale_ms nat | Stale_never

datatype HookError = Api_error ApiError | Other_error string

datatype Retry = Retry_default | Retry_false | Retry_when "nat \<Rightarrow> HookError \<Rightarrow> bool"

record Query =
  q_key :: "Json list"
  q_enabled :: bool
  q_request :: HookRequest
  q_staleTime :: StaleTime
  q_refetchInterval :: "nat option"
  q_keepPrevious :: bool
  q_retry :: Retry

text \<open>\<open>useQuery\<close> with a key and a request only.\<close>

definition useQuery :: "Json list \<Rightarrow> HookRequest \<Rightarrow> Query" where
  "useQuery key request =
     \<lparr>q_key = key, q_enabled = True, q_request = request, q_staleTime = Stale_default, q_refetchInterval = None,
      q_keepPrevious = False, q_retry = Retry_default\<rparr>"

text \<open>The options most reading hooks share: never stale, the previous answer stays, no retry.\<close>

definition pinned :: "Query \<Rightarrow> Query" where
  "pinned q = q\<lparr>q_staleTime := Stale_never, q_keepPrevious := True, q_retry := Retry_false\<rparr>"

section \<open>The session\<close>

record Session =
  ss_csrf_token :: string
  ss_permissions :: "string list"
  ss_data :: Json

definition sessionKey :: "Json list" where
  "sessionKey = [Js_str ''session'']"

text \<open>The token that comes with an answered session is the one later requests carry.\<close>

definition fetchSession :: "ApiError + Session \<Rightarrow> ClientState \<Rightarrow> ClientState \<times> (ApiError + Session)" where
  "fetchSession answer st =
     (case answer of
        Inl e \<Rightarrow> (st, Inl e)
      | Inr s \<Rightarrow> (setCsrfToken (Some (ss_csrf_token s)) st, Inr s))"

definition useSession :: Query where
  "useSession = (useQuery sessionKey (GET ''/api/v1/auth/me''))\<lparr>q_staleTime := Stale_ms 60000, q_retry := Retry_false\<rparr>"

section \<open>Logs\<close>

definition SEARCH_PAGE_SIZE :: nat where "SEARCH_PAGE_SIZE = 200"

definition MAX_LOADED_ROWS :: nat where "MAX_LOADED_ROWS = 10000"

text \<open>The parts of a search answer the paging looks at.\<close>

record SearchResponse =
  sr_logs :: bool
  sr_rows :: "Json list option"
  sr_next_cursor :: "string option"

definition logSearchRequest :: "JsonObject \<Rightarrow> string list option \<Rightarrow> string option \<Rightarrow> HookRequest" where
  "logSearchRequest sel flds pageParam =
     POST ''/api/v1/logs/search''
       (assign sel [(''fields'', map_option js_strs flds), (''limit'', Some (js_nat SEARCH_PAGE_SIZE)),
                    (''cursor'', Some (js_opt (map_option Js_str pageParam)))])"

definition loaded_rows :: "SearchResponse list \<Rightarrow> nat" where
  "loaded_rows pages = fold (\<lambda>p n. n + length (orElse (sr_rows p) [])) pages 0"

definition getNextPageParam :: "SearchResponse \<Rightarrow> SearchResponse list \<Rightarrow> string option" where
  "getNextPageParam lastp pages =
     (if \<not> sr_logs lastp \<or> loaded_rows pages \<ge> MAX_LOADED_ROWS then None else sr_next_cursor lastp)"

definition object_key :: "JsonObject option \<Rightarrow> Json" where
  "object_key sel = js_opt (map_option Js_obj sel)"

definition useLogSearch :: "JsonObject option \<Rightarrow> string list option \<Rightarrow> nat \<Rightarrow> Query" where
  "useLogSearch sel flds runId =
     (useQuery [Js_str ''logs'', Js_str ''search'', object_key sel, js_opt (map_option js_strs flds), js_nat runId]
        (logSearchRequest (orElse sel []) flds None))
       \<lparr>q_enabled := sel \<noteq> None, q_staleTime := Stale_never, q_retry := Retry_false\<rparr>"

definition useHistogram :: "JsonObject option \<Rightarrow> string option \<Rightarrow> nat \<Rightarrow> nat \<Rightarrow> Query" where
  "useHistogram sel splitBy runId buckets =
     pinned ((useQuery [Js_str ''logs'', Js_str ''histogram'', object_key sel, js_opt (map_option Js_str splitBy),
                        js_nat buckets, js_nat runId]
        (POST ''/api/v1/logs/histogram''
           (assign (orElse sel []) [(''split_by'', Some (js_opt (map_option Js_str splitBy))), (''buckets'', Some (js_nat buckets))])))
       \<lparr>q_enabled := sel \<noteq> None\<rparr>)"

definition useFacets :: "JsonObject option \<Rightarrow> string list \<Rightarrow> nat \<Rightarrow> Query" where
  "useFacets sel flds runId =
     pinned ((useQuery [Js_str ''logs'', Js_str ''facets'', object_key sel, js_strs flds, js_nat runId]
        (POST ''/api/v1/logs/facets''
           (assign (orElse sel []) [(''fields'', Some (js_strs flds)), (''limit_per_field'', Some (js_nat 10))])))
       \<lparr>q_enabled := sel \<noteq> None \<and> flds \<noteq> []\<rparr>)"

definition useFields :: "JsonObject option \<Rightarrow> nat \<Rightarrow> Query" where
  "useFields sel runId =
     pinned ((useQuery [Js_str ''fields'', object_key sel, js_nat runId] (POST ''/api/v1/fields'' (orElse sel [])))
       \<lparr>q_enabled := sel \<noteq> None\<rparr>)"

definition fetchFieldValues :: "JsonObject \<Rightarrow> string \<Rightarrow> string \<Rightarrow> nat \<Rightarrow> HookRequest" where
  "fetchFieldValues sel field srch lim1 =
     (POST ''/api/v1/fields/{field}/values''
        (assign sel [(''search'', map_option Js_str (nonempty srch)), (''limit'', Some (js_nat lim1))]))
       \<lparr>hr_params := [(''field'', field)]\<rparr>"

definition useFieldValues :: "JsonObject option \<Rightarrow> string option \<Rightarrow> string \<Rightarrow> bool \<Rightarrow> Query" where
  "useFieldValues sel field srch enabled =
     (useQuery [Js_str ''fields'', Js_str ''values'', object_key sel, js_opt (map_option Js_str field), Js_str srch]
        (fetchFieldValues (orElse sel []) (orElse field []) srch 20))
       \<lparr>q_enabled := enabled \<and> sel \<noteq> None \<and> present field, q_staleTime := Stale_ms 30000, q_keepPrevious := True,
        q_retry := Retry_false\<rparr>"

definition useValidateQuery :: "JsonObject option \<Rightarrow> JsonObject option \<Rightarrow> bool \<Rightarrow> Query" where
  "useValidateQuery flt native enabled =
     (useQuery [Js_str ''query'', Js_str ''validate'', object_key flt, object_key native]
        (POST ''/api/v1/query/validate''
           (assign [] [(''filter'', map_option Js_obj flt), (''native'', map_option Js_obj native)])))
       \<lparr>q_enabled := enabled \<and> (flt \<noteq> None \<or> native \<noteq> None), q_staleTime := Stale_ms 60000, q_retry := Retry_false\<rparr>"

definition useStats :: "JsonObject option \<Rightarrow> string \<Rightarrow> bool \<Rightarrow> Query" where
  "useStats sel field enabled =
     (useQuery [Js_str ''logs'', Js_str ''stats'', object_key sel, Js_str field]
        (POST ''/api/v1/logs/stats''
           (assign (orElse sel [])
              [(''aggregations'', Some (Js_arr [Js_obj [(''type'', Js_str ''top''), (''field'', Js_str field), (''limit'', js_nat 10)]]))])))
       \<lparr>q_enabled := enabled \<and> sel \<noteq> None, q_staleTime := Stale_ms 30000\<rparr>"

section \<open>Dashboard\<close>

definition range_body :: "JsonObject \<Rightarrow> (string \<times> Json option) list \<Rightarrow> JsonObject" where
  "range_body rng ms = assign [(''time_range'', Js_obj rng)] ms"

text \<open>Every panel polls at the rate the page asks for and keeps what it shows meanwhile.\<close>

definition polled :: "nat option \<Rightarrow> Query \<Rightarrow> Query" where
  "polled refreshMs q = q\<lparr>q_refetchInterval := refreshMs, q_keepPrevious := True\<rparr>"

definition useDashboardOverview :: "JsonObject \<Rightarrow> nat option \<Rightarrow> Query" where
  "useDashboardOverview rng refreshMs =
     polled refreshMs (useQuery [Js_str ''dashboard'', Js_str ''overview'', Js_obj rng]
       (POST ''/api/v1/dashboard/overview'' (range_body rng [])))"

definition useDashboardVolume :: "JsonObject \<Rightarrow> nat option \<Rightarrow> Query" where
  "useDashboardVolume rng refreshMs =
     polled refreshMs (useQuery [Js_str ''dashboard'', Js_str ''volume'', Js_obj rng]
       (POST ''/api/v1/dashboard/volume'' (range_body rng [])))"

definition useDashboardTop :: "JsonObject \<Rightarrow> string \<Rightarrow> nat option \<Rightarrow> nat \<Rightarrow> Query" where
  "useDashboardTop rng field refreshMs lim1 =
     polled refreshMs (useQuery [Js_str ''dashboard'', Js_str ''top'', Js_obj rng, Js_str field, js_nat lim1]
       (POST ''/api/v1/dashboard/top'' (range_body rng [(''field'', Some (Js_str field)), (''limit'', Some (js_nat lim1))])))"

definition useIngestionRate :: "JsonObject \<Rightarrow> nat option \<Rightarrow> Query" where
  "useIngestionRate rng refreshMs =
     polled refreshMs (useQuery [Js_str ''dashboard'', Js_str ''ingestion-rate'', Js_obj rng]
       (POST ''/api/v1/dashboard/ingestion-rate'' (range_body rng [])))"

section \<open>Analytics\<close>

definition metricReady :: "AnalyticsMetric \<Rightarrow> bool" where
  "metricReady metric = (case metric of Count \<Rightarrow> True | CountDistinct f \<Rightarrow> present f)"

definition js_metric :: "AnalyticsMetric \<Rightarrow> Json" where
  "js_metric metric =
     (case metric of
        Count \<Rightarrow> Js_obj [(''type'', Js_str ''count'')]
      | CountDistinct f \<Rightarrow> Js_obj (assign [(''type'', Js_str ''count_distinct'')] [(''field'', map_option Js_str f)]))"

definition useBreakdown :: "JsonObject option \<Rightarrow> string \<Rightarrow> AnalyticsMetric \<Rightarrow> nat \<Rightarrow> nat \<Rightarrow> Query" where
  "useBreakdown sel groupBy metric lim1 runId =
     pinned ((useQuery [Js_str ''analytics'', Js_str ''breakdown'', object_key sel, Js_str groupBy, js_metric metric,
                        js_nat lim1, js_nat runId]
        (POST ''/api/v1/analytics/breakdown''
           (assign (orElse sel []) [(''group_by'', Some (Js_str groupBy)), (''metric'', Some (js_metric metric)),
                                    (''limit'', Some (js_nat lim1))])))
       \<lparr>q_enabled := sel \<noteq> None \<and> groupBy \<noteq> [] \<and> metricReady metric\<rparr>)"

definition useSeries :: "JsonObject option \<Rightarrow> string \<Rightarrow> AnalyticsMetric \<Rightarrow> nat \<Rightarrow> nat \<Rightarrow> nat \<Rightarrow> Query" where
  "useSeries sel groupBy metric lim1 runId buckets =
     pinned ((useQuery [Js_str ''analytics'', Js_str ''series'', object_key sel, Js_str groupBy, js_metric metric,
                        js_nat lim1, js_nat buckets, js_nat runId]
        (POST ''/api/v1/analytics/series''
           (assign (orElse sel []) [(''group_by'', Some (Js_str groupBy)), (''metric'', Some (js_metric metric)),
                                    (''limit'', Some (js_nat lim1)), (''buckets'', Some (js_nat buckets))])))
       \<lparr>q_enabled := sel \<noteq> None \<and> groupBy \<noteq> [] \<and> metricReady metric\<rparr>)"

definition serviceCatalogKey :: "Json list" where
  "serviceCatalogKey = [Js_str ''analytics'', Js_str ''services'']"

definition serviceTrendsKey :: "Json list" where
  "serviceTrendsKey = [Js_str ''analytics'', Js_str ''service-trends'']"

definition useServiceCatalog :: Query where
  "useServiceCatalog =
     (useQuery serviceCatalogKey (GET ''/api/v1/analytics/services''))\<lparr>q_staleTime := Stale_ms 60000, q_retry := Retry_false\<rparr>"

definition useDefaultServiceCatalog :: Query where
  "useDefaultServiceCatalog =
     (useQuery [Js_str ''analytics'', Js_str ''services'', Js_str ''defaults''] (GET ''/api/v1/analytics/services/defaults''))
       \<lparr>q_enabled := False, q_staleTime := Stale_never, q_retry := Retry_false\<rparr>"

definition useServiceTrends ::
  "JsonObject option \<Rightarrow> string \<Rightarrow> string \<Rightarrow> string \<Rightarrow> string list \<Rightarrow> bool \<Rightarrow> Query" where
  "useServiceTrends rng window metric scope services enabled =
     pinned ((useQuery (serviceTrendsKey @ [object_key rng, Js_str window, Js_str metric, Js_str scope, js_strs services])
        (POST ''/api/v1/analytics/service-trends''
           (range_body (orElse rng []) [(''window'', Some (Js_str window)), (''metric'', Some (Js_str metric)),
              (''scope'', Some (Js_str scope)), (''services'', map_option js_strs (nonempty services))])))
       \<lparr>q_enabled := enabled \<and> rng \<noteq> None\<rparr>)"

section \<open>The assistant and the template analyses\<close>

definition assistantStatusKey :: "Json list" where
  "assistantStatusKey = [Js_str ''assistant'', Js_str ''status'']"

definition permits :: "Session option \<Rightarrow> string \<Rightarrow> bool" where
  "permits session p = (case session of None \<Rightarrow> False | Some s \<Rightarrow> List.member (ss_permissions s) p)"

definition useAssistantStatus :: "Session option \<Rightarrow> Query" where
  "useAssistantStatus session =
     (useQuery assistantStatusKey (GET ''/api/v1/assistant/status''))
       \<lparr>q_enabled := permits session ''system:view'' \<and> permits session ''logs:search'', q_staleTime := Stale_ms 60000,
        q_retry := Retry_false\<rparr>"

definition ANALYSIS_BUCKETS :: nat where "ANALYSIS_BUCKETS = 120"

definition analysis_body :: "JsonObject option \<Rightarrow> JsonObject option \<Rightarrow> nat \<Rightarrow> (string \<times> Json option) list \<Rightarrow> JsonObject" where
  "analysis_body rng flt lim1 ms =
     range_body (orElse rng []) ([(''filter'', map_option Js_obj flt), (''buckets'', Some (js_nat ANALYSIS_BUCKETS)),
       (''limit'', Some (js_nat lim1))] @ ms)"

definition useDirectory :: "JsonObject option \<Rightarrow> JsonObject option \<Rightarrow> nat \<Rightarrow> bool \<Rightarrow> Query" where
  "useDirectory rng flt lim1 enabled =
     pinned ((useQuery [Js_str ''analytics'', Js_str ''directory'', object_key rng, object_key flt, js_nat lim1]
        (POST ''/api/v1/analytics/directory'' (analysis_body rng flt lim1 [])))
       \<lparr>q_enabled := enabled \<and> rng \<noteq> None\<rparr>)"

definition useMSSQL :: "JsonObject option \<Rightarrow> JsonObject option \<Rightarrow> nat \<Rightarrow> bool \<Rightarrow> Query" where
  "useMSSQL rng flt lim1 enabled =
     pinned ((useQuery [Js_str ''analytics'', Js_str ''mssql'', object_key rng, object_key flt, js_nat lim1]
        (POST ''/api/v1/analytics/mssql'' (analysis_body rng flt lim1 [])))
       \<lparr>q_enabled := enabled \<and> rng \<noteq> None\<rparr>)"

definition useIIS :: "JsonObject option \<Rightarrow> JsonObject option \<Rightarrow> nat \<Rightarrow> nat \<Rightarrow> bool \<Rightarrow> Query" where
  "useIIS rng flt lim1 slowMillis enabled =
     pinned ((useQuery [Js_str ''analytics'', Js_str ''iis'', object_key rng, object_key flt, js_nat lim1, js_nat slowMillis]
        (POST ''/api/v1/analytics/iis'' (analysis_body rng flt lim1 [(''slow_millis'', Some (js_nat slowMillis))])))
       \<lparr>q_enabled := enabled \<and> rng \<noteq> None\<rparr>)"

section \<open>Templates and saved searches\<close>

definition templatesKey :: "Json list" where
  "templatesKey = [Js_str ''templates'']"

definition useTemplates :: "Session option \<Rightarrow> Query" where
  "useTemplates session =
     (useQuery templatesKey (GET ''/api/v1/templates''))
       \<lparr>q_enabled := permits session ''sources:read'', q_staleTime := Stale_ms 60000, q_retry := Retry_false\<rparr>"

definition useTemplateConfig :: "string option \<Rightarrow> string list \<Rightarrow> bool \<Rightarrow> Query" where
  "useTemplateConfig templateId parts enabled =
     (useQuery [Js_str ''templates'', Js_str ''config'', js_opt (map_option Js_str templateId), js_strs parts]
        ((GET ''/api/v1/templates/{id}/config'')\<lparr>hr_params := [(''id'', orElse templateId [])],
           hr_query := assign [] [(''part'', map_option js_strs (nonempty parts))]\<rparr>))
       \<lparr>q_enabled := enabled \<and> present templateId, q_staleTime := Stale_ms 3600000, q_retry := Retry_false\<rparr>"

definition useSavedSearches :: "string \<Rightarrow> Query" where
  "useSavedSearches q =
     useQuery [Js_str ''saved-searches'', Js_str q]
       ((GET ''/api/v1/saved-searches'')
          \<lparr>hr_query := assign [] [(''q'', map_option Js_str (nonempty q)), (''limit'', Some (js_nat 200))]\<rparr>)"

definition fetchSavedSearch :: "string \<Rightarrow> HookRequest" where
  "fetchSavedSearch ident = (GET ''/api/v1/saved-searches/{id}'')\<lparr>hr_params := [(''id'', ident)]\<rparr>"

definition useSavedSearch :: "string option \<Rightarrow> Query" where
  "useSavedSearch ident =
     (useQuery [Js_str ''saved-searches'', Js_str ''item'', js_opt (map_option Js_str ident)]
        (fetchSavedSearch (orElse ident [])))\<lparr>q_enabled := present ident\<rparr>"

section \<open>Settings, system, sources, forwarding, users and the audit log\<close>

definition useApiKeys :: Query where
  "useApiKeys = useQuery [Js_str ''api-keys''] (GET ''/api/v1/api-keys'')"

definition useSystemHealth :: Query where
  "useSystemHealth =
     (useQuery [Js_str ''system'', Js_str ''health''] (GET ''/api/v1/system/health''))\<lparr>q_refetchInterval := Some 10000\<rparr>"

definition useSystemIngestion :: Query where
  "useSystemIngestion =
     (useQuery [Js_str ''system'', Js_str ''ingestion''] (GET ''/api/v1/system/ingestion''))\<lparr>q_refetchInterval := Some 10000\<rparr>"

definition useSystemStorage :: Query where
  "useSystemStorage =
     (useQuery [Js_str ''system'', Js_str ''storage''] (GET ''/api/v1/system/storage''))\<lparr>q_refetchInterval := Some 10000\<rparr>"

definition retentionKey :: "Json list" where
  "retentionKey = [Js_str ''system'', Js_str ''retention'']"

definition useSystemRetention :: Query where
  "useSystemRetention =
     (useQuery retentionKey (GET ''/api/v1/system/retention''))\<lparr>q_refetchInterval := Some 30000\<rparr>"

text \<open>Neither a missing metrics store nor an ambiguous one improves by asking again.\<close>

definition hostHistoryRetry :: "nat \<Rightarrow> HookError \<Rightarrow> bool" where
  "hostHistoryRetry failures error \<longleftrightarrow>
     \<not> (case error of Api_error e \<Rightarrow> ae_status e = 404 \<or> ae_status e = 409 | Other_error m \<Rightarrow> False) \<and> failures < 2"

definition useHostHistory :: "string \<Rightarrow> Query" where
  "useHostHistory rng =
     (useQuery [Js_str ''system'', Js_str ''host-history'', Js_str rng]
        ((GET ''/api/v1/system/host/history'')\<lparr>hr_query := [(''range'', Js_str rng)]\<rparr>))
       \<lparr>q_refetchInterval := Some 60000, q_keepPrevious := True, q_retry := Retry_when hostHistoryRetry\<rparr>"

definition useSystemConfig :: "bool \<Rightarrow> Query" where
  "useSystemConfig enabled =
     (useQuery [Js_str ''system'', Js_str ''config''] (GET ''/api/v1/system/config''))
       \<lparr>q_enabled := enabled, q_staleTime := Stale_ms 60000\<rparr>"

definition sourcesKey :: "Json list" where
  "sourcesKey = [Js_str ''sources'']"

definition useSources :: Query where
  "useSources = polled (Some 15000) (useQuery sourcesKey (GET ''/api/v1/sources''))"

definition useSource :: "string option \<Rightarrow> Query" where
  "useSource ident =
     (useQuery (sourcesKey @ [Js_str ''item'', js_opt (map_option Js_str ident)])
        ((GET ''/api/v1/sources/{id}'')\<lparr>hr_params := [(''id'', orElse ident [])]\<rparr>))\<lparr>q_enabled := present ident\<rparr>"

definition useExtractPresets :: Query where
  "useExtractPresets =
     (useQuery [Js_str ''extract-presets''] (GET ''/api/v1/sources/extract-presets''))\<lparr>q_staleTime := Stale_ms 3600000\<rparr>"

definition forwardTargetsKey :: "Json list" where
  "forwardTargetsKey = [Js_str ''forward-targets'']"

definition useForwardTargets :: Query where
  "useForwardTargets = polled (Some 10000) (useQuery forwardTargetsKey (GET ''/api/v1/forward-targets''))"

definition usersKey :: "Json list" where
  "usersKey = [Js_str ''users'']"

definition useUsers :: Query where
  "useUsers = useQuery usersKey (GET ''/api/v1/users'')"

definition useAuditEvents :: "JsonObject \<Rightarrow> Query" where
  "useAuditEvents q =
     (useQuery [Js_str ''audit'', Js_obj q] ((GET ''/api/v1/audit'')\<lparr>hr_query := q\<rparr>))\<lparr>q_keepPrevious := True\<rparr>"

section \<open>All of them\<close>

text \<open>One constructor per hook, grouped by the area of the API the hook reads.\<close>

datatype LogsQuery =
    Q_logSearch "JsonObject option" "string list option" nat
  | Q_histogram "JsonObject option" "string option" nat nat
  | Q_facets "JsonObject option" "string list" nat
  | Q_fields "JsonObject option" nat
  | Q_fieldValues "JsonObject option" "string option" string bool
  | Q_validateQuery "JsonObject option" "JsonObject option" bool
  | Q_stats "JsonObject option" string bool

primrec logs_query :: "LogsQuery \<Rightarrow> Query" where
  "logs_query (Q_logSearch sel flds runId) = useLogSearch sel flds runId"
| "logs_query (Q_histogram sel splitBy runId buckets) = useHistogram sel splitBy runId buckets"
| "logs_query (Q_facets sel flds runId) = useFacets sel flds runId"
| "logs_query (Q_fields sel runId) = useFields sel runId"
| "logs_query (Q_fieldValues sel field srch enabled) = useFieldValues sel field srch enabled"
| "logs_query (Q_validateQuery flt native enabled) = useValidateQuery flt native enabled"
| "logs_query (Q_stats sel field enabled) = useStats sel field enabled"

datatype DashboardQuery =
    Q_dashboardOverview JsonObject "nat option"
  | Q_dashboardVolume JsonObject "nat option"
  | Q_dashboardTop JsonObject string "nat option" nat
  | Q_ingestionRate JsonObject "nat option"

primrec dashboard_query :: "DashboardQuery \<Rightarrow> Query" where
  "dashboard_query (Q_dashboardOverview rng refreshMs) = useDashboardOverview rng refreshMs"
| "dashboard_query (Q_dashboardVolume rng refreshMs) = useDashboardVolume rng refreshMs"
| "dashboard_query (Q_dashboardTop rng field refreshMs lim1) = useDashboardTop rng field refreshMs lim1"
| "dashboard_query (Q_ingestionRate rng refreshMs) = useIngestionRate rng refreshMs"

datatype AnalyticsHook =
    Q_breakdown "JsonObject option" string AnalyticsMetric nat nat
  | Q_series "JsonObject option" string AnalyticsMetric nat nat nat
  | Q_serviceCatalog
  | Q_defaultServiceCatalog
  | Q_serviceTrends "JsonObject option" string string string "string list" bool
  | Q_directory "JsonObject option" "JsonObject option" nat bool
  | Q_mssql "JsonObject option" "JsonObject option" nat bool
  | Q_iis "JsonObject option" "JsonObject option" nat nat bool

primrec analytics_query :: "AnalyticsHook \<Rightarrow> Query" where
  "analytics_query (Q_breakdown sel groupBy metric lim1 runId) = useBreakdown sel groupBy metric lim1 runId"
| "analytics_query (Q_series sel groupBy metric lim1 runId buckets) = useSeries sel groupBy metric lim1 runId buckets"
| "analytics_query Q_serviceCatalog = useServiceCatalog"
| "analytics_query Q_defaultServiceCatalog = useDefaultServiceCatalog"
| "analytics_query (Q_serviceTrends rng window metric scope services enabled) = useServiceTrends rng window metric scope services enabled"
| "analytics_query (Q_directory rng flt lim1 enabled) = useDirectory rng flt lim1 enabled"
| "analytics_query (Q_mssql rng flt lim1 enabled) = useMSSQL rng flt lim1 enabled"
| "analytics_query (Q_iis rng flt lim1 slowMillis enabled) = useIIS rng flt lim1 slowMillis enabled"

datatype SystemQuery =
    Q_systemHealth
  | Q_systemIngestion
  | Q_systemStorage
  | Q_systemRetention
  | Q_hostHistory string
  | Q_systemConfig bool

primrec system_query :: "SystemQuery \<Rightarrow> Query" where
  "system_query Q_systemHealth = useSystemHealth"
| "system_query Q_systemIngestion = useSystemIngestion"
| "system_query Q_systemStorage = useSystemStorage"
| "system_query Q_systemRetention = useSystemRetention"
| "system_query (Q_hostHistory rng) = useHostHistory rng"
| "system_query (Q_systemConfig enabled) = useSystemConfig enabled"

datatype CollectQuery =
    Q_templates "Session option"
  | Q_templateConfig "string option" "string list" bool
  | Q_savedSearches string
  | Q_savedSearch "string option"
  | Q_sources
  | Q_source "string option"
  | Q_extractPresets
  | Q_forwardTargets

primrec collect_query :: "CollectQuery \<Rightarrow> Query" where
  "collect_query (Q_templates session) = useTemplates session"
| "collect_query (Q_templateConfig templateId parts enabled) = useTemplateConfig templateId parts enabled"
| "collect_query (Q_savedSearches q) = useSavedSearches q"
| "collect_query (Q_savedSearch ident) = useSavedSearch ident"
| "collect_query Q_sources = useSources"
| "collect_query (Q_source ident) = useSource ident"
| "collect_query Q_extractPresets = useExtractPresets"
| "collect_query Q_forwardTargets = useForwardTargets"

datatype AccountQuery =
    Q_session
  | Q_assistantStatus "Session option"
  | Q_apiKeys
  | Q_users
  | Q_auditEvents JsonObject

primrec account_query :: "AccountQuery \<Rightarrow> Query" where
  "account_query Q_session = useSession"
| "account_query (Q_assistantStatus session) = useAssistantStatus session"
| "account_query Q_apiKeys = useApiKeys"
| "account_query Q_users = useUsers"
| "account_query (Q_auditEvents q) = useAuditEvents q"

datatype QueryHook =
    Logs LogsQuery
  | Dashboard DashboardQuery
  | Analytics AnalyticsHook
  | System SystemQuery
  | Collect CollectQuery
  | Account AccountQuery

primrec query :: "QueryHook \<Rightarrow> Query" where
  "query (Logs h) = logs_query h"
| "query (Dashboard h) = dashboard_query h"
| "query (Analytics h) = analytics_query h"
| "query (System h) = system_query h"
| "query (Collect h) = collect_query h"
| "query (Account h) = account_query h"

lemmas query_option_defs = useQuery_def pinned_def polled_def

lemmas query_defs =
  useSession_def useLogSearch_def useHistogram_def useFacets_def useFields_def useFieldValues_def useValidateQuery_def
  useStats_def useDashboardOverview_def useDashboardVolume_def useDashboardTop_def useIngestionRate_def
  useBreakdown_def useSeries_def useServiceCatalog_def useDefaultServiceCatalog_def useServiceTrends_def
  useAssistantStatus_def useDirectory_def useMSSQL_def useIIS_def useTemplates_def useTemplateConfig_def
  useSavedSearches_def useSavedSearch_def useApiKeys_def useSystemHealth_def useSystemIngestion_def
  useSystemStorage_def useSystemRetention_def useHostHistory_def useSystemConfig_def useSources_def useSource_def
  useExtractPresets_def useForwardTargets_def useUsers_def useAuditEvents_def

lemmas key_defs =
  sessionKey_def serviceCatalogKey_def serviceTrendsKey_def assistantStatusKey_def templatesKey_def retentionKey_def
  sourcesKey_def forwardTargetsKey_def usersKey_def

section \<open>Keys determine requests\<close>

lemma js_nat_inject [simp]: "js_nat m = js_nat n \<longleftrightarrow> m = n"
  by (simp add: js_nat_def)

lemma js_strs_inject [simp]: "js_strs xs = js_strs ys \<longleftrightarrow> xs = ys"
  by (simp add: js_strs_def inj_map_eq_map inj_def)

lemma js_opt_inject [simp]:
  "js_opt (map_option Js_str a) = js_opt (map_option Js_str b) \<longleftrightarrow> a = b"
  "js_opt (map_option js_strs c) = js_opt (map_option js_strs d) \<longleftrightarrow> c = d"
  by (cases a; cases b; simp add: js_opt_def) (cases c; cases d; simp add: js_opt_def; simp add: js_strs_def)

lemma object_key_inject [simp]: "object_key a = object_key b \<longleftrightarrow> a = b"
  by (cases a; cases b; simp add: object_key_def js_opt_def)

lemma js_metric_simps:
  "js_metric Count = Js_obj [(''type'', Js_str ''count'')]"
  "js_metric (CountDistinct None) = Js_obj [(''type'', Js_str ''count_distinct'')]"
  "js_metric (CountDistinct (Some f)) = Js_obj [(''type'', Js_str ''count_distinct''), (''field'', Js_str f)]"
  by (simp_all add: js_metric_def assign_def)

lemma js_metric_inject [simp]: "js_metric a = js_metric b \<longleftrightarrow> a = b"
proof (cases a)
  case Count
  show ?thesis
  proof (cases b)
    case (CountDistinct g)
    then show ?thesis by (cases g) (simp_all add: \<open>a = Count\<close> js_metric_simps)
  qed (simp add: \<open>a = Count\<close>)
next
  case (CountDistinct f)
  show ?thesis
  proof (cases b)
    case Count
    then show ?thesis by (cases f) (simp_all add: \<open>a = CountDistinct f\<close> js_metric_simps)
  next
    case (CountDistinct g)
    then show ?thesis by (cases f; cases g) (simp_all add: \<open>a = CountDistinct f\<close> js_metric_simps)
  qed
qed

lemma logs_keys [simp]:
  "q_key (useLogSearch sel_0 flds_0 runId_0) =
     [Js_str ''logs'', Js_str ''search'', object_key sel_0, js_opt (map_option js_strs flds_0), js_nat runId_0]"
  "q_key (useHistogram sel_1 splitBy_1 runId_1 buckets_1) =
     [Js_str ''logs'', Js_str ''histogram'', object_key sel_1, js_opt (map_option Js_str splitBy_1), js_nat buckets_1, js_nat runId_1]"
  "q_key (useFacets sel_2 flds_2 runId_2) =
     [Js_str ''logs'', Js_str ''facets'', object_key sel_2, js_strs flds_2, js_nat runId_2]"
  "q_key (useFields sel_3 runId_3) = [Js_str ''fields'', object_key sel_3, js_nat runId_3]"
  "q_key (useFieldValues sel_4 field_4 srch_4 enabled_4) =
     [Js_str ''fields'', Js_str ''values'', object_key sel_4, js_opt (map_option Js_str field_4), Js_str srch_4]"
  "q_key (useValidateQuery flt_5 native_5 enabled_5) =
     [Js_str ''query'', Js_str ''validate'', object_key flt_5, object_key native_5]"
  "q_key (useStats sel_6 field_6 enabled_6) = [Js_str ''logs'', Js_str ''stats'', object_key sel_6, Js_str field_6]"
  by (simp_all add: query_defs query_option_defs key_defs)

lemma dashboard_keys [simp]:
  "q_key (useDashboardOverview rng_0 refreshMs_0) = [Js_str ''dashboard'', Js_str ''overview'', Js_obj rng_0]"
  "q_key (useDashboardVolume rng_1 refreshMs_1) = [Js_str ''dashboard'', Js_str ''volume'', Js_obj rng_1]"
  "q_key (useDashboardTop rng_2 field_2 refreshMs_2 lim1_2) =
     [Js_str ''dashboard'', Js_str ''top'', Js_obj rng_2, Js_str field_2, js_nat lim1_2]"
  "q_key (useIngestionRate rng_3 refreshMs_3) = [Js_str ''dashboard'', Js_str ''ingestion-rate'', Js_obj rng_3]"
  by (simp_all add: query_defs query_option_defs key_defs)

lemma analytics_keys [simp]:
  "q_key (useBreakdown sel_0 groupBy_0 metric_0 lim1_0 runId_0) =
     [Js_str ''analytics'', Js_str ''breakdown'', object_key sel_0, Js_str groupBy_0, js_metric metric_0, js_nat lim1_0, js_nat runId_0]"
  "q_key (useSeries sel_1 groupBy_1 metric_1 lim1_1 runId_1 buckets_1) =
     [Js_str ''analytics'', Js_str ''series'', object_key sel_1, Js_str groupBy_1, js_metric metric_1, js_nat lim1_1, js_nat buckets_1, js_nat runId_1]"
  "q_key useServiceCatalog = [Js_str ''analytics'', Js_str ''services'']"
  "q_key useDefaultServiceCatalog = [Js_str ''analytics'', Js_str ''services'', Js_str ''defaults'']"
  "q_key (useServiceTrends rng_4 window_4 metric_4 scope_4 services_4 enabled_4) =
     [Js_str ''analytics'', Js_str ''service-trends'', object_key rng_4, Js_str window_4, Js_str metric_4, Js_str scope_4, js_strs services_4]"
  "q_key (useDirectory rng_5 flt_5 lim1_5 enabled_5) =
     [Js_str ''analytics'', Js_str ''directory'', object_key rng_5, object_key flt_5, js_nat lim1_5]"
  "q_key (useMSSQL rng_6 flt_6 lim1_6 enabled_6) =
     [Js_str ''analytics'', Js_str ''mssql'', object_key rng_6, object_key flt_6, js_nat lim1_6]"
  "q_key (useIIS rng_7 flt_7 lim1_7 slowMillis_7 enabled_7) =
     [Js_str ''analytics'', Js_str ''iis'', object_key rng_7, object_key flt_7, js_nat lim1_7, js_nat slowMillis_7]"
  by (simp_all add: query_defs query_option_defs key_defs)

lemma system_keys [simp]:
  "q_key useSystemHealth = [Js_str ''system'', Js_str ''health'']"
  "q_key useSystemIngestion = [Js_str ''system'', Js_str ''ingestion'']"
  "q_key useSystemStorage = [Js_str ''system'', Js_str ''storage'']"
  "q_key useSystemRetention = [Js_str ''system'', Js_str ''retention'']"
  "q_key (useHostHistory rng_4) = [Js_str ''system'', Js_str ''host-history'', Js_str rng_4]"
  "q_key (useSystemConfig enabled_5) = [Js_str ''system'', Js_str ''config'']"
  by (simp_all add: query_defs query_option_defs key_defs)

lemma collect_keys [simp]:
  "q_key (useTemplates session_0) = [Js_str ''templates'']"
  "q_key (useTemplateConfig templateId_1 parts_1 enabled_1) =
     [Js_str ''templates'', Js_str ''config'', js_opt (map_option Js_str templateId_1), js_strs parts_1]"
  "q_key (useSavedSearches q_2) = [Js_str ''saved-searches'', Js_str q_2]"
  "q_key (useSavedSearch ident_3) = [Js_str ''saved-searches'', Js_str ''item'', js_opt (map_option Js_str ident_3)]"
  "q_key useSources = [Js_str ''sources'']"
  "q_key (useSource ident_5) = [Js_str ''sources'', Js_str ''item'', js_opt (map_option Js_str ident_5)]"
  "q_key useExtractPresets = [Js_str ''extract-presets'']"
  "q_key useForwardTargets = [Js_str ''forward-targets'']"
  by (simp_all add: query_defs query_option_defs key_defs)

lemma account_keys [simp]:
  "q_key useSession = [Js_str ''session'']"
  "q_key (useAssistantStatus session_1) = [Js_str ''assistant'', Js_str ''status'']"
  "q_key useApiKeys = [Js_str ''api-keys'']"
  "q_key useUsers = [Js_str ''users'']"
  "q_key (useAuditEvents q_4) = [Js_str ''audit'', Js_obj q_4]"
  by (simp_all add: query_defs query_option_defs key_defs)

text \<open>The area of the API is the first word of a key.\<close>

definition area_words :: "string list list" where
  "area_words =
     [[''logs'', ''fields'', ''query''], [''dashboard''], [''analytics''], [''system''],
      [''templates'', ''saved-searches'', ''sources'', ''extract-presets'', ''forward-targets''],
      [''session'', ''assistant'', ''api-keys'', ''users'', ''audit'']]"

definition key_area :: "Json list \<Rightarrow> nat option" where
  "key_area key = find_index (\<lambda>ws. hd key \<in> Js_str ` set ws) area_words"

definition area :: "QueryHook \<Rightarrow> nat" where
  "area h = (case h of Logs _ \<Rightarrow> 0 | Dashboard _ \<Rightarrow> 1 | Analytics _ \<Rightarrow> 2 | System _ \<Rightarrow> 3 | Collect _ \<Rightarrow> 4 | Account _ \<Rightarrow> 5)"

lemma area_of_key: "key_area (q_key (query h)) = Some (area h)"
proof (cases h)
  case (Logs l)
  then show ?thesis by (cases l) (simp_all add: key_area_def area_words_def area_def)
next
  case (Dashboard l)
  then show ?thesis by (cases l) (simp_all add: key_area_def area_words_def area_def)
next
  case (Analytics l)
  then show ?thesis by (cases l) (simp_all add: key_area_def area_words_def area_def)
next
  case (System l)
  then show ?thesis by (cases l) (simp_all add: key_area_def area_words_def area_def)
next
  case (Collect l)
  then show ?thesis by (cases l) (simp_all add: key_area_def area_words_def area_def)
next
  case (Account l)
  then show ?thesis by (cases l) (simp_all add: key_area_def area_words_def area_def)
qed

lemma logs_key_request:
  "q_key (logs_query h) = q_key (logs_query h') \<Longrightarrow> q_request (logs_query h) = q_request (logs_query h')"
  by (cases h; cases h'; simp; simp add: query_defs query_option_defs)

lemma dashboard_key_request:
  "q_key (dashboard_query h) = q_key (dashboard_query h') \<Longrightarrow> q_request (dashboard_query h) = q_request (dashboard_query h')"
  by (cases h; cases h'; simp; simp add: query_defs query_option_defs)

lemma analytics_key_request:
  "q_key (analytics_query h) = q_key (analytics_query h') \<Longrightarrow> q_request (analytics_query h) = q_request (analytics_query h')"
  by (cases h; cases h'; simp; simp add: query_defs query_option_defs)

lemma system_key_request:
  "q_key (system_query h) = q_key (system_query h') \<Longrightarrow> q_request (system_query h) = q_request (system_query h')"
  by (cases h; cases h'; simp; simp add: query_defs query_option_defs)

lemma collect_key_request:
  "q_key (collect_query h) = q_key (collect_query h') \<Longrightarrow> q_request (collect_query h) = q_request (collect_query h')"
  by (cases h; cases h'; simp; simp add: query_defs query_option_defs)

lemma account_key_request:
  "q_key (account_query h) = q_key (account_query h') \<Longrightarrow> q_request (account_query h) = q_request (account_query h')"
  by (cases h; cases h'; simp; simp add: query_defs query_option_defs)

lemma area_cases:
  assumes "area h = area h'"
  obtains (logs) l l' where "h = Logs l" "h' = Logs l'" | (dashboard) l l' where "h = Dashboard l" "h' = Dashboard l'"
    | (analytics) l l' where "h = Analytics l" "h' = Analytics l'" | (system) l l' where "h = System l" "h' = System l'"
    | (collect) l l' where "h = Collect l" "h' = Collect l'" | (account) l l' where "h = Account l" "h' = Account l'"
  using assms by (cases h; cases h'; simp add: area_def)

lemma query_key_request:
  assumes "q_key (query h) = q_key (query h')"
  shows "q_request (query h) = q_request (query h')"
proof -
  have "Some (area h) = Some (area h')"
    by (simp only: area_of_key [symmetric] assms)
  then have "area h = area h'" by simp
  then show ?thesis
  proof (cases rule: area_cases)
    case (logs l l')
    then show ?thesis using logs_key_request [of l l'] assms by simp
  next
    case (dashboard l l')
    then show ?thesis using dashboard_key_request [of l l'] assms by simp
  next
    case (analytics l l')
    then show ?thesis using analytics_key_request [of l l'] assms by simp
  next
    case (system l l')
    then show ?thesis using system_key_request [of l l'] assms by simp
  next
    case (collect l l')
    then show ?thesis using collect_key_request [of l l'] assms by simp
  next
    case (account l l')
    then show ?thesis using account_key_request [of l l'] assms by simp
  qed
qed

text \<open>The request for one page: only the log search has more than one.\<close>

definition page_request :: "QueryHook \<Rightarrow> string option \<Rightarrow> HookRequest" where
  "page_request h pageParam =
     (case h of
        Logs (Q_logSearch sel flds runId) \<Rightarrow> logSearchRequest (orElse sel []) flds pageParam
      | _ \<Rightarrow> q_request (query h))"

lemma page_request_first: "page_request h None = q_request (query h)"
  by (simp add: page_request_def useLogSearch_def useQuery_def split: QueryHook.split LogsQuery.split)

lemma log_search_key:
  assumes "q_key (query h) = q_key (useLogSearch sel flds runId)"
  shows "h = Logs (Q_logSearch sel flds runId)"
proof -
  have "Some (area h) = Some (area (Logs (Q_logSearch sel flds runId)))"
    using assms by (simp only: area_of_key [symmetric] query.simps logs_query.simps)
  then obtain l where h: "h = Logs l"
    by (cases h) (simp_all add: area_def)
  with assms show ?thesis by (cases l) simp_all
qed

section \<open>Scrolling through a search\<close>

text \<open>An infinite query asks for the page \<open>getNextPageParam\<close> names until it names none; \<open>server\<close> is what the
  search answers to a cursor.\<close>

partial_function (option) load_pages ::
  "(string option \<Rightarrow> SearchResponse) \<Rightarrow> string option \<Rightarrow> SearchResponse list \<Rightarrow> SearchResponse list option" where
  "load_pages server cursor pages =
     (let p = server cursor; pages' = pages @ [p] in
      case getNextPageParam p pages' of
        None \<Rightarrow> Some pages'
      | Some c \<Rightarrow> load_pages server (Some c) pages')"

text \<open>Consecutive pages are linked by their cursors.\<close>

fun linked :: "(string option \<Rightarrow> SearchResponse) \<Rightarrow> string option \<Rightarrow> SearchResponse list \<Rightarrow> bool" where
  "linked server cursor [] = True"
| "linked server cursor (p # ps) = (p = server cursor \<and> linked server (sr_next_cursor p) ps)"

definition next_cursor :: "SearchResponse list \<Rightarrow> string option" where
  "next_cursor pages = (if pages = [] then None else sr_next_cursor (last pages))"

lemma loaded_rows_snoc [simp]: "loaded_rows (pages @ [p]) = loaded_rows pages + length (orElse (sr_rows p) [])"
  by (simp add: loaded_rows_def)

lemma loaded_rows_Nil [simp]: "loaded_rows [] = 0"
  by (simp add: loaded_rows_def)

lemma linked_snoc_gen:
  "linked server cursor (ps @ [q]) \<longleftrightarrow>
     linked server cursor ps \<and> q = server (if ps = [] then cursor else sr_next_cursor (last ps))"
  by (induction ps arbitrary: cursor) auto

lemma linked_snoc [simp]: "linked server None (ps @ [q]) \<longleftrightarrow> linked server None ps \<and> q = server (next_cursor ps)"
  by (simp only: linked_snoc_gen next_cursor_def)

lemma next_cursor_simps [simp]: "next_cursor [] = None" "next_cursor (ps @ [q]) = sr_next_cursor q"
  by (simp_all add: next_cursor_def)

text \<open>What scrolling keeps: a row at least on every page but the last, and room for another page.\<close>

lemma load_pages_returns:
  assumes rows: "\<And>c. sr_next_cursor (server c) \<noteq> None \<Longrightarrow> orElse (sr_rows (server c)) [] \<noteq> []"
    and size: "\<And>c. length (orElse (sr_rows (server c)) []) \<le> SEARCH_PAGE_SIZE"
  shows "linked server None pages \<Longrightarrow> cursor = next_cursor pages \<Longrightarrow> length pages \<le> loaded_rows pages \<Longrightarrow> loaded_rows pages < MAX_LOADED_ROWS \<Longrightarrow>
    \<exists>ps. load_pages server cursor pages = Some ps \<and> linked server None ps \<and> ps \<noteq> [] \<and>
      length ps \<le> MAX_LOADED_ROWS \<and> loaded_rows ps < MAX_LOADED_ROWS + SEARCH_PAGE_SIZE \<and>
      getNextPageParam (last ps) ps = None"
proof (induction "MAX_LOADED_ROWS - loaded_rows pages" arbitrary: pages cursor rule: less_induct)
  case less
  let ?p = "server cursor" and ?ps = "pages @ [server cursor]"
  have link: "linked server None ?ps"
    using less.prems(1,2) by simp
  have bound: "loaded_rows ?ps < MAX_LOADED_ROWS + SEARCH_PAGE_SIZE" "length ?ps \<le> MAX_LOADED_ROWS"
    using less.prems size [of cursor] by simp_all
  show ?case
  proof (cases "getNextPageParam ?p ?ps")
    case None
    then have "load_pages server cursor pages = Some ?ps"
      by (simp add: load_pages.simps [of server cursor pages] Let_def)
    then show ?thesis using None link bound by simp
  next
    case (Some c)
    then have c: "sr_next_cursor ?p = Some c" and room: "loaded_rows ?ps < MAX_LOADED_ROWS"
      by (auto simp: getNextPageParam_def split: if_splits)
    have one: "orElse (sr_rows ?p) [] \<noteq> []" using rows [of cursor] c by simp
    then have "MAX_LOADED_ROWS - loaded_rows ?ps < MAX_LOADED_ROWS - loaded_rows pages"
      using less.prems(4) by (simp add: diff_less_mono2)
    moreover have "length ?ps \<le> loaded_rows ?ps"
      using less.prems(3) one by (cases "orElse (sr_rows ?p) []") simp_all
    ultimately have "\<exists>ps. load_pages server (Some c) ?ps = Some ps \<and> linked server None ps \<and> ps \<noteq> [] \<and>
        length ps \<le> MAX_LOADED_ROWS \<and> loaded_rows ps < MAX_LOADED_ROWS + SEARCH_PAGE_SIZE \<and>
        getNextPageParam (last ps) ps = None"
      using less.hyps [of ?ps "Some c"] link c room by simp
    moreover have "load_pages server cursor pages = load_pages server (Some c) ?ps"
      using Some by (simp add: load_pages.simps [of server cursor pages] Let_def)
    ultimately show ?thesis by simp
  qed
qed

section \<open>Properties\<close>

text \<open>C11. The cache key of a hook determines what it asks: two hooks with the same key send the same request, for
  every page of it, so that no answer is ever shown for another question.\<close>

theorem query_key_determines_request:
  assumes "q_key (query h) = q_key (query h')"
  shows "page_request h pageParam = page_request h' pageParam \<and> q_request (query h) = q_request (query h')"
proof (cases "\<exists>sel flds runId. h = Logs (Q_logSearch sel flds runId)")
  case True
  then have "h' = h" using log_search_key [of h'] assms by auto
  then show ?thesis by simp
next
  case False
  moreover have "\<nexists>sel flds runId. h' = Logs (Q_logSearch sel flds runId)"
    using False log_search_key [of h] assms by auto
  ultimately have "page_request h pageParam = q_request (query h)" "page_request h' pageParam = q_request (query h')"
    by (auto simp: page_request_def split: QueryHook.split LogsQuery.split)
  then show ?thesis using query_key_request [OF assms] by simp
qed

theorem query_key_determines_request_witness:
  "page_request (Logs (Q_fieldValues (Some []) (Some ''app'') ''a'' True)) None =
   page_request (Logs (Q_fieldValues (Some []) (Some ''app'') ''a'' False)) None"
  using query_key_determines_request
    [of "Logs (Q_fieldValues (Some []) (Some ''app'') ''a'' True)" "Logs (Q_fieldValues (Some []) (Some ''app'') ''a'' False)" None]
  by simp


definition sample_server :: "string option \<Rightarrow> SearchResponse" where
  "sample_server c = \<lparr>sr_logs = True, sr_rows = Some [Js_null], sr_next_cursor = (if c = None then Some ''next'' else None)\<rparr>"


end
