(* ===== verification/Api_Mutations.thy ===== *)
theory Api_Mutations
  imports Api_Queries
begin

text \<open>
  The writing hooks of \<open>src/frontend/src/api/hooks/index.ts\<close>: what each of them sends and what it does to the
  cache when the answer is in. The query client is TanStack Query's: its operations are parameters, and
  \<open>query_client_laws\<close> states what its documentation says of them. A timer that \<open>settle\<close> starts is a pending
  invalidation with its delay.
\<close>

section \<open>The query client\<close>

record 'c QueryClient =
  qc_set :: "Json list \<Rightarrow> (Json option \<Rightarrow> Json option) \<Rightarrow> 'c \<Rightarrow> 'c"
  qc_invalidate :: "Json list \<Rightarrow> 'c \<Rightarrow> 'c"
  qc_clear :: "'c \<Rightarrow> 'c"
  qc_data :: "'c \<Rightarrow> Json list \<Rightarrow> Json option"
  qc_invalidated :: "'c \<Rightarrow> Json list \<Rightarrow> bool"

text \<open>\<open>setQueryData\<close> writes one entry, and nothing when the updater gives \<open>undefined\<close>; an entry that was just
  written is fresh. \<open>invalidateQueries\<close> marks every entry whose key starts with the given one. \<open>clear\<close> drops all.\<close>

definition query_client_laws :: "'c QueryClient \<Rightarrow> bool" where
  "query_client_laws qc \<longleftrightarrow>
     (\<forall>k f c k'. qc_data qc (qc_set qc k f c) k' =
        (if k' = k \<and> f (qc_data qc c k) \<noteq> None then f (qc_data qc c k) else qc_data qc c k')) \<and>
     (\<forall>k f c k'. qc_invalidated qc (qc_set qc k f c) k' =
        (if k' = k \<and> f (qc_data qc c k) \<noteq> None then False else qc_invalidated qc c k')) \<and>
     (\<forall>k c k'. qc_data qc (qc_invalidate qc k c) k' = qc_data qc c k') \<and>
     (\<forall>k c k'. qc_invalidated qc (qc_invalidate qc k c) k' =
        (prefix k k' \<and> qc_data qc c k' \<noteq> None \<or> qc_invalidated qc c k')) \<and>
     (\<forall>c k. qc_data qc (qc_clear qc c) k = None \<and> \<not> qc_invalidated qc (qc_clear qc c) k)"

record 'c App =
  app_client :: ClientState
  app_cache :: 'c
  app_timers :: "(nat \<times> Json list) list"

record 'c Mutation =
  m_request :: HookRequest
  m_onSuccess :: "Json \<Rightarrow> 'c App \<Rightarrow> 'c App"
  m_onSettled :: "'c App \<Rightarrow> 'c App"

definition setQueryData :: "'c QueryClient \<Rightarrow> Json list \<Rightarrow> (Json option \<Rightarrow> Json option) \<Rightarrow> 'c App \<Rightarrow> 'c App" where
  "setQueryData qc key f a = a\<lparr>app_cache := qc_set qc key f (app_cache a)\<rparr>"

definition invalidateQueries :: "'c QueryClient \<Rightarrow> Json list \<Rightarrow> 'c App \<Rightarrow> 'c App" where
  "invalidateQueries qc key a = a\<lparr>app_cache := qc_invalidate qc key (app_cache a)\<rparr>"

definition set_token :: "string option \<Rightarrow> 'c App \<Rightarrow> 'c App" where
  "set_token token a = a\<lparr>app_client := setCsrfToken token (app_client a)\<rparr>"

definition useMutation :: "HookRequest \<Rightarrow> (Json \<Rightarrow> 'c App \<Rightarrow> 'c App) \<Rightarrow> 'c Mutation" where
  "useMutation request onSuccess = \<lparr>m_request = request, m_onSuccess = onSuccess, m_onSettled = id\<rparr>"

text \<open>A mutation runs its success handler on an answer, and its settled handler after either outcome.\<close>

definition mutate :: "'c Mutation \<Rightarrow> ApiError + Json \<Rightarrow> 'c App \<Rightarrow> 'c App" where
  "mutate m outcome a =
     m_onSettled m (case outcome of Inl e \<Rightarrow> a | Inr answer \<Rightarrow> m_onSuccess m answer a)"

definition member_of :: "string \<Rightarrow> Json \<Rightarrow> Json option" where
  "member_of k v = (case v of Js_obj o1 \<Rightarrow> map_of o1 k | _ \<Rightarrow> None)"

definition text_member :: "string \<Rightarrow> Json \<Rightarrow> string option" where
  "text_member k v = (case member_of k v of Some (Js_str s) \<Rightarrow> Some s | _ \<Rightarrow> None)"

text \<open>\<open>{...v, ms}\<close> of a value; spreading what is not an object gives no members.\<close>

definition js_spread :: "Json \<Rightarrow> (string \<times> Json option) list \<Rightarrow> Json" where
  "js_spread v ms = Js_obj (assign (case v of Js_obj o1 \<Rightarrow> o1 | _ \<Rightarrow> []) ms)"

definition PUT :: "string \<Rightarrow> JsonObject \<Rightarrow> HookRequest" where
  "PUT path body = (POST path body)\<lparr>hr_method := ''PUT''\<rparr>"

definition DELETE :: "string \<Rightarrow> string \<Rightarrow> HookRequest" where
  "DELETE path ident = (GET path)\<lparr>hr_method := ''DELETE'', hr_params := [(''id'', ident)]\<rparr>"

definition PUT_item :: "string \<Rightarrow> string \<Rightarrow> JsonObject \<Rightarrow> HookRequest" where
  "PUT_item path ident body = (PUT path body)\<lparr>hr_params := [(''id'', ident)]\<rparr>"

section \<open>Session\<close>

definition useLogin :: "'c QueryClient \<Rightarrow> string \<Rightarrow> string \<Rightarrow> 'c Mutation" where
  "useLogin qc username password =
     useMutation (POST ''/api/v1/auth/login'' [(''username'', Js_str username), (''password'', Js_str password)])
       (\<lambda>session a. setQueryData qc sessionKey (\<lambda>_. Some session) (set_token (text_member ''csrf_token'' session) a))"

definition resetOnLogout :: "'c QueryClient \<Rightarrow> 'c App \<Rightarrow> 'c App" where
  "resetOnLogout qc a = (set_token None a)\<lparr>app_cache := qc_clear qc (app_cache a)\<rparr>"

definition useLogout :: "'c QueryClient \<Rightarrow> 'c Mutation" where
  "useLogout qc =
     (useMutation ((GET ''/api/v1/auth/logout'')\<lparr>hr_method := ''POST''\<rparr>) (\<lambda>_. id))
       \<lparr>m_onSettled := \<lambda>a. (set_token None a)\<lparr>app_cache := qc_clear qc (app_cache a)\<rparr>\<rparr>"

definition useChangePassword :: "'c QueryClient \<Rightarrow> string \<Rightarrow> string \<Rightarrow> 'c Mutation" where
  "useChangePassword qc current_password new_password =
     useMutation (PUT ''/api/v1/auth/me/password''
         [(''current_password'', Js_str current_password), (''new_password'', Js_str new_password)])
       (\<lambda>_. invalidateQueries qc sessionKey)"

section \<open>The service catalog and the assistant\<close>

definition useUpdateServiceCatalog :: "'c QueryClient \<Rightarrow> JsonObject \<Rightarrow> 'c Mutation" where
  "useUpdateServiceCatalog qc body =
     useMutation (PUT ''/api/v1/analytics/services'' body)
       (\<lambda>res a. invalidateQueries qc serviceTrendsKey
          (setQueryData qc serviceCatalogKey
             (\<lambda>prev. case prev of
                None \<Rightarrow> Some res
              | Some p \<Rightarrow> Some (js_spread p [(''services'', member_of ''services'' res), (''problem'', Some (Js_str []))])) a))"

definition useAssistantQuery :: "JsonObject \<Rightarrow> 'c Mutation" where
  "useAssistantQuery body = useMutation (POST ''/api/v1/assistant/query'' body) (\<lambda>_. id)"

definition useAssistantExplain :: "JsonObject \<Rightarrow> 'c Mutation" where
  "useAssistantExplain body = useMutation (POST ''/api/v1/assistant/explain'' body) (\<lambda>_. id)"

section \<open>Saved searches and API keys\<close>

definition savedSearchesKey :: "Json list" where
  "savedSearchesKey = [Js_str ''saved-searches'']"

definition keep_saved :: "'c QueryClient \<Rightarrow> Json \<Rightarrow> 'c App \<Rightarrow> 'c App" where
  "keep_saved qc s a =
     setQueryData qc [Js_str ''saved-searches'', Js_str ''item'', js_opt (member_of ''id'' s)] (\<lambda>_. Some s)
       (invalidateQueries qc savedSearchesKey a)"

definition useCreateSavedSearch :: "'c QueryClient \<Rightarrow> JsonObject \<Rightarrow> 'c Mutation" where
  "useCreateSavedSearch qc body = useMutation (POST ''/api/v1/saved-searches'' body) (keep_saved qc)"

definition useUpdateSavedSearch :: "'c QueryClient \<Rightarrow> string \<Rightarrow> JsonObject \<Rightarrow> 'c Mutation" where
  "useUpdateSavedSearch qc ident body = useMutation (PUT_item ''/api/v1/saved-searches/{id}'' ident body) (keep_saved qc)"

definition useDeleteSavedSearch :: "'c QueryClient \<Rightarrow> string \<Rightarrow> 'c Mutation" where
  "useDeleteSavedSearch qc ident =
     useMutation (DELETE ''/api/v1/saved-searches/{id}'' ident) (\<lambda>_. invalidateQueries qc savedSearchesKey)"

definition apiKeysKey :: "Json list" where
  "apiKeysKey = [Js_str ''api-keys'']"

definition useCreateApiKey :: "'c QueryClient \<Rightarrow> JsonObject \<Rightarrow> 'c Mutation" where
  "useCreateApiKey qc body = useMutation (POST ''/api/v1/api-keys'' body) (\<lambda>_. invalidateQueries qc apiKeysKey)"

definition useRevokeApiKey :: "'c QueryClient \<Rightarrow> string \<Rightarrow> 'c Mutation" where
  "useRevokeApiKey qc ident =
     useMutation (DELETE ''/api/v1/api-keys/{id}'' ident) (\<lambda>_. invalidateQueries qc apiKeysKey)"

section \<open>Retention, sources and forward targets\<close>

text \<open>An answer without cached retention leaves the cache empty: the updater gives \<open>undefined\<close>.\<close>

definition useUpdateRetention :: "'c QueryClient \<Rightarrow> JsonObject \<Rightarrow> 'c Mutation" where
  "useUpdateRetention qc body =
     useMutation (PUT ''/api/v1/system/retention'' body)
       (\<lambda>res a. invalidateQueries qc retentionKey
          (setQueryData qc retentionKey
             (map_option (\<lambda>prev. js_spread prev [(''desired'', member_of ''desired'' res),
                (''restart_required'', member_of ''restart_required'' res)])) a))"

definition SETTLE_DELAYS_MS :: "nat list" where
  "SETTLE_DELAYS_MS = [500, 1500, 3000, 5500]"

definition settle :: "'c QueryClient \<Rightarrow> Json list \<Rightarrow> 'c App \<Rightarrow> 'c App" where
  "settle qc key a =
     fold (\<lambda>ms a1. a1\<lparr>app_timers := app_timers a1 @ [(ms, key)]\<rparr>) SETTLE_DELAYS_MS (invalidateQueries qc key a)"

definition settleSources :: "'c QueryClient \<Rightarrow> 'c App \<Rightarrow> 'c App" where
  "settleSources qc a = invalidateQueries qc templatesKey (settle qc sourcesKey a)"

text \<open>The \<open>i\<close>-th pending timer fires.\<close>

definition fire :: "'c QueryClient \<Rightarrow> nat \<Rightarrow> 'c App \<Rightarrow> 'c App" where
  "fire qc i a =
     (if i < length (app_timers a)
      then invalidateQueries qc (snd (app_timers a ! i)) (a\<lparr>app_timers := take i (app_timers a) @ drop (Suc i) (app_timers a)\<rparr>)
      else a)"

definition keep_source :: "'c QueryClient \<Rightarrow> Json \<Rightarrow> 'c App \<Rightarrow> 'c App" where
  "keep_source qc s a =
     settleSources qc (setQueryData qc (sourcesKey @ [Js_str ''item'', js_opt (member_of ''id'' s)]) (\<lambda>_. Some s) a)"

definition useCreateSource :: "'c QueryClient \<Rightarrow> JsonObject \<Rightarrow> 'c Mutation" where
  "useCreateSource qc body = useMutation (POST ''/api/v1/sources'' body) (\<lambda>_. settleSources qc)"

definition useAdoptSource :: "'c QueryClient \<Rightarrow> string \<Rightarrow> 'c Mutation" where
  "useAdoptSource qc name = useMutation (POST ''/api/v1/sources/adopt'' [(''name'', Js_str name)]) (keep_source qc)"

definition useUpdateSource :: "'c QueryClient \<Rightarrow> string \<Rightarrow> JsonObject \<Rightarrow> 'c Mutation" where
  "useUpdateSource qc ident body = useMutation (PUT_item ''/api/v1/sources/{id}'' ident body) (keep_source qc)"

definition useDeleteSource :: "'c QueryClient \<Rightarrow> string \<Rightarrow> 'c Mutation" where
  "useDeleteSource qc ident = useMutation (DELETE ''/api/v1/sources/{id}'' ident) (\<lambda>_. settleSources qc)"

definition useTestExtract :: "JsonObject \<Rightarrow> 'c Mutation" where
  "useTestExtract body = useMutation (POST ''/api/v1/sources/test-extract'' body) (\<lambda>_. id)"

definition useCreateForwardTarget :: "'c QueryClient \<Rightarrow> JsonObject \<Rightarrow> 'c Mutation" where
  "useCreateForwardTarget qc body = useMutation (POST ''/api/v1/forward-targets'' body) (\<lambda>_. settle qc forwardTargetsKey)"

definition useUpdateForwardTarget :: "'c QueryClient \<Rightarrow> string \<Rightarrow> JsonObject \<Rightarrow> 'c Mutation" where
  "useUpdateForwardTarget qc ident body =
     useMutation (PUT_item ''/api/v1/forward-targets/{id}'' ident body) (\<lambda>_. settle qc forwardTargetsKey)"

definition useDeleteForwardTarget :: "'c QueryClient \<Rightarrow> string \<Rightarrow> 'c Mutation" where
  "useDeleteForwardTarget qc ident =
     useMutation (DELETE ''/api/v1/forward-targets/{id}'' ident) (\<lambda>_. settle qc forwardTargetsKey)"

section \<open>Users\<close>

definition useCreateUser :: "'c QueryClient \<Rightarrow> JsonObject \<Rightarrow> 'c Mutation" where
  "useCreateUser qc body = useMutation (POST ''/api/v1/users'' body) (\<lambda>_. invalidateQueries qc usersKey)"

definition useUpdateUser :: "'c QueryClient \<Rightarrow> string \<Rightarrow> JsonObject \<Rightarrow> 'c Mutation" where
  "useUpdateUser qc ident body =
     useMutation (PUT_item ''/api/v1/users/{id}'' ident body) (\<lambda>_. invalidateQueries qc usersKey)"

definition useDeleteUser :: "'c QueryClient \<Rightarrow> string \<Rightarrow> 'c Mutation" where
  "useDeleteUser qc ident = useMutation (DELETE ''/api/v1/users/{id}'' ident) (\<lambda>_. invalidateQueries qc usersKey)"

definition useRevokeUserSessions :: "string \<Rightarrow> 'c Mutation" where
  "useRevokeUserSessions ident =
     useMutation ((GET ''/api/v1/users/{id}/revoke-sessions'')\<lparr>hr_method := ''POST'', hr_params := [(''id'', ident)]\<rparr>) (\<lambda>_. id)"

section \<open>All of them\<close>

datatype MutationHook =
    M_login string string
  | M_logout
  | M_changePassword string string
  | M_updateServiceCatalog JsonObject
  | M_assistantQuery JsonObject
  | M_assistantExplain JsonObject
  | M_createSavedSearch JsonObject
  | M_updateSavedSearch string JsonObject
  | M_deleteSavedSearch string
  | M_createApiKey JsonObject
  | M_revokeApiKey string
  | M_updateRetention JsonObject
  | M_createSource JsonObject
  | M_adoptSource string
  | M_updateSource string JsonObject
  | M_deleteSource string
  | M_testExtract JsonObject
  | M_createForwardTarget JsonObject
  | M_updateForwardTarget string JsonObject
  | M_deleteForwardTarget string
  | M_createUser JsonObject
  | M_updateUser string JsonObject
  | M_deleteUser string
  | M_revokeUserSessions string

primrec mutation :: "'c QueryClient \<Rightarrow> MutationHook \<Rightarrow> 'c Mutation" where
  "mutation qc (M_login u p) = useLogin qc u p"
| "mutation qc M_logout = useLogout qc"
| "mutation qc (M_changePassword c n) = useChangePassword qc c n"
| "mutation qc (M_updateServiceCatalog b) = useUpdateServiceCatalog qc b"
| "mutation qc (M_assistantQuery b) = useAssistantQuery b"
| "mutation qc (M_assistantExplain b) = useAssistantExplain b"
| "mutation qc (M_createSavedSearch b) = useCreateSavedSearch qc b"
| "mutation qc (M_updateSavedSearch i b) = useUpdateSavedSearch qc i b"
| "mutation qc (M_deleteSavedSearch i) = useDeleteSavedSearch qc i"
| "mutation qc (M_createApiKey b) = useCreateApiKey qc b"
| "mutation qc (M_revokeApiKey i) = useRevokeApiKey qc i"
| "mutation qc (M_updateRetention b) = useUpdateRetention qc b"
| "mutation qc (M_createSource b) = useCreateSource qc b"
| "mutation qc (M_adoptSource n) = useAdoptSource qc n"
| "mutation qc (M_updateSource i b) = useUpdateSource qc i b"
| "mutation qc (M_deleteSource i) = useDeleteSource qc i"
| "mutation qc (M_testExtract b) = useTestExtract b"
| "mutation qc (M_createForwardTarget b) = useCreateForwardTarget qc b"
| "mutation qc (M_updateForwardTarget i b) = useUpdateForwardTarget qc i b"
| "mutation qc (M_deleteForwardTarget i) = useDeleteForwardTarget qc i"
| "mutation qc (M_createUser b) = useCreateUser qc b"
| "mutation qc (M_updateUser i b) = useUpdateUser qc i b"
| "mutation qc (M_deleteUser i) = useDeleteUser qc i"
| "mutation qc (M_revokeUserSessions i) = useRevokeUserSessions i"

section \<open>What is written and what is read\<close>

text \<open>The parts of the server's state the hooks share: what a query reads and what a mutation changes.\<close>

datatype Resource =
  R_session | R_services | R_trends | R_saved | R_keys | R_retention | R_sources | R_templates | R_forward | R_users

fun resources :: "QueryHook \<Rightarrow> Resource list" where
  "resources (Account Q_session) = [R_session]"
| "resources (Account Q_apiKeys) = [R_keys]"
| "resources (Account Q_users) = [R_users]"
| "resources (Analytics Q_serviceCatalog) = [R_services]"
| "resources (Analytics (Q_serviceTrends _ _ _ _ _ _)) = [R_trends]"
| "resources (System Q_systemRetention) = [R_retention]"
| "resources (Collect (Q_savedSearches _)) = [R_saved]"
| "resources (Collect (Q_savedSearch _)) = [R_saved]"
| "resources (Collect Q_sources) = [R_sources]"
| "resources (Collect (Q_source _)) = [R_sources]"
| "resources (Collect (Q_templates _)) = [R_templates]"
| "resources (Collect (Q_templateConfig _ _ _)) = [R_templates]"
| "resources (Collect Q_forwardTargets) = [R_forward]"
| "resources _ = []"

fun writes :: "MutationHook \<Rightarrow> Resource list" where
  "writes (M_login _ _) = [R_session]"
| "writes (M_changePassword _ _) = [R_session]"
| "writes (M_updateServiceCatalog _) = [R_services, R_trends]"
| "writes (M_createSavedSearch _) = [R_saved]"
| "writes (M_updateSavedSearch _ _) = [R_saved]"
| "writes (M_deleteSavedSearch _) = [R_saved]"
| "writes (M_createApiKey _) = [R_keys]"
| "writes (M_revokeApiKey _) = [R_keys]"
| "writes (M_updateRetention _) = [R_retention]"
| "writes (M_createSource _) = [R_sources, R_templates]"
| "writes (M_adoptSource _) = [R_sources, R_templates]"
| "writes (M_updateSource _ _) = [R_sources, R_templates]"
| "writes (M_deleteSource _) = [R_sources, R_templates]"
| "writes (M_createForwardTarget _) = [R_forward]"
| "writes (M_updateForwardTarget _ _) = [R_forward]"
| "writes (M_deleteForwardTarget _) = [R_forward]"
| "writes (M_createUser _) = [R_users]"
| "writes (M_updateUser _ _) = [R_users]"
| "writes (M_deleteUser _) = [R_users]"
| "writes _ = []"

definition touches :: "MutationHook \<Rightarrow> QueryHook \<Rightarrow> bool" where
  "touches m h = list_ex (List.member (resources h)) (writes m)"

text \<open>The keys the mutations name cover exactly the queries that read the resource.\<close>

definition key_of :: "Resource \<Rightarrow> Json list" where
  "key_of r =
     (case r of
        R_session \<Rightarrow> sessionKey | R_services \<Rightarrow> serviceCatalogKey | R_trends \<Rightarrow> serviceTrendsKey
      | R_saved \<Rightarrow> savedSearchesKey | R_keys \<Rightarrow> apiKeysKey | R_retention \<Rightarrow> retentionKey | R_sources \<Rightarrow> sourcesKey
      | R_templates \<Rightarrow> templatesKey | R_forward \<Rightarrow> forwardTargetsKey | R_users \<Rightarrow> usersKey)"

lemmas resource_keys = key_of_def key_defs savedSearchesKey_def apiKeysKey_def

lemma prefix_key_reads:
  assumes "r \<noteq> R_services"
  shows "prefix (key_of r) (q_key (query h)) \<longleftrightarrow> r \<in> set (resources h)"
proof (cases h)
  case (Logs l)
  with assms show ?thesis by (cases l; cases r) (simp_all add: resource_keys)
next
  case (Dashboard l)
  with assms show ?thesis by (cases l; cases r) (simp_all add: resource_keys)
next
  case (Analytics l)
  with assms show ?thesis by (cases l; cases r) (simp_all add: resource_keys)
next
  case (System l)
  with assms show ?thesis by (cases l; cases r) (simp_all add: resource_keys)
next
  case (Collect l)
  with assms show ?thesis by (cases l; cases r) (simp_all add: resource_keys)
next
  case (Account l)
  with assms show ?thesis by (cases l; cases r) (simp_all add: resource_keys)
qed

lemma services_key_reads: "q_key (query h) = serviceCatalogKey \<longleftrightarrow> R_services \<in> set (resources h)"
proof -
  have "h = Analytics Q_serviceCatalog" if "q_key (query h) = serviceCatalogKey"
  proof -
    have "q_key (query h) = q_key (query (Analytics Q_serviceCatalog))"
      using that by (simp add: serviceCatalogKey_def)
    then have "Some (area h) = Some (area (Analytics Q_serviceCatalog))"
      by (simp only: area_of_key [symmetric])
    then obtain l where h: "h = Analytics l" by (cases h) (simp_all add: area_def)
    with that show ?thesis by (cases l) (simp_all add: serviceCatalogKey_def)
  qed
  then show ?thesis
    by (cases h rule: resources.cases) (auto simp: serviceCatalogKey_def)
qed

lemma reads_services: "R_services \<in> set (resources h) \<longleftrightarrow> h = Analytics Q_serviceCatalog"
  by (cases h rule: resources.cases) simp_all

lemma session_key_reads: "q_key (query h) = sessionKey \<longleftrightarrow> R_session \<in> set (resources h)"
proof
  assume "q_key (query h) = sessionKey"
  then show "R_session \<in> set (resources h)"
    using prefix_key_reads [of R_session h] by (simp add: key_of_def)
next
  assume "R_session \<in> set (resources h)"
  then show "q_key (query h) = sessionKey" by (cases h rule: resources.cases) (simp_all add: sessionKey_def)
qed

lemmas key_reads =
  prefix_key_reads [of R_session, unfolded key_of_def, simplified]
  prefix_key_reads [of R_trends, unfolded key_of_def, simplified]
  prefix_key_reads [of R_saved, unfolded key_of_def, simplified]
  prefix_key_reads [of R_keys, unfolded key_of_def, simplified]
  prefix_key_reads [of R_retention, unfolded key_of_def, simplified]
  prefix_key_reads [of R_sources, unfolded key_of_def, simplified]
  prefix_key_reads [of R_templates, unfolded key_of_def, simplified]
  prefix_key_reads [of R_forward, unfolded key_of_def, simplified]
  prefix_key_reads [of R_users, unfolded key_of_def, simplified]
  services_key_reads session_key_reads

text \<open>An entry under a list's key belongs to a query that reads the list.\<close>

lemma item_key_reads:
  "R_saved \<notin> set (resources h) \<Longrightarrow> q_key (query h) \<noteq> [Js_str ''saved-searches'', Js_str ''item'', x]"
  "R_sources \<notin> set (resources h) \<Longrightarrow> q_key (query h) \<noteq> sourcesKey @ xs"
  "R_retention \<notin> set (resources h) \<Longrightarrow> q_key (query h) \<noteq> retentionKey"
  using key_reads(3,5,6) [of h] by (auto simp: savedSearchesKey_def)

section \<open>Effects on the application\<close>

lemma app_effects [simp]:
  "app_cache (setQueryData qc k f a) = qc_set qc k f (app_cache a)"
  "app_client (setQueryData qc k f a) = app_client a"
  "app_timers (setQueryData qc k f a) = app_timers a"
  "app_cache (invalidateQueries qc k a) = qc_invalidate qc k (app_cache a)"
  "app_client (invalidateQueries qc k a) = app_client a"
  "app_timers (invalidateQueries qc k a) = app_timers a"
  "app_cache (set_token tok a) = app_cache a"
  "app_timers (set_token tok a) = app_timers a"
  "cl_csrfToken (app_client (set_token tok a)) = tok"
  by (simp_all add: setQueryData_def invalidateQueries_def set_token_def setCsrfToken_def)

lemma settle_effects [simp]:
  "app_cache (settle qc k a) = qc_invalidate qc k (app_cache a)"
  "app_client (settle qc k a) = app_client a"
  "app_timers (settle qc k a) = app_timers a @ map (\<lambda>ms. (ms, k)) SETTLE_DELAYS_MS"
  by (simp_all add: settle_def SETTLE_DELAYS_MS_def)

lemmas mutation_defs =
  useLogin_def useLogout_def useChangePassword_def useUpdateServiceCatalog_def useAssistantQuery_def useAssistantExplain_def
  useCreateSavedSearch_def useUpdateSavedSearch_def useDeleteSavedSearch_def useCreateApiKey_def useRevokeApiKey_def
  useUpdateRetention_def useCreateSource_def useAdoptSource_def useUpdateSource_def useDeleteSource_def useTestExtract_def
  useCreateForwardTarget_def useUpdateForwardTarget_def useDeleteForwardTarget_def useCreateUser_def useUpdateUser_def
  useDeleteUser_def useRevokeUserSessions_def

lemmas effect_defs = mutate_def useMutation_def keep_saved_def keep_source_def settleSources_def

lemma client_laws:
  assumes "query_client_laws qc"
  shows "qc_data qc (qc_set qc k f c) k' =
      (if k' = k \<and> f (qc_data qc c k) \<noteq> None then f (qc_data qc c k) else qc_data qc c k')"
    and "qc_invalidated qc (qc_set qc k f c) k' =
      (if k' = k \<and> f (qc_data qc c k) \<noteq> None then False else qc_invalidated qc c k')"
    and "qc_data qc (qc_invalidate qc k c) k' = qc_data qc c k'"
    and "qc_invalidated qc (qc_invalidate qc k c) k' = (prefix k k' \<and> qc_data qc c k' \<noteq> None \<or> qc_invalidated qc c k')"
    and "qc_data qc (qc_clear qc c) k = None" and "\<not> qc_invalidated qc (qc_clear qc c) k"
  using assms unfolding query_client_laws_def by simp_all

lemma member_of_spread [simp]:
  "member_of ''services'' (js_spread p [(''services'', v), (''problem'', Some w)]) = v"
  by (cases v) (auto simp: js_spread_def member_of_def assign_def update_conv' map_of_delete delete_conv' split: Json.split)

text \<open>A query that reads what was written is refetched, or shows the answer already.\<close>

lemma touched_refreshed:
  assumes laws: "query_client_laws qc" and "touches m h" and "qc_data qc (app_cache a) (q_key (query h)) \<noteq> None"
  shows "qc_invalidated qc (app_cache (mutate (mutation qc m) (Inr answer) a)) (q_key (query h)) \<or>
    (\<exists>new. qc_data qc (app_cache (mutate (mutation qc m) (Inr answer) a)) (q_key (query h)) = Some new \<and>
       (new = answer \<or> h = Analytics Q_serviceCatalog \<and> member_of ''services'' new = member_of ''services'' answer))"
  using assms(2,3)
  by (cases m) (auto simp: touches_def mutation_defs effect_defs client_laws [OF laws] key_reads reads_services
      split: option.splits)

text \<open>Nothing else changes.\<close>

lemma untouched_kept:
  assumes laws: "query_client_laws qc" and "\<not> touches m h" and "m \<noteq> M_logout"
  shows "qc_data qc (app_cache (mutate (mutation qc m) (Inr answer) a)) (q_key (query h)) = qc_data qc (app_cache a) (q_key (query h)) \<and>
    qc_invalidated qc (app_cache (mutate (mutation qc m) (Inr answer) a)) (q_key (query h)) =
      qc_invalidated qc (app_cache a) (q_key (query h))"
  using assms(2,3)
  by (cases m) (simp_all add: touches_def mutation_defs effect_defs client_laws [OF laws] key_reads item_key_reads)

lemma failure_keeps: "m \<noteq> M_logout \<Longrightarrow> mutate (mutation qc m) (Inl e) a = a"
  by (cases m) (simp_all add: mutation_defs effect_defs)

lemma logout_forgets:
  assumes "query_client_laws qc"
  shows "qc_data qc (app_cache (mutate (mutation qc M_logout) outcome a)) k = None"
    and "cl_csrfToken (app_client (mutate (mutation qc M_logout) outcome a)) = None"
  by (simp_all add: useLogout_def effect_defs client_laws [OF assms])

text \<open>The lists of sources and targets are read again a few times: whenever one of the timers fires, everything
  cached under its key is refetched.\<close>

lemma settle_rereads: "ms \<in> set SETTLE_DELAYS_MS \<Longrightarrow> (ms, k) \<in> set (app_timers (settle qc k a))"
  by simp

lemma fire_invalidates:
  assumes "query_client_laws qc" and "i < length (app_timers a)" and "prefix (snd (app_timers a ! i)) k"
    and "qc_data qc (app_cache a) k \<noteq> None"
  shows "qc_invalidated qc (app_cache (fire qc i a)) k \<and> length (app_timers (fire qc i a)) < length (app_timers a)"
  using assms(2-) by (simp add: fire_def client_laws [OF assms(1)])

section \<open>Properties\<close>


text \<open>A cache as a function from keys to an entry and its mark.\<close>

definition sample_client :: "(Json list \<Rightarrow> (Json \<times> bool) option) QueryClient" where
  "sample_client =
     \<lparr>qc_set = \<lambda>k f c. case f (map_option fst (c k)) of None \<Rightarrow> c | Some v \<Rightarrow> c(k \<mapsto> (v, False)),
      qc_invalidate = \<lambda>k c k'. if prefix k k' then map_option (\<lambda>(v, b). (v, True)) (c k') else c k',
      qc_clear = \<lambda>c k. None,
      qc_data = \<lambda>c k. map_option fst (c k),
      qc_invalidated = \<lambda>c k. case c k of None \<Rightarrow> False | Some (v, b) \<Rightarrow> b\<rparr>"

lemma sample_client_laws: "query_client_laws sample_client"
  by (auto simp: query_client_laws_def sample_client_def option.map_comp comp_def case_prod_beta split: option.splits)

definition sample_app :: "(Json list \<Rightarrow> (Json \<times> bool) option) App" where
  "sample_app =
     \<lparr>app_client = \<lparr>cl_csrfToken = Some ''t'', cl_handler = None\<rparr>,
      app_cache = [q_key useSources \<mapsto> (Js_arr [], False)], app_timers = []\<rparr>"


end
