(* ===== verification/Template_Analyses.thy ===== *)
theory Template_Analyses
  imports Analytics_Query Source_Templates
begin

text \<open>
  The three template analyses of the analytics page: Active Directory
  (\<open>src/frontend/src/features/analytics/directory.ts\<close>), SQL Server (\<open>mssql.ts\<close>) and IIS (\<open>iis.ts\<close>), and
  \<open>analyses.ts\<close>, which decides whether one of them is offered. The counts of an overview are whole numbers.

  What the three pages share is the locale \<open>narrowed_view\<close>: a page narrows to one value of a field, and
  the link of a row opens the explorer on the same events.
\<close>

section \<open>Colours\<close>

definition CHART_COLORS :: "string list" where
  "CHART_COLORS =
    [''#4c8dff'', ''#3fb67f'', ''#f5a524'', ''#a78bfa'', ''#22d3ee'', ''#f472b6'', ''#84cc16'', ''#fb7185'']"

definition seriesColor :: "string option \<Rightarrow> string \<Rightarrow> nat \<Rightarrow> string" where
  "seriesColor splitBy v index =
     (if splitBy = Some ''severity'' then if v = ''other'' then ''var(--sev-other)'' else severityColor (Some v)
      else if v = ''other'' then ''var(--fg-subtle)''
      else CHART_COLORS ! (index mod length CHART_COLORS))"

section \<open>Narrowing to one value\<close>

definition value_filter :: "string \<Rightarrow> string \<Rightarrow> FilterExpr option" where
  "value_filter field v = (let w = trim v in if w \<noteq> [] then Some (FieldValueExpr Eq field w) else None)"

definition value_search :: "string \<Rightarrow> string \<Rightarrow> TimeRange \<Rightarrow> ExplorerSearch" where
  "value_search field v r =
     \<lparr>es_from = tr_from r, es_to = tr_to r, es_tz = tr_tz r, es_q = Some (field @ ''='' @ quote v), es_native = None,
      es_mode = ''visual'', es_cols = None, es_split = None, es_saved = None\<rparr>"

definition default_range_patch :: "string \<times> string \<Rightarrow> string \<Rightarrow> string \<Rightarrow> (string \<times> string) option" where
  "default_range_patch d from to = (if from = ''now-1h'' \<and> to = ''now'' then Some d else None)"

text \<open>A page names a value in the URL and a number of rows; both come back as they were chosen.\<close>

locale narrowed_view =
  fixes field :: string
    and filter_of :: "string \<Rightarrow> FilterExpr option"
    and search_of :: "string \<Rightarrow> TimeRange \<Rightarrow> ExplorerSearch"
  assumes filter_of: "filter_of v = value_filter field v"
    and search_of: "search_of v r = value_search field v r"
    and field_bare: "quote field = field" "field \<noteq> []"
begin

lemma link_filter:
  "decodeQuery (es_q (search_of v r)) (es_native (search_of v r)) =
     \<lparr>dq_filter = Some (FieldValueExpr Eq field v), dq_native = None, dq_error = None\<rparr>"
proof -
  have "fmt (FieldValueExpr Eq field v) 0 = field @ ''='' @ quote v"
    by (simp add: field_bare AST_TO_OP_def OP_TO_AST_def)
  moreover have "parseFilter (fmt (FieldValueExpr Eq field v) 0) = Inr (Some (FieldValueExpr Eq field v))"
    by (rule parse_fmt) (simp add: field_bare)
  ultimately have "parseFilter (field @ ''='' @ quote v) = Inr (Some (FieldValueExpr Eq field v))" by (simp only:)
  then show ?thesis by (simp add: search_of value_search_def decodeQuery_def)
qed

lemma link_narrows:
  assumes "v \<noteq> []" and "trimmed v"
  shows "dq_filter (decodeQuery (es_q (search_of v r)) (es_native (search_of v r))) = filter_of v"
  using assms by (simp add: link_filter filter_of value_filter_def trim_id)

end

section \<open>Active Directory\<close>

definition AD_USER_FIELD :: string where
  "AD_USER_FIELD = ''ad.user''"

definition DIRECTORY_ROW_OPTIONS :: "nat list" where
  "DIRECTORY_ROW_OPTIONS = [25, 50, 100]"

definition DEFAULT_DIRECTORY_ROWS :: nat where
  "DEFAULT_DIRECTORY_ROWS = 50"

definition DEFAULT_DIRECTORY_RANGE :: "string \<times> string" where
  "DEFAULT_DIRECTORY_RANGE = (''now-24h'', ''now'')"

record DirectoryQuery =
  dr_account :: string
  dr_rows :: nat

record DirectorySearch =
  ds_acct :: "string option"
  ds_rows :: "string option"

definition decodeDirectory :: "DirectorySearch \<Rightarrow> DirectoryQuery" where
  "decodeDirectory search =
     \<lparr>dr_account = trim (orElse (ds_acct search) []),
      dr_rows = one_of DIRECTORY_ROW_OPTIONS (Number_opt (ds_rows search)) DEFAULT_DIRECTORY_ROWS\<rparr>"

definition encodeDirectory :: "DirectoryQuery \<Rightarrow> DirectorySearch" where
  "encodeDirectory q =
     \<lparr>ds_acct = nonempty (trim (dr_account q)),
      ds_rows = (if dr_rows q = DEFAULT_DIRECTORY_ROWS then None else Some (show_nat (dr_rows q)))\<rparr>"

definition directoryRangePatch :: "string \<Rightarrow> string \<Rightarrow> (string \<times> string) option" where
  "directoryRangePatch = default_range_patch DEFAULT_DIRECTORY_RANGE"

definition directoryFilter :: "string \<Rightarrow> FilterExpr option" where
  "directoryFilter account = value_filter AD_USER_FIELD account"

definition directoryExplorerSearch :: "string \<Rightarrow> TimeRange \<Rightarrow> ExplorerSearch" where
  "directoryExplorerSearch user r = value_search AD_USER_FIELD user r"

datatype TileTone = Tile_neutral | Tile_warn | Tile_alert

record DirectoryTile =
  ti_name :: string
  ti_label :: string
  ti_value :: int
  ti_note :: string
  ti_tone :: TileTone

record DirectoryOverview =
  do_signed_in :: int
  do_accounts :: int
  do_logons :: int
  do_failures :: int
  do_lockouts :: int
  do_privileged_logons :: int
  do_account_changes :: int
  do_group_changes :: int

text \<open>\<open>o?.x ?? 0\<close> of an overview that may not have arrived.\<close>

definition figure :: "'o option \<Rightarrow> ('o \<Rightarrow> int) \<Rightarrow> int" where
  "figure ov x = (case ov of None \<Rightarrow> 0 | Some v \<Rightarrow> x v)"

definition plural :: "int \<Rightarrow> string \<Rightarrow> string \<Rightarrow> string" where
  "plural n one1 many = (if n = 1 then one1 else many)"

definition tile :: "string \<Rightarrow> string \<Rightarrow> int \<Rightarrow> string \<Rightarrow> TileTone \<Rightarrow> DirectoryTile" where
  "tile n l v note tone = \<lparr>ti_name = n, ti_label = l, ti_value = v, ti_note = note, ti_tone = tone\<rparr>"

definition directoryTiles :: "DirectoryOverview option \<Rightarrow> DirectoryTile list" where
  "directoryTiles ov =
    (let failures = figure ov do_failures; lockouts = figure ov do_lockouts in
    [tile ''signed_in'' ''Signed in now'' (figure ov do_signed_in)
       ''Estimate: a machine that loses power never reports the sign-out.'' Tile_neutral,
     tile ''accounts'' ''Accounts seen'' (figure ov do_accounts)
       ''Distinct accounts that signed in during this window.'' Tile_neutral,
     tile ''logons'' ''Sign-ins'' (figure ov do_logons)
       ''Sign-in events, not people: one account may sign in many times.'' Tile_neutral,
     tile ''failures'' ''Failed sign-ins'' failures
       (if failures \<noteq> 0 then ''Wrong credentials, unknown accounts and locked-out accounts alike.'' else ''None in this window.'')
       (if failures \<noteq> 0 then Tile_warn else Tile_neutral),
     tile ''lockouts'' ''Lockouts'' lockouts
       (if lockouts \<noteq> 0 then
          formatExact (Some lockouts) @ '' '' @ plural lockouts ''account was'' ''accounts were'' @ '' locked out '' @ EMDASH @
          '' see the table below.''
        else ''No account locked out in this window.'')
       (if lockouts \<noteq> 0 then Tile_alert else Tile_neutral),
     tile ''privileged_logons'' ''Privileged sign-ins'' (figure ov do_privileged_logons)
       ''Sign-ins that carried administrative rights.'' Tile_neutral])"

definition activityLineColor :: "string \<Rightarrow> string" where
  "activityLineColor name =
     (if name = ''failures'' then ''var(--warning)'' else if name = ''lockouts'' then ''var(--danger)''
      else if name = ''privileged'' then CHART_COLORS ! 3 else ''var(--accent)'')"

definition change_part :: "int \<Rightarrow> string \<Rightarrow> string" where
  "change_part n noun = formatExact (Some n) @ '' '' @ noun @ (if n = 1 then [] else ''s'')"

definition changesSummary :: "DirectoryOverview option \<Rightarrow> string" where
  "changesSummary ov =
     (let accounts = figure ov do_account_changes; groups = figure ov do_group_changes in
      if accounts = 0 \<and> groups = 0 then ''nothing changed''
      else change_part accounts ''account change'' @ '' '' @ MIDDOT @ '' '' @ change_part groups ''group change'')"

definition activityChartData :: "(string \<Rightarrow> int option) \<Rightarrow> AnalysisActivity option \<Rightarrow> LineChartData" where
  "activityChartData parse_date activity = lineChartData parse_date activity (\<lambda>name _. activityLineColor name)"

record DirectoryLockout =
  lo_at :: string
  lo_user :: string
  lo_caller :: "string option"
  lo_source_ip :: "string option"
  lo_dc :: "string option"
  lo_failures_before :: int

definition lockoutSentence :: "DirectoryLockout \<Rightarrow> string" where
  "lockoutSentence l =
     (let caller = orElse (lo_caller l) []; ip = orElse (lo_source_ip l) []; n = lo_failures_before l;
          from = (if caller \<noteq> [] \<and> ip \<noteq> [] then caller @ '' ('' @ ip @ '')'' else if caller \<noteq> [] then caller else ip);
          after = (if n > 0 then ''after '' @ formatExact (Some n) @ '' failed sign-in'' @ (if n = 1 then [] else ''s'')
                   else ''with no failed sign-ins recorded before it'')
      in lo_user l @ '' locked out '' @ (if from \<noteq> [] then ''from '' @ from @ '' '' else []) @ after)"

definition directoryIsEmpty :: "DirectoryOverview option \<Rightarrow> bool" where
  "directoryIsEmpty ov =
     (case ov of
        None \<Rightarrow> True
      | Some v \<Rightarrow> do_logons v = 0 \<and> do_failures v = 0 \<and> do_lockouts v = 0 \<and> do_accounts v = 0 \<and>
          do_privileged_logons v = 0 \<and> do_account_changes v = 0 \<and> do_group_changes v = 0)"

definition directoryEmptyHint :: string where
  "directoryEmptyHint =
     ''A source that has just been added has nothing for a few minutes. After that, check the audit policy on the '' @
     ''domain controller: Windows records far less than people expect by default, successful sign-ins among them, '' @
     ''and the template'' @ RSQUO @ ''s setup guide has the commands that turn the rest on.''"

section \<open>SQL Server\<close>

definition MSSQL_INSTANCE_FIELD :: string where
  "MSSQL_INSTANCE_FIELD = ''mssql.provider''"

definition MSSQL_ROW_OPTIONS :: "nat list" where
  "MSSQL_ROW_OPTIONS = [25, 50, 100]"

definition DEFAULT_MSSQL_ROWS :: nat where
  "DEFAULT_MSSQL_ROWS = 50"

definition DEFAULT_MSSQL_RANGE :: "string \<times> string" where
  "DEFAULT_MSSQL_RANGE = (''now-24h'', ''now'')"

record MSSQLQuery =
  mq_instance :: string
  mq_rows :: nat

record MSSQLSearch =
  ms_inst :: "string option"
  ms_rows :: "string option"

definition decodeMSSQL :: "MSSQLSearch \<Rightarrow> MSSQLQuery" where
  "decodeMSSQL search =
     \<lparr>mq_instance = trim (orElse (ms_inst search) []),
      mq_rows = one_of MSSQL_ROW_OPTIONS (Number_opt (ms_rows search)) DEFAULT_MSSQL_ROWS\<rparr>"

definition encodeMSSQL :: "MSSQLQuery \<Rightarrow> MSSQLSearch" where
  "encodeMSSQL q =
     \<lparr>ms_inst = nonempty (trim (mq_instance q)),
      ms_rows = (if mq_rows q = DEFAULT_MSSQL_ROWS then None else Some (show_nat (mq_rows q)))\<rparr>"

definition mssqlRangePatch :: "string \<Rightarrow> string \<Rightarrow> (string \<times> string) option" where
  "mssqlRangePatch = default_range_patch DEFAULT_MSSQL_RANGE"

definition mssqlFilter :: "string \<Rightarrow> FilterExpr option" where
  "mssqlFilter inst = value_filter MSSQL_INSTANCE_FIELD inst"

definition mssqlExplorerSearch :: "string \<Rightarrow> TimeRange \<Rightarrow> ExplorerSearch" where
  "mssqlExplorerSearch inst r = value_search MSSQL_INSTANCE_FIELD inst r"

record MSSQLTile = DirectoryTile +
  ti_missing :: bool

record MSSQLOverview =
  mo_sign_in_failures :: int
  mo_sign_ins :: int
  mo_failed_accounts :: int
  mo_failure_sources :: int
  mo_deadlocks :: int
  mo_severe_errors :: int
  mo_read_retries :: int
  mo_backups :: int
  mo_instances :: int
  mo_hosts :: int

definition mtile :: "string \<Rightarrow> string \<Rightarrow> int \<Rightarrow> string \<Rightarrow> TileTone \<Rightarrow> bool \<Rightarrow> MSSQLTile" where
  "mtile n l v note tone miss =
     \<lparr>ti_name = n, ti_label = l, ti_value = v, ti_note = note, ti_tone = tone, ti_missing = miss\<rparr>"

definition mssqlTiles :: "MSSQLOverview option \<Rightarrow> MSSQLTile list" where
  "mssqlTiles ov =
    (let f = figure ov mo_sign_in_failures; acc = figure ov mo_failed_accounts; src = figure ov mo_failure_sources;
         si = figure ov mo_sign_ins; dl = figure ov mo_deadlocks; se = figure ov mo_severe_errors;
         rr = figure ov mo_read_retries; bk = figure ov mo_backups; hs = figure ov mo_hosts in
    [mtile ''sign_in_failures'' ''Failed sign-ins'' f
       (if f \<noteq> 0 then
          ''For '' @ formatExact (Some acc) @ '' '' @ plural acc ''account'' ''accounts'' @ '', from '' @
          formatExact (Some src) @ '' '' @ plural src ''address'' ''addresses'' @ ''.''
        else ''Nothing was refused in this window.'')
       (if f \<noteq> 0 then Tile_warn else Tile_neutral) False,
     mtile ''sign_ins'' ''Successful sign-ins'' si
       (if si \<noteq> 0 then ''Sign-ins that succeeded, which only an instance with login auditing set to both records at all.''
        else ''Not recorded. SQL Server logs only failures until auditing is set to both '' @ EMDASH @ '' the SQL Server part'' @
          RSQUO @ ''s setup guide has the statement.'')
       Tile_neutral (si = 0),
     mtile ''deadlocks'' ''Deadlocks'' dl
       (if dl \<noteq> 0 then ''Two statements each waiting for the other; SQL Server killed one of them.''
        else ''None reported '' @ EMDASH @
          '' which is not proof there were none. 1205 reaches the event log only with deadlock tracing on.'')
       (if dl \<noteq> 0 then Tile_alert else Tile_neutral) False,
     mtile ''severe_errors'' ''Severe errors'' se
       (if se \<noteq> 0 then ''A refused I/O, a damaged page, a full log, no memory, a stalled scheduler. See the table below.''
        else ''No I/O failure, damaged page, full log or stalled scheduler in this window.'')
       (if se \<noteq> 0 then Tile_alert else Tile_neutral) False,
     mtile ''read_retries'' ''Reads retried'' rr
       (if rr \<noteq> 0 then ''Reads that succeeded only on a retry. Nothing was lost '' @ EMDASH @
          '' but this is the warning that precedes a damaged page.''
        else ''Every read succeeded first time.'')
       (if rr \<noteq> 0 then Tile_warn else Tile_neutral) False,
     mtile ''backups'' ''Backups'' bk
       (if bk \<noteq> 0 then ''Database backups that finished. A transaction-log backup is a different event and is not counted here.''
        else ''None finished in this window, which a window shorter than the gap between backups explains on its own.'')
       Tile_neutral False,
     mtile ''instances'' ''Instances'' (figure ov mo_instances)
       (''Instances that sent anything at all, across '' @ formatExact (Some hs) @ '' '' @ plural hs ''server'' ''servers'' @ ''.'')
       Tile_neutral False])"

definition mssqlLineColor :: "string \<Rightarrow> string" where
  "mssqlLineColor name =
     (if name = ''sign_in_failures'' then ''var(--warning)'' else if name = ''severe_errors'' then ''var(--danger)''
      else if name = ''read_retries'' then CHART_COLORS ! 3 else if name = ''backups'' then ''var(--success)''
      else ''var(--accent)'')"

datatype MSSQLProblemKind =
  Pk_login_failure | Pk_login_success | Pk_deadlock | Pk_corruption | Pk_resource | Pk_scheduler | Pk_backup | Pk_unknown

definition problemTone :: "MSSQLProblemKind \<Rightarrow> TileTone" where
  "problemTone k =
     (case k of Pk_corruption \<Rightarrow> Tile_alert | Pk_resource \<Rightarrow> Tile_alert | Pk_scheduler \<Rightarrow> Tile_alert
      | Pk_deadlock \<Rightarrow> Tile_warn | Pk_login_failure \<Rightarrow> Tile_warn | _ \<Rightarrow> Tile_neutral)"

definition problemKindLabel :: "MSSQLProblemKind \<Rightarrow> string" where
  "problemKindLabel k =
     (case k of Pk_login_failure \<Rightarrow> ''sign-in'' | Pk_login_success \<Rightarrow> ''sign-in'' | Pk_corruption \<Rightarrow> ''data''
      | Pk_resource \<Rightarrow> ''resource'' | Pk_scheduler \<Rightarrow> ''scheduler'' | Pk_deadlock \<Rightarrow> ''deadlock'' | Pk_backup \<Rightarrow> ''backup''
      | Pk_unknown \<Rightarrow> ''other'')"

definition failedSignInSentence :: "AnalysisCount list \<Rightarrow> AnalysisCount list \<Rightarrow> int \<Rightarrow> string option" where
  "failedSignInSentence accounts sources total1 =
     (case accounts of
        [] \<Rightarrow> None
      | account # _ \<Rightarrow>
          if total1 \<le> 0 then None
          else (let n = \<lfloor>cn_count account\<rfloor>;
                    times = formatExact (Some n) @ '' time'' @ (if cn_count account = 1 then [] else ''s'');
                    where1 = (case sources of [from] \<Rightarrow> '' from '' @ countLabel from | _ \<Rightarrow> []);
                    rest = (if cn_count account < of_int total1 then
                              '', of '' @ formatExact (Some total1) @ '' failed sign-ins in this window''
                            else if length sources > 1 then '', from '' @ formatExact (Some (int (length sources))) @ '' addresses''
                            else [])
                in Some (countLabel account @ '' was refused '' @ times @ where1 @ rest)))"

record MSSQLProblem =
  mp_event :: string
  mp_what :: string
  mp_kind :: MSSQLProblemKind
  mp_instance :: "string option"
  mp_host :: "string option"

definition problemWhere :: "MSSQLProblem \<Rightarrow> string" where
  "problemWhere p =
     (let w = join '' on '' (filter (\<lambda>s. s \<noteq> []) [orElse (mp_instance p) [], orElse (mp_host p) []]);
          said = mp_event p @ '' '' @ EMDASH @ '' '' @ mp_what p
      in if w \<noteq> [] then said @ '', '' @ w else said)"

definition mssqlIsEmpty :: "MSSQLOverview option \<Rightarrow> bool" where
  "mssqlIsEmpty ov =
     (case ov of
        None \<Rightarrow> True
      | Some v \<Rightarrow> mo_instances v = 0 \<and> mo_sign_in_failures v = 0 \<and> mo_sign_ins v = 0 \<and> mo_deadlocks v = 0 \<and>
          mo_severe_errors v = 0 \<and> mo_read_retries v = 0 \<and> mo_backups v = 0)"

definition mssqlEmptyHint :: "string \<Rightarrow> string" where
  "mssqlEmptyHint part =
     ''A source that has just been added has nothing for a few minutes. After that, check that the '' @ LDQUO @ part @ RDQUO @
     '' part is '' @
     ''switched on for the source carrying these logs, and that NXLog is reading the Application channel on the '' @
     ''database server '' @ EMDASH @ '' SQL Server writes there, not to a file of its own. Successful sign-ins need switching on '' @
     ''inside SQL Server as well; the template'' @ RSQUO @ ''s setup guide has the statement.''"

definition topMessagesCaveat :: string where
  "topMessagesCaveat =
     ''Read this as '' @ LDQUO @ ''the text that repeated'' @ RDQUO @
     '', not as what went wrong most: SQL Server writes the database, file and '' @
     ''page into the sentence, so two errors about one broken file count as two different messages while a hundred '' @
     ''identical ones count as one. '' @ LDQUO @ ''What went wrong most'' @ RDQUO @ '' is the honest ranking.''"

text \<open>The figures handed to the assistant: the sign-in count, or the sentence that replaces a zero.\<close>

definition NOT_RECORDED :: string where
  "NOT_RECORDED =
     ''not recorded: successful sign-ins are not being collected on this instance. This does not mean zero.''"

definition mssqlFigures :: "MSSQLOverview \<Rightarrow> (string + int) \<times> MSSQLOverview" where
  "mssqlFigures ov = (if mo_sign_ins ov \<noteq> 0 then Inr (mo_sign_ins ov) else Inl NOT_RECORDED, ov)"

section \<open>IIS\<close>

definition IIS_URL_FIELD :: string where
  "IIS_URL_FIELD = ''iis.uri''"

definition IIS_ROW_OPTIONS :: "nat list" where
  "IIS_ROW_OPTIONS = [25, 50, 100]"

definition DEFAULT_IIS_ROWS :: nat where
  "DEFAULT_IIS_ROWS = 50"

definition IIS_SLOW_OPTIONS :: "nat list" where
  "IIS_SLOW_OPTIONS = [250, 500, 1000, 3000, 10000]"

definition DEFAULT_IIS_SLOW_MILLIS :: nat where
  "DEFAULT_IIS_SLOW_MILLIS = 1000"

definition DEFAULT_IIS_RANGE :: "string \<times> string" where
  "DEFAULT_IIS_RANGE = (''now-6h'', ''now'')"

record IISQuery =
  iq_url :: string
  iq_rows :: nat
  iq_slowMillis :: nat

record IISSearch =
  is_uri :: "string option"
  is_rows :: "string option"
  is_slow :: "string option"

definition decodeIIS :: "IISSearch \<Rightarrow> IISQuery" where
  "decodeIIS search =
     \<lparr>iq_url = trim (orElse (is_uri search) []),
      iq_rows = one_of IIS_ROW_OPTIONS (Number_opt (is_rows search)) DEFAULT_IIS_ROWS,
      iq_slowMillis = one_of IIS_SLOW_OPTIONS (Number_opt (is_slow search)) DEFAULT_IIS_SLOW_MILLIS\<rparr>"

definition encodeIIS :: "IISQuery \<Rightarrow> IISSearch" where
  "encodeIIS q =
     \<lparr>is_uri = nonempty (trim (iq_url q)),
      is_rows = (if iq_rows q = DEFAULT_IIS_ROWS then None else Some (show_nat (iq_rows q))),
      is_slow = (if iq_slowMillis q = DEFAULT_IIS_SLOW_MILLIS then None else Some (show_nat (iq_slowMillis q)))\<rparr>"

definition iisRangePatch :: "string \<Rightarrow> string \<Rightarrow> (string \<times> string) option" where
  "iisRangePatch = default_range_patch DEFAULT_IIS_RANGE"

definition iisFilter :: "string \<Rightarrow> FilterExpr option" where
  "iisFilter url = value_filter IIS_URL_FIELD url"

definition iisExplorerSearch :: "string \<Rightarrow> TimeRange \<Rightarrow> ExplorerSearch" where
  "iisExplorerSearch url r = value_search IIS_URL_FIELD url r"

type_synonym IISTile = DirectoryTile

record IISOverview =
  io_requests :: int
  io_informational :: int
  io_succeeded :: int
  io_redirected :: int
  io_client_errors :: int
  io_server_errors :: int
  io_auth_failures :: int
  io_slow_requests :: int
  io_slow_threshold_millis :: int
  io_clients :: int
  io_urls :: int
  io_servers :: int

definition iis_share :: "IISOverview option \<Rightarrow> int \<Rightarrow> string" where
  "iis_share ov n =
     (if figure ov io_requests \<noteq> 0 then
        '' '' @ EMDASH @ '' '' @ formatPercent (of_int n / of_int (figure ov io_requests)) @ '' of requests.''
      else [])"

definition iis_unclassified :: "IISOverview option \<Rightarrow> int" where
  "iis_unclassified ov =
     figure ov (\<lambda>v. io_requests v - (io_informational v + io_succeeded v + io_redirected v + io_client_errors v + io_server_errors v))"

definition iisTiles :: "IISOverview option \<Rightarrow> IISTile list" where
  "iisTiles ov =
    (let n = figure ov; reqs = n io_requests; un = iis_unclassified ov in
    [tile ''requests'' ''Requests'' reqs
       (if reqs \<noteq> 0 then
          ''From '' @ formatExact (Some (n io_clients)) @ '' '' @ plural (n io_clients) ''address'' ''addresses'' @ '' across '' @
          formatExact (Some (n io_urls)) @ '' '' @ plural (n io_urls) ''path'' ''paths'' @ '' on '' @
          formatExact (Some (n io_servers)) @ '' '' @ plural (n io_servers) ''server'' ''servers'' @ ''.'' @
          (if un > 0 then '' '' @ formatExact (Some un) @ '' had no readable status, so the classes below do not add up to this.'' else [])
        else ''Nothing arrived in this window.'')
       Tile_neutral,
     tile ''succeeded'' ''Succeeded'' (n io_succeeded)
       (if reqs \<noteq> 0 then
          ''2xx'' @ iis_share ov (n io_succeeded) @
          (if n io_redirected \<noteq> 0 then '' A further '' @ formatExact (Some (n io_redirected)) @ '' were redirected.'' else [])
        else ''Nothing to count yet.'')
       Tile_neutral,
     tile ''client_errors'' ''Client errors'' (n io_client_errors)
       (if n io_client_errors \<noteq> 0 then ''4xx: wrong paths and refused requests'' @ iis_share ov (n io_client_errors)
        else ''No 4xx in this window, which on anything reachable from the internet is unusual rather than good.'')
       (if n io_client_errors \<noteq> 0 then Tile_warn else Tile_neutral),
     tile ''server_errors'' ''Server errors'' (n io_server_errors)
       (if n io_server_errors \<noteq> 0 then ''5xx: the site'' @ RSQUO @ ''s own failures'' @ iis_share ov (n io_server_errors)
        else ''No 5xx in this window, so nothing failed inside the site.'')
       (if n io_server_errors \<noteq> 0 then Tile_alert else Tile_neutral),
     tile ''auth_failures'' ''Unauthorized'' (n io_auth_failures)
       (if n io_auth_failures \<noteq> 0 then
          ''401s, which are also counted in the client errors. These are refusals, not wrong paths.''
        else ''Nothing was refused for want of credentials.'')
       (if n io_auth_failures \<noteq> 0 then Tile_warn else Tile_neutral),
     tile ''slow_requests'' ''Slow requests'' (n io_slow_requests)
       (if ov \<noteq> None then
          ''Requests that took '' @ formatExact (Some (n io_slow_threshold_millis)) @ '' ms or more'' @
          (if reqs \<noteq> 0 then iis_share ov (n io_slow_requests) else ''.'')
        else ''Nothing to count yet.'')
       (if n io_slow_requests \<noteq> 0 then Tile_warn else Tile_neutral)])"

definition iisLineColor :: "string \<Rightarrow> string" where
  "iisLineColor name =
     (if name = ''5xx'' then ''var(--danger)'' else if name = ''4xx'' then ''var(--warning)''
      else if name = ''3xx'' then ''var(--fg-subtle)'' else if name = ''2xx'' then ''var(--success)'' else ''var(--accent)'')"

definition IIS_LINES_ADD_UP :: bool where
  "IIS_LINES_ADD_UP = False"

definition formatMillis :: "rat option \<Rightarrow> string" where
  "formatMillis ms = (case ms of None \<Rightarrow> EMDASH | Some m \<Rightarrow> formatDuration (Some (m / 1000)))"

definition iisHeadline :: "IISOverview option \<Rightarrow> AnalysisCount list \<Rightarrow> string option" where
  "iisHeadline ov serverErrorsByUrl =
     (let reqs = figure ov io_requests; n = figure ov io_server_errors;
          where1 = (case serverErrorsByUrl of worst # _ \<Rightarrow> '' Most of them on '' @ countLabel worst @ ''.'' | [] \<Rightarrow> [])
      in if reqs = 0 \<or> n \<le> 0 then None
         else Some (formatExact (Some n) @ '' request'' @ (if n = 1 then [] else ''s'') @ '' failed inside the site '' @ EMDASH @ '' '' @
                formatPercent (of_int n / of_int reqs) @ '' of the window.'' @ where1))"

definition slowUrlsCaveat :: "int \<Rightarrow> string" where
  "slowUrlsCaveat thresholdMillis =
     ''Ranked by how many requests took '' @ formatExact (Some thresholdMillis) @ '' ms or more '' @ EMDASH @
     '' not by how slow they were. '' @
     ''A page called once that took a minute will not appear above a page called ten thousand times of which fifty '' @
     ''were slow. No average or worst time exists for a URL: the stored logs cannot be summed.''"

record IISRequestRow =
  ir_status :: string
  ir_substatus :: "string option"
  ir_method :: "string option"
  ir_uri :: "string option"
  ir_query :: "string option"
  ir_client_ip :: "string option"
  ir_time_taken_millis :: "rat option"

definition requestSentence :: "IISRequestRow \<Rightarrow> string" where
  "requestSentence row =
     (let uri = orElse (ir_uri row) [];
          both = join '' '' (filter (\<lambda>s. s \<noteq> []) [orElse (ir_method row) [], uri]);
          what = (if both \<noteq> [] then both else if uri \<noteq> [] then uri else ''(no path recorded)'');
          took = (case ir_time_taken_millis row of None \<Rightarrow> [] | Some m \<Rightarrow> '', took '' @ formatMillis (Some m));
          sub = orElse (ir_substatus row) []; ip = orElse (ir_client_ip row) []
      in ir_status row @ (if sub \<noteq> [] then ''.'' @ sub else []) @ '' on '' @ what @
         (if ip \<noteq> [] then '' from '' @ ip else []) @ took)"

definition requestPath :: "IISRequestRow \<Rightarrow> string" where
  "requestPath row =
     (let uri = orElse (ir_uri row) []; q = orElse (ir_query row) [] in
      if q \<noteq> [] \<and> q \<noteq> ''-'' then uri @ ''?'' @ q else uri)"

definition iisIsEmpty :: "IISOverview option \<Rightarrow> bool" where
  "iisIsEmpty ov = (case ov of None \<Rightarrow> True | Some v \<Rightarrow> io_requests v = 0)"

definition iisEmptyHint :: "string \<Rightarrow> string" where
  "iisEmptyHint part =
     ''A source that has just been added has nothing for a few minutes. After that, check that the '' @ LDQUO @ part @ RDQUO @
     '' part is '' @
     ''switched on for the source carrying these logs, that IIS is writing W3C log files at all, and that they are '' @
     ''under the path NXLog is reading '' @ EMDASH @ '' this is the one part that reads files from disk rather than the event log. '' @
     ''The log line is read by position, so the fields also have to be the ones the template'' @ RSQUO @ ''s setup guide sets.''"

section \<open>Which analyses are offered\<close>

datatype AnalysisId = Dns_services | Directory | Mssql | Iis

definition analysis_id :: "AnalysisId \<Rightarrow> string" where
  "analysis_id a = (case a of Dns_services \<Rightarrow> ''dns-services'' | Directory \<Rightarrow> ''directory'' | Mssql \<Rightarrow> ''mssql'' | Iis \<Rightarrow> ''iis'')"

record AnalysisMeta =
  am_view :: string
  am_label :: string
  am_about :: string
  am_template :: string
  am_part :: "string option"

definition ANALYSES :: "AnalysisId \<Rightarrow> AnalysisMeta" where
  "ANALYSES a =
     (case a of
        Dns_services \<Rightarrow>
          \<lparr>am_view = ''trends'', am_label = ''Service trends'', am_about = ''how many clients reached each online service over time'',
           am_template = ''DNS queries (dnsdist / DNScollector)'', am_part = None\<rparr>
      | Directory \<Rightarrow>
          \<lparr>am_view = ''directory'', am_label = ''Active Directory'',
           am_about = ''who signed in, who could not, whose account locked, and what changed'',
           am_template = ''Microsoft Windows Server'', am_part = Some ''Active Directory''\<rparr>
      | Mssql \<Rightarrow>
          \<lparr>am_view = ''mssql'', am_label = ''SQL Server'',
           am_about = ''which accounts failed to sign in and from where, plus deadlocks, backups and the errors before an outage'',
           am_template = ''Microsoft Windows Server'', am_part = Some ''SQL Server''\<rparr>
      | Iis \<Rightarrow>
          \<lparr>am_view = ''iis'', am_label = ''IIS'',
           am_about = ''which requests the web server answered, what it answered with, and which URLs are slow'',
           am_template = ''Microsoft Windows Server'', am_part = Some ''IIS (web requests)''\<rparr>)"

datatype AnalysisAvailability = Available | Unavailable | Unknown

record TemplatesResponse =
  tpr_templates :: "SourceTemplate list"
  tpr_analyses :: "string list option"

definition analysisAvailability :: "AnalysisId \<Rightarrow> TemplatesResponse option \<Rightarrow> AnalysisAvailability" where
  "analysisAvailability a templates =
     (case templates of
        None \<Rightarrow> Unknown
      | Some t \<Rightarrow> if List.member (orElse (tpr_analyses t) []) (analysis_id a) then Available else Unavailable)"

definition analysisShown :: "AnalysisAvailability \<Rightarrow> bool" where
  "analysisShown av = (av \<noteq> Unavailable)"

record AnalysisSource =
  as_template :: SourceTemplate
  as_part :: "TemplatePart option"

fun analysis_source_in :: "AnalysisId \<Rightarrow> SourceTemplate list \<Rightarrow> AnalysisSource option" where
  "analysis_source_in a [] = None"
| "analysis_source_in a (t # ts) =
     (if List.member (orElse (st_analyses t) []) (analysis_id a) then Some \<lparr>as_template = t, as_part = None\<rparr>
      else case List.find (\<lambda>p. List.member (orElse (tp_analyses p) []) (analysis_id a)) (orElse (st_parts t) []) of
        Some p \<Rightarrow> Some \<lparr>as_template = t, as_part = Some p\<rparr>
      | None \<Rightarrow> analysis_source_in a ts)"

definition analysisSource :: "AnalysisId \<Rightarrow> TemplatesResponse option \<Rightarrow> AnalysisSource option" where
  "analysisSource a templates = (case templates of None \<Rightarrow> None | Some t \<Rightarrow> analysis_source_in a (tpr_templates t))"

definition templateForAnalysis :: "AnalysisId \<Rightarrow> TemplatesResponse option \<Rightarrow> SourceTemplate option" where
  "templateForAnalysis a templates = map_option as_template (analysisSource a templates)"

definition analysisGateMessage :: "AnalysisId \<Rightarrow> TemplatesResponse option \<Rightarrow> string \<times> string" where
  "analysisGateMessage a templates =
     (let meta = ANALYSES a;
          found = analysisSource a templates;
          template = (case found of Some f \<Rightarrow> st_title (as_template f) | None \<Rightarrow> am_template meta);
          part = orElse (case found of Some f \<Rightarrow> map_option tp_title (as_part f) | None \<Rightarrow> am_part meta) []
      in (''No source carries '' @ am_label meta @ '' logs yet'',
          if part \<noteq> [] then
            ''This page reads fields only the '' @ LDQUO @ part @ RDQUO @ '' part of the '' @ LDQUO @ template @ RDQUO @
            '' template produces, and shows '' @ am_about meta @
            ''. Switch that part on for a source carrying the template '' @ EMDASH @ '' or add one '' @ EMDASH @
            '' and this page fills in as its logs arrive.''
          else
            ''This page reads fields only the '' @ LDQUO @ template @ RDQUO @ '' template produces, and shows '' @ am_about meta @
            ''. Add a source with that template '' @ EMDASH @ '' or choose it on a source you already have '' @ EMDASH @
            '' and this page fills in as its logs arrive.''))"

definition analysisPartName :: "AnalysisId \<Rightarrow> TemplatesResponse option \<Rightarrow> string" where
  "analysisPartName a templates =
     (case Option.bind (analysisSource a templates) as_part of
        Some p \<Rightarrow> tp_title p
      | None \<Rightarrow> orElse (am_part (ANALYSES a)) (am_template (ANALYSES a)))"

section \<open>The contracts\<close>

lemma show_rows:
  assumes "n \<in> set options"
  shows "one_of options (Number_opt (if n = d then None else Some (show_nat n))) d = n"
  using one_of_show [OF assms] by simp

lemma default_rows:
  "DEFAULT_DIRECTORY_ROWS \<in> set DIRECTORY_ROW_OPTIONS" "DEFAULT_MSSQL_ROWS \<in> set MSSQL_ROW_OPTIONS"
  "DEFAULT_IIS_ROWS \<in> set IIS_ROW_OPTIONS" "DEFAULT_IIS_SLOW_MILLIS \<in> set IIS_SLOW_OPTIONS"
  by code_simp+

interpretation dir_url: url_codec encodeDirectory decodeDirectory
  "\<lambda>q. trimmed (dr_account q) \<and> dr_rows q \<in> set DIRECTORY_ROW_OPTIONS"
  by unfold_locales
    (simp_all add: decodeDirectory_def encodeDirectory_def show_rows trim_id one_of_mem default_rows)

interpretation sql_url: url_codec encodeMSSQL decodeMSSQL
  "\<lambda>q. trimmed (mq_instance q) \<and> mq_rows q \<in> set MSSQL_ROW_OPTIONS"
  by unfold_locales
    (simp_all add: decodeMSSQL_def encodeMSSQL_def show_rows trim_id one_of_mem default_rows)

interpretation iis_url: url_codec encodeIIS decodeIIS
  "\<lambda>q. trimmed (iq_url q) \<and> iq_rows q \<in> set IIS_ROW_OPTIONS \<and> iq_slowMillis q \<in> set IIS_SLOW_OPTIONS"
  by unfold_locales
    (simp_all add: decodeIIS_def encodeIIS_def show_rows trim_id one_of_mem default_rows)

interpretation ad_view: narrowed_view AD_USER_FIELD directoryFilter directoryExplorerSearch
  by unfold_locales (simp_all add: directoryFilter_def directoryExplorerSearch_def, code_simp+)

interpretation sql_view: narrowed_view MSSQL_INSTANCE_FIELD mssqlFilter mssqlExplorerSearch
  by unfold_locales (simp_all add: mssqlFilter_def mssqlExplorerSearch_def, code_simp+)

interpretation iis_view: narrowed_view IIS_URL_FIELD iisFilter iisExplorerSearch
  by unfold_locales (simp_all add: iisFilter_def iisExplorerSearch_def, code_simp+)

text \<open>The source of an analysis names it, in its template or in one of the template's parts.\<close>

lemma analysis_source_feeds:
  "analysis_source_in a ts = Some s \<Longrightarrow>
     as_template s \<in> set ts \<and>
     (case as_part s of
        None \<Rightarrow> List.member (orElse (st_analyses (as_template s)) []) (analysis_id a)
      | Some p \<Rightarrow> p \<in> set (orElse (st_parts (as_template s)) []) \<and> List.member (orElse (tp_analyses p) []) (analysis_id a))"
  by (induction ts) (auto split: if_splits option.splits dest: find_mem simp: find_Some_iff)

section \<open>Properties\<close>



end
