(* ===== verification/Host_Utilisation.thy ===== *)
theory Host_Utilisation
  imports Template_Analyses Api_Queries
begin

text \<open>
  How full the host is, now and over time: \<open>host.ts\<close>, \<open>host-history.ts\<close> and \<open>storage.ts\<close> of
  \<open>src/frontend/src/features/system\<close>. A sample that is \<open>null\<close> is \<open>None\<close>; \<open>parse_date\<close> stands for the
  milliseconds of a timestamp, \<open>None\<close> when it is no date. The fractions are exact.
\<close>

section \<open>The live meters\<close>

datatype HostStatus = Host_ok | Host_warn | Host_fail | Host_idle

record HostThresholds =
  memoryWarn :: rat
  diskWarn :: rat
  diskFail :: rat
  cpuFail :: rat

definition hostThresholds :: HostThresholds where
  "hostThresholds = \<lparr>memoryWarn = 9/10, diskWarn = 85/100, diskFail = 95/100, cpuFail = 95/100\<rparr>"

record HostMemory =
  used_bytes :: rat
  limit_bytes :: "rat option"

definition usedFraction :: "HostMemory \<Rightarrow> rat option" where
  "usedFraction m =
     (case limit_bytes m of
        None \<Rightarrow> None
      | Some l \<Rightarrow> if l = 0 \<or> l \<le> 0 then None else Some (used_bytes m / l))"

definition memoryStatus :: "HostMemory \<Rightarrow> HostStatus" where
  "memoryStatus m =
     (case usedFraction m of
        None \<Rightarrow> Host_idle
      | Some f \<Rightarrow> if f > memoryWarn hostThresholds then Host_warn else Host_ok)"

definition diskStatus :: "rat \<Rightarrow> HostStatus" where
  "diskStatus used_fraction =
     (if used_fraction > diskFail hostThresholds then Host_fail
      else if used_fraction > diskWarn hostThresholds then Host_warn else Host_ok)"

definition cpuStatus :: "rat option \<Rightarrow> HostStatus" where
  "cpuStatus usage_fraction =
     (case usage_fraction of
        None \<Rightarrow> Host_idle
      | Some u \<Rightarrow> if u > cpuFail hostThresholds then Host_fail else Host_ok)"

definition coresLabel :: "JsNum \<Rightarrow> string" where
  "coresLabel cores =
     (case cores of
        Num q \<Rightarrow>
          if q \<le> 0 then ''cores unknown''
          else let n = (if isInteger cores then show_int \<lfloor>q\<rfloor> else toFixed 1 q) in
               if q = 1 then ''1 core'' else n @ '' cores''
      | _ \<Rightarrow> ''cores unknown'')"

definition limitSourceLabel :: "string \<Rightarrow> string \<Rightarrow> string" where
  "limitSourceLabel source noun = (if source = ''cgroup'' then ''container '' @ noun else ''host '' @ noun)"

section \<open>The log store's disk\<close>

record StorageUsage =
  total_disk_bytes :: "rat option"
  free_disk_bytes :: "rat option"
  max_disk_bytes :: "rat option"

record StoreDisk =
  sd_used :: "rat option"
  sd_ceiling :: "rat option"
  sd_total :: "rat option"
  sd_free :: "rat option"
  sd_limited :: bool

definition storeDisk :: "StorageUsage option \<Rightarrow> StoreDisk" where
  "storeDisk u =
     (let total1 = Option.bind u total_disk_bytes;
          free1 = Option.bind u free_disk_bytes;
          max1 = Option.bind u max_disk_bytes;
          limited = (case (max1, total1) of (Some m, Some t) \<Rightarrow> m > 0 \<and> m < t | _ \<Rightarrow> False);
          ceiling1 = (if limited then max1 else total1);
          usedBytes = (case (total1, free1) of (Some t, Some f) \<Rightarrow> Some (t - f) | _ \<Rightarrow> None)
      in \<lparr>sd_used = (case (usedBytes, ceiling1) of (Some b, Some c) \<Rightarrow> if c \<noteq> 0 then Some (b / c) else None | _ \<Rightarrow> None),
          sd_ceiling = ceiling1, sd_total = total1, sd_free = free1, sd_limited = limited\<rparr>)"

definition storeDiskNote :: "StoreDisk \<Rightarrow> (rat option \<Rightarrow> string) \<Rightarrow> string" where
  "storeDiskNote d bytes =
     (if sd_ceiling d = None then []
      else if \<not> sd_limited d then bytes (sd_free d) @ '' free of '' @ bytes (sd_total d)
      else ''of the '' @ bytes (sd_ceiling d) @ '' this store may use '' @ MIDDOT @ '' '' @ bytes (sd_total d) @ '' disk'')"

section \<open>The range of the history\<close>

definition DEFAULT_HOST_RANGE :: string where "DEFAULT_HOST_RANGE = ''24h''"

definition KNOWN_RANGES :: "string list" where
  "KNOWN_RANGES = [''1h'', ''6h'', ''24h'', ''7d'', ''30d'']"

definition decodeHostRange :: "string option \<Rightarrow> string" where
  "decodeHostRange v =
     (let w = orElse (map_option trim v) [] in
      if w \<noteq> [] \<and> List.member KNOWN_RANGES w then w else DEFAULT_HOST_RANGE)"

definition encodeHostRange :: "string \<Rightarrow> string option" where
  "encodeHostRange rng = (if rng = DEFAULT_HOST_RANGE then None else Some rng)"

text \<open>\<open>/^(\\d+)([mhdw])$/\<close> of the trimmed range.\<close>

definition rangeWords :: "string \<Rightarrow> string" where
  "rangeWords rng =
     (let t = trim rng; ds = takeWhile is_digit t; u = dropWhile is_digit t;
          unit_word = (if u = ''m'' then Some ''minute'' else if u = ''h'' then Some ''hour''
                       else if u = ''d'' then Some ''day'' else if u = ''w'' then Some ''week'' else None)
      in case unit_word of
           Some w \<Rightarrow> if ds = [] then rng
                     else show_nat (read_nat ds) @ '' '' @ w @ (if read_nat ds = 1 then [] else ''s'')
         | None \<Rightarrow> rng)"

section \<open>Charts of the history\<close>

datatype HostHistoryUnit = Ratio | Bytes

record HostHistoryLine =
  hl_name :: string
  hl_label :: string
  hl_unit :: HostHistoryUnit
  hl_points :: "rat option list"

record HostHistoryResponse =
  hh_timestamps :: "string list option"
  hh_lines :: "HostHistoryLine list option"

record HostHistoryRow =
  hr_t :: "int option"
  hr_v :: "rat option"

record HostHistoryChart =
  hc_key :: string
  hc_title :: string
  hc_unit :: HostHistoryUnit
  hc_rows :: "HostHistoryRow list"
  hc_ceiling :: "rat option"
  hc_threshold :: "rat option"
  hc_thresholdFraction :: rat
  hc_peak :: "rat option"
  hc_color :: string

definition HOST_HUES :: "string list" where
  "HOST_HUES = map (\<lambda>i. CHART_COLORS ! i) [0, 1, 3, 4, 5, 6]"

definition thresholdFor :: "string \<Rightarrow> rat" where
  "thresholdFor name =
     (if name = ''cpu'' then cpuFail hostThresholds
      else if name = ''memory'' then memoryWarn hostThresholds
      else diskWarn hostThresholds)"

text \<open>The loop goes from the last bucket to the first.\<close>

definition latestValue :: "rat option list option \<Rightarrow> rat option" where
  "latestValue points =
     (case points of None \<Rightarrow> None | Some ps \<Rightarrow> Option.bind (List.find (\<lambda>p. p \<noteq> None) (rev ps)) id)"

definition ceilingNameFor :: "string \<Rightarrow> string option" where
  "ceilingNameFor name =
     (if name = ''memory'' then Some ''memory_limit''
      else if startsWith name ''disk:'' then Some (''disk_total:'' @ drop (length ''disk:'') name)
      else None)"

definition isMeasured :: "string \<Rightarrow> bool" where
  "isMeasured name \<longleftrightarrow> name = ''cpu'' \<or> name = ''memory'' \<or> startsWith name ''disk:''"

text \<open>A point that is missing at the end of a line is \<open>undefined\<close> there and \<open>null\<close> in the row.\<close>

definition point_or_null :: "rat option list \<Rightarrow> nat \<Rightarrow> rat option" where
  "point_or_null ps j = (if j < length ps then ps ! j else None)"

text \<open>\<open>new Map(...)\<close>: the last line of a name wins.\<close>

definition line_by_name :: "HostHistoryLine list \<Rightarrow> string \<Rightarrow> HostHistoryLine option" where
  "line_by_name ls = map_of (rev (map (\<lambda>l. (hl_name l, l)) ls))"

definition samples_of :: "HostHistoryRow list \<Rightarrow> rat list" where
  "samples_of rows = [v. Some v \<leftarrow> map hr_v rows]"

definition peak_of :: "rat list \<Rightarrow> rat option" where
  "peak_of vs = (case vs of [] \<Rightarrow> None | v # ws \<Rightarrow> Some (fold max ws v))"

definition hostHistoryChart :: "int option list \<Rightarrow> HostHistoryLine list \<Rightarrow> HostHistoryLine \<Rightarrow> nat \<Rightarrow> HostHistoryChart" where
  "hostHistoryChart stamps ls line i =
     (let ceiling1 = (if hl_unit line = Ratio then Some 1
                      else latestValue (map_option hl_points (Option.bind (ceilingNameFor (hl_name line)) (line_by_name ls))));
          rows = map (\<lambda>j. \<lparr>hr_t = stamps ! j, hr_v = point_or_null (hl_points line) j\<rparr>) [0..<length stamps];
          fraction = thresholdFor (hl_name line)
      in \<lparr>hc_key = hl_name line, hc_title = hl_label line, hc_unit = hl_unit line, hc_rows = rows, hc_ceiling = ceiling1,
          hc_threshold = map_option (\<lambda>c. c * fraction) ceiling1, hc_thresholdFraction = fraction,
          hc_peak = peak_of (samples_of rows), hc_color = HOST_HUES ! (i mod length HOST_HUES)\<rparr>)"

definition hostHistoryCharts :: "(string \<Rightarrow> int option) \<Rightarrow> HostHistoryResponse option \<Rightarrow> HostHistoryChart list" where
  "hostHistoryCharts parse_date res =
     (case res of
        None \<Rightarrow> []
      | Some r \<Rightarrow>
          (let ls = orElse (hh_lines r) [];
               stamps = map parse_date (orElse (hh_timestamps r) []);
               measured = filter (\<lambda>l. isMeasured (hl_name l)) ls
           in map (\<lambda>i. hostHistoryChart stamps ls (measured ! i) i) [0..<length measured]))"

definition peakLabel :: "HostHistoryUnit \<Rightarrow> rat option \<Rightarrow> rat option \<Rightarrow> string" where
  "peakLabel u peak ceiling1 =
     (case peak of
        None \<Rightarrow> ''nothing sampled in this window''
      | Some p \<Rightarrow>
          if u = Ratio then ''peak '' @ formatPercent p @ '' of the limit''
          else (case ceiling1 of
                  Some c \<Rightarrow> if c \<noteq> 0 then ''peak '' @ formatBytes (Some p) @ '' of '' @ formatBytes (Some c) @
                                '' ('' @ formatPercent (p / c) @ '')''
                             else ''peak '' @ formatBytes (Some p)
                | None \<Rightarrow> ''peak '' @ formatBytes (Some p)))"

definition thresholdRuleLabel :: "rat \<Rightarrow> string" where
  "thresholdRuleLabel fraction = ''alerts above '' @ formatPercent fraction"

definition bucketNote :: "rat \<Rightarrow> string \<Rightarrow> string" where
  "bucketNote stepSeconds bucket =
     ''The highest value in this '' @ bucket @ '' bucket, not an average.'' @
     (if stepSeconds \<ge> 3600 then '' A wide bucket hides how long it stayed there.'' else [])"

section \<open>Coverage of the window\<close>

text \<open>A time is \<open>None\<close> when there is no bucket, and \<open>Some None\<close> when its timestamp is no date.\<close>

record HostHistoryCoverage =
  cv_buckets :: nat
  cv_samples :: nat
  cv_firstAt :: "int option option"
  cv_lastAt :: "int option option"
  cv_gaps :: nat
  cv_startsBeforeHistory :: bool

definition sampled_buckets :: "HostHistoryResponse option \<Rightarrow> bool list" where
  "sampled_buckets res =
     (let ls = filter (\<lambda>l. isMeasured (hl_name l)) (orElse (Option.bind res hh_lines) []) in
      map (\<lambda>i. list_ex (\<lambda>l. point_or_null (hl_points l) i \<noteq> None) ls)
        [0..<length (orElse (Option.bind res hh_timestamps) [])])"

definition lastIndexOf :: "bool list \<Rightarrow> nat option" where
  "lastIndexOf bs = map_option (\<lambda>i. length bs - 1 - i) (find_index id (rev bs))"

definition hostHistoryCoverage :: "(string \<Rightarrow> int option) \<Rightarrow> HostHistoryResponse option \<Rightarrow> HostHistoryCoverage" where
  "hostHistoryCoverage parse_date res =
     (let stamps = orElse (Option.bind res hh_timestamps) [];
          sampled = sampled_buckets res;
          first = find_index id sampled;
          last1 = lastIndexOf sampled;
          count1 = length (filter id sampled)
      in \<lparr>cv_buckets = length stamps, cv_samples = count1,
          cv_firstAt = map_option (\<lambda>i. parse_date (stamps ! i)) first,
          cv_lastAt = map_option (\<lambda>i. parse_date (stamps ! i)) last1,
          cv_gaps = (case (first, last1) of (Some f, Some l) \<Rightarrow> l - f + 1 - count1 | _ \<Rightarrow> 0),
          cv_startsBeforeHistory = (case first of None \<Rightarrow> False | Some f \<Rightarrow> f > 0)\<rparr>)"

definition historySeconds :: "HostHistoryCoverage \<Rightarrow> rat \<Rightarrow> rat option" where
  "historySeconds c stepSeconds =
     (case (cv_firstAt c, cv_lastAt c) of
        (Some f, Some l) \<Rightarrow>
          (case (f, l) of (Some a, Some b) \<Rightarrow> Some (of_int (b - a) / 1000 + stepSeconds) | _ \<Rightarrow> None)
      | _ \<Rightarrow> Some 0)"

definition hostHistoryNotes :: "HostHistoryCoverage \<Rightarrow> rat \<Rightarrow> string list" where
  "hostHistoryNotes c stepSeconds =
     (if cv_samples c = 0 then []
      else (if cv_startsBeforeHistory c
            then [''VictoriaMetrics has '' @ formatDuration (historySeconds c stepSeconds) @
                  '' of history for this node, which is less than the window: the chart starts where the scraping did.'']
            else []) @
           (if cv_gaps c > 0
            then [show_nat (cv_gaps c) @ '' of '' @ show_nat (cv_buckets c) @
                  '' buckets carry no sample. Each line breaks there rather than dropping to zero '' @ EMDASH @
                  '' the node was stopped, or a scrape failed.'']
            else []))"

definition hostHistoryEmptyHint :: "string \<Rightarrow> string" where
  "hostHistoryEmptyHint rng =
     ''Nothing was recorded in the last '' @ rangeWords rng @
     ''. VictoriaMetrics only has what it has scraped since it started, so a node deployed recently has no history this far back '' @
     EMDASH @ '' try a shorter range.''"

record HostHistoryNotice =
  hn_title :: string
  hn_detail :: string

definition hostHistoryNotice :: "HookError \<Rightarrow> HostHistoryNotice option" where
  "hostHistoryNotice error =
     (case error of
        Other_error m \<Rightarrow> None
      | Api_error e \<Rightarrow>
          (let detail = orElse (Option.bind (ae_problem e) problem_detail) [] in
           if ae_status e = 404 \<and> ae_code e = Some ''not_configured'' then
             Some \<lparr>hn_title = ''No metrics store is configured, so there is no history to read.'',
                   hn_detail = (if detail \<noteq> [] then detail else
                     ''Point Syslogc at the VictoriaMetrics instance scraping its /metrics endpoint, then restart. '' @
                     ''The live meters above keep working either way.'')\<rparr>
           else if ae_status e = 409 \<and> ae_code e = Some ''ambiguous_metrics'' then
             Some \<lparr>hn_title = ''More than one node reports into this metrics store, so a figure here could belong to any of them.'',
                   hn_detail = (if detail \<noteq> [] then detail else
                     ''Narrow the metrics store, or scrape each node into its own.'')\<rparr>
           else None))"

section \<open>Facts\<close>

lemma HOST_HUES_length [simp]: "length HOST_HUES = 6"
  by (simp add: HOST_HUES_def)

lemma HOST_HUES_not_amber: "i < 6 \<Longrightarrow> HOST_HUES ! i \<noteq> CHART_COLORS ! 2"
  by (auto simp: HOST_HUES_def CHART_COLORS_def less_Suc_eq numeral_eq_Suc)

lemma fold_max_mem: "fold max ws v \<in> insert v (set ws)" for v :: rat
proof (induction ws arbitrary: v)
  case (Cons u us)
  then show ?case using Cons.IH [of "max u v"] by (auto simp: max_def split: if_splits)
qed simp

lemma fold_max_start: "v \<le> fold max ws v" for v :: rat
proof (induction ws arbitrary: v)
  case (Cons u us)
  have "v \<le> max u v" by simp
  then show ?case using Cons.IH [of "max u v"] by simp
qed simp

lemma fold_max_ge: "w \<in> insert v (set ws) \<Longrightarrow> w \<le> fold max ws v" for v :: rat
proof (induction ws arbitrary: v)
  case (Cons u us)
  show ?case
  proof (cases "w \<in> set us")
    case True
    then show ?thesis using Cons.IH [of "max u v"] by simp
  next
    case False
    then have "w \<le> max u v" using Cons.prems by auto
    also have "\<dots> \<le> fold max us (max u v)" by (rule fold_max_start)
    finally show ?thesis by simp
  qed
qed simp

lemma peak_of_Some: "peak_of vs = Some p \<longleftrightarrow> p \<in> set vs \<and> (\<forall>v \<in> set vs. v \<le> p)"
proof (cases vs)
  case (Cons v ws)
  let ?q = "fold max ws v"
  have mem: "?q \<in> set vs" and ge: "\<forall>u \<in> set vs. u \<le> ?q"
    using fold_max_mem [of ws v] fold_max_ge [of _ v ws] by (simp_all add: Cons)
  have "?q = p" if "p \<in> set vs" "\<forall>u \<in> set vs. u \<le> p"
    using that mem ge by (meson order_antisym)
  moreover have "peak_of vs = Some ?q" by (simp add: peak_of_def Cons)
  ultimately show ?thesis using mem ge by auto
qed (simp add: peak_of_def)

lemma peak_of_None: "peak_of vs = None \<longleftrightarrow> vs = []"
  by (simp add: peak_of_def split: list.split)

lemma set_samples_of: "v \<in> set (samples_of rows) \<longleftrightarrow> Some v \<in> hr_v ` set rows"
  by (force simp: samples_of_def split: option.splits)

lemma thresholdFor_fraction: "0 < thresholdFor name \<and> thresholdFor name < 1"
  by (simp add: thresholdFor_def hostThresholds_def)

lemma latestValue_Some:
  "latestValue (Some ps) = Some c \<longleftrightarrow> (\<exists>as bs. ps = as @ Some c # bs \<and> (\<forall>b \<in> set bs. b = None))"
proof (induction ps rule: rev_induct)
  case (snoc p ps)
  show ?case
  proof (cases p)
    case None
    have "latestValue (Some (ps @ [p])) = latestValue (Some ps)" by (simp add: latestValue_def None)
    moreover have "(\<exists>as bs. ps @ [p] = as @ Some c # bs \<and> (\<forall>b \<in> set bs. b = None)) \<longleftrightarrow>
        (\<exists>as bs. ps = as @ Some c # bs \<and> (\<forall>b \<in> set bs. b = None))" (is "?L \<longleftrightarrow> ?R")
    proof
      assume ?L
      then obtain as bs where e: "ps @ [p] = as @ Some c # bs" "\<forall>b \<in> set bs. b = None" by blast
      then show ?R by (cases bs rule: rev_cases) (auto simp: None)
    next
      assume ?R
      then obtain as bs where "ps = as @ Some c # bs" "\<forall>b \<in> set bs. b = None" by blast
      then have "ps @ [p] = as @ Some c # (bs @ [p])" "\<forall>b \<in> set (bs @ [p]). b = None" by (simp_all add: None)
      then show ?L by blast
    qed
    ultimately show ?thesis using snoc.IH by simp
  next
    case (Some v)
    have "latestValue (Some (ps @ [p])) = Some v" by (simp add: latestValue_def Some)
    moreover have "(\<exists>as bs. ps @ [p] = as @ Some c # bs \<and> (\<forall>b \<in> set bs. b = None)) \<longleftrightarrow> v = c"
    proof
      assume "\<exists>as bs. ps @ [p] = as @ Some c # bs \<and> (\<forall>b \<in> set bs. b = None)"
      then obtain as bs where e: "ps @ [p] = as @ Some c # bs" "\<forall>b \<in> set bs. b = None" by blast
      then show "v = c" by (cases bs rule: rev_cases) (auto simp: Some)
    next
      assume "v = c"
      then show "\<exists>as bs. ps @ [p] = as @ Some c # bs \<and> (\<forall>b \<in> set bs. b = None)" by (force simp: Some)
    qed
    ultimately show ?thesis by simp
  qed
qed (simp add: latestValue_def)

lemma hostHistoryCharts_nth:
  assumes "charts = hostHistoryCharts parse_date (Some r)" and "ls = orElse (hh_lines r) []"
    and "measured = filter (\<lambda>l. isMeasured (hl_name l)) ls"
  shows "length charts = length measured"
    and "i < length charts \<Longrightarrow>
      charts ! i = hostHistoryChart (map parse_date (orElse (hh_timestamps r) [])) ls (measured ! i) i"
  using assms by (simp_all add: hostHistoryCharts_def Let_def)

lemma hostHistoryChart_rows:
  "length (hc_rows (hostHistoryChart ts ls line i)) = length ts"
  "j < length ts \<Longrightarrow> hc_rows (hostHistoryChart ts ls line i) ! j = \<lparr>hr_t = ts ! j, hr_v = point_or_null (hl_points line) j\<rparr>"
  by (simp_all add: hostHistoryChart_def Let_def)

text \<open>The range survives its way through the URL.\<close>

lemma decodeHostRange_known: "decodeHostRange v \<in> set KNOWN_RANGES"
  by (simp add: decodeHostRange_def DEFAULT_HOST_RANGE_def KNOWN_RANGES_def Let_def)

lemma known_ranges_roundtrip: "list_all (\<lambda>r. decodeHostRange (encodeHostRange r) = r) KNOWN_RANGES"
  by code_simp

lemma host_range_roundtrip: "decodeHostRange (encodeHostRange (decodeHostRange v)) = decodeHostRange v"
  using known_ranges_roundtrip decodeHostRange_known [of v] by (simp add: list_all_iff)

text \<open>The store's fullness is measured against what it may use: a limit can only raise it.\<close>

lemma storeDisk_limited:
  assumes "sd_limited d" and "d = storeDisk u" and "sd_used d = Some f" and "sd_total d = Some t" and "sd_free d = Some r" and "r \<le> t"
  shows "(t - r) / t \<le> f"
proof -
  obtain m where m: "0 < m" "m < t" "f = (t - r) / m"
    using assms by (auto simp: storeDisk_def Let_def split: option.splits if_splits)
  then show ?thesis using assms(6) by (simp add: frac_le)
qed

lemma lastIndexOf_Some:
  assumes "lastIndexOf bs = Some l"
  shows "l < length bs" and "bs ! l" and "\<And>j. l < j \<Longrightarrow> j < length bs \<Longrightarrow> \<not> bs ! j"
proof -
  from assms obtain i where i: "find_index id (rev bs) = Some i" and l: "l = length bs - 1 - i"
    by (auto simp: lastIndexOf_def)
  have len: "i < length bs" and at_i: "rev bs ! i" and before: "\<And>j. j < i \<Longrightarrow> \<not> rev bs ! j"
    using find_index_Some [OF i] by simp_all
  show "l < length bs" and "bs ! l"
    using len at_i by (simp_all add: l rev_nth)
  show "\<not> bs ! j" if "l < j" "j < length bs" for j
    using before [of "length bs - 1 - j"] that by (simp add: l rev_nth)
qed

lemma lastIndexOf_None: "lastIndexOf bs = None \<longleftrightarrow> True \<notin> set bs"
  by (auto simp: lastIndexOf_def find_index_None)

text \<open>A gap is an unsampled bucket between two sampled ones.\<close>

definition is_gap :: "bool list \<Rightarrow> nat \<Rightarrow> bool" where
  "is_gap bs j \<longleftrightarrow> \<not> bs ! j \<and> True \<in> set (take j bs) \<and> True \<in> set (drop j bs)"

lemma is_gap_iff: "is_gap bs j \<longleftrightarrow> \<not> bs ! j \<and> (\<exists>i < j. i < length bs \<and> bs ! i) \<and> (\<exists>k. j \<le> k \<and> k < length bs \<and> bs ! k)"
proof -
  have "True \<in> set (take j bs) \<longleftrightarrow> (\<exists>i < j. i < length bs \<and> bs ! i)"
    by (auto simp: in_set_conv_nth)
  moreover have "True \<in> set (drop j bs) \<longleftrightarrow> (\<exists>k. j \<le> k \<and> k < length bs \<and> bs ! k)"
  proof
    assume "True \<in> set (drop j bs)"
    then obtain i where "i < length bs - j" "bs ! (j + i)" by (auto simp: in_set_conv_nth)
    then show "\<exists>k. j \<le> k \<and> k < length bs \<and> bs ! k" by (intro exI [of _ "j + i"]) auto
  next
    assume "\<exists>k. j \<le> k \<and> k < length bs \<and> bs ! k"
    then obtain k where "j \<le> k" "k < length bs" "bs ! k" by blast
    then have "drop j bs ! (k - j)" "k - j < length (drop j bs)" by simp_all
    then show "True \<in> set (drop j bs)" by (metis nth_mem)
  qed
  ultimately show ?thesis by (simp add: is_gap_def)
qed

lemma count_upt: "length (filter P [0..<n]) = card {j. j < n \<and> P j}"
  by (simp add: length_filter_conv_card cong: conj_cong)

lemma gaps_between:
  assumes f: "find_index id bs = Some f" and l: "lastIndexOf bs = Some l"
  shows "l - f + 1 - length (filter id bs) = length (filter (is_gap bs) [0..<length bs])"
proof -
  let ?S = "{j. j < length bs \<and> bs ! j}" and ?G = "{j. j < length bs \<and> is_gap bs j}"
  have f': "f < length bs" "bs ! f" "\<And>j. j < f \<Longrightarrow> \<not> bs ! j" using find_index_Some [OF f] by simp_all
  note l' = lastIndexOf_Some [OF l]
  have "f \<le> l" using f'(1,2) l'(3) [of f] by (meson not_le)
  have "{f..l} = ?S \<union> ?G"
  proof (intro equalityI subsetI)
    fix j assume "j \<in> {f..l}"
    then have "j < length bs" using l'(1) by simp
    show "j \<in> ?S \<union> ?G"
    proof (cases "bs ! j")
      case False
      with f'(2) l'(2) \<open>j \<in> {f..l}\<close> have "f < j" "j < l" by (auto simp: less_le)
      with False f' l' \<open>j < length bs\<close> show ?thesis by (auto simp: is_gap_iff intro: exI [of _ l])
    qed (simp add: \<open>j < length bs\<close>)
  next
    fix j assume "j \<in> ?S \<union> ?G"
    then obtain i k where "i \<le> j" "i < length bs" "bs ! i" "j \<le> k" "k < length bs" "bs ! k"
      by (auto simp: is_gap_iff intro: less_imp_le)
    moreover from this have "f \<le> i" "k \<le> l" using f'(3) [of i] l'(3) [of k] by (meson not_le)+
    ultimately show "j \<in> {f..l}" by simp
  qed
  moreover have "card (?S \<union> ?G) = card ?S + card ?G"
    by (rule card_Un_disjoint) (auto simp: is_gap_def)
  ultimately have "l - f + 1 = card ?S + card ?G"
    using \<open>f \<le> l\<close> card_atLeastAtMost [of f l] by simp
  then show ?thesis by (simp add: count_upt length_filter_conv_card [of id bs])
qed

lemma no_samples_no_gap: "True \<notin> set bs \<Longrightarrow> filter (is_gap bs) [0..<length bs] = []"
  by (auto simp: is_gap_def filter_empty_conv dest: in_set_takeD)

section \<open>The meters and the charts agree\<close>

text \<open>A live meter leaves green exactly where the dashed rule of its chart is crossed.\<close>

lemma meters_agree:
  "0 < l \<Longrightarrow> memoryStatus \<lparr>used_bytes = u, limit_bytes = Some l\<rparr> \<noteq> Host_ok \<longleftrightarrow> u > l * thresholdFor ''memory''"
  "startsWith name ''disk:'' \<Longrightarrow> diskStatus f \<noteq> Host_ok \<longleftrightarrow> f > thresholdFor name"
  "cpuStatus (Some u) \<noteq> Host_ok \<longleftrightarrow> u > thresholdFor ''cpu''"
proof -
  assume "startsWith name ''disk:''"
  then have "name \<noteq> ''cpu''" "name \<noteq> ''memory''" by (auto simp: startsWith_iff)
  then show "diskStatus f \<noteq> Host_ok \<longleftrightarrow> f > thresholdFor name"
    by (simp add: diskStatus_def thresholdFor_def hostThresholds_def)
qed (simp_all add: memoryStatus_def usedFraction_def cpuStatus_def thresholdFor_def hostThresholds_def field_simps)

text \<open>What the coverage counts is what the charts show.\<close>

lemma sampled_buckets_charts:
  assumes "charts = hostHistoryCharts parse_date (Some r)" and "j < length (orElse (hh_timestamps r) [])"
  shows "sampled_buckets (Some r) ! j \<longleftrightarrow> (\<exists>ch \<in> set charts. hr_v (hc_rows ch ! j) \<noteq> None)"
proof -
  let ?ls = "orElse (hh_lines r) []"
  let ?ms = "filter (\<lambda>l. isMeasured (hl_name l)) ?ls"
  note nth = hostHistoryCharts_nth [OF assms(1) refl refl]
  have v: "hr_v (hc_rows (charts ! i) ! j) = point_or_null (hl_points (?ms ! i)) j" if "i < length ?ms" for i
    using that assms(2) by (simp add: nth hostHistoryChart_rows)
  have "sampled_buckets (Some r) ! j \<longleftrightarrow> (\<exists>l \<in> set ?ms. point_or_null (hl_points l) j \<noteq> None)"
    using assms(2) by (simp add: sampled_buckets_def Let_def list_ex_iff)
  also have "\<dots> \<longleftrightarrow> (\<exists>i < length ?ms. point_or_null (hl_points (?ms ! i)) j \<noteq> None)"
    by (metis in_set_conv_nth)
  also have "\<dots> \<longleftrightarrow> (\<exists>i < length charts. hr_v (hc_rows (charts ! i) ! j) \<noteq> None)"
    using v nth(1) by auto
  also have "\<dots> \<longleftrightarrow> (\<exists>ch \<in> set charts. hr_v (hc_rows ch ! j) \<noteq> None)"
    by (metis in_set_conv_nth)
  finally show ?thesis .
qed

lemma length_sampled_buckets: "length (sampled_buckets (Some r)) = length (orElse (hh_timestamps r) [])"
  by (simp add: sampled_buckets_def Let_def)

lemma coverage_gaps:
  "cv_gaps (hostHistoryCoverage parse_date res) =
     length (filter (is_gap (sampled_buckets res)) [0..<length (sampled_buckets res)])"
proof (cases "True \<in> set (sampled_buckets res)")
  case True
  then obtain f l where "find_index id (sampled_buckets res) = Some f" "lastIndexOf (sampled_buckets res) = Some l"
    using find_index_None [of id "sampled_buckets res"] lastIndexOf_None [of "sampled_buckets res"] by fastforce
  then show ?thesis using gaps_between by (simp add: hostHistoryCoverage_def Let_def)
next
  case False
  then have "find_index id (sampled_buckets res) = None" using find_index_None [of id "sampled_buckets res"] by auto
  then show ?thesis using no_samples_no_gap [OF False] by (simp add: hostHistoryCoverage_def Let_def)
qed

lemma peak_of_rows:
  "case peak_of (samples_of rows) of
     None \<Rightarrow> \<forall>row \<in> set rows. hr_v row = None
   | Some p \<Rightarrow> Some p \<in> hr_v ` set rows \<and> (\<forall>v. Some v \<in> hr_v ` set rows \<longrightarrow> v \<le> p)"
proof (cases "peak_of (samples_of rows)")
  case None
  then have "Some v \<notin> hr_v ` set rows" for v
    using set_samples_of [of v rows] by (simp add: peak_of_None)
  then have "hr_v row = None" if "row \<in> set rows" for row
    using that by (cases "hr_v row") (metis image_eqI)+
  with None show ?thesis by simp
next
  case (Some p)
  then have "p \<in> set (samples_of rows) \<and> (\<forall>v \<in> set (samples_of rows). v \<le> p)" by (rule peak_of_Some [THEN iffD1])
  then show ?thesis using set_samples_of [of _ rows] by (auto simp: Some)
qed

lemma chart_faithful:
  assumes "charts = hostHistoryCharts parse_date (Some r)" and "ch \<in> set charts"
  shows "\<exists>line \<in> set (orElse (hh_lines r) []). hl_name line = hc_key ch \<and>
      map hr_v (hc_rows ch) = map (point_or_null (hl_points line)) [0..<length (orElse (hh_timestamps r) [])]"
    and "case hc_peak ch of
      None \<Rightarrow> \<forall>row \<in> set (hc_rows ch). hr_v row = None
    | Some p \<Rightarrow> Some p \<in> hr_v ` set (hc_rows ch) \<and> (\<forall>v. Some v \<in> hr_v ` set (hc_rows ch) \<longrightarrow> v \<le> p)"
    and "hc_color ch \<noteq> CHART_COLORS ! 2"
    and "hc_threshold ch = map_option (\<lambda>c. c * hc_thresholdFraction ch) (hc_ceiling ch)"
proof -
  let ?ls = "orElse (hh_lines r) []"
  let ?ms = "filter (\<lambda>l. isMeasured (hl_name l)) ?ls"
  let ?ts = "map parse_date (orElse (hh_timestamps r) [])"
  obtain i where i: "i < length ?ms" and ch: "ch = hostHistoryChart ?ts ?ls (?ms ! i) i"
    using assms hostHistoryCharts_nth [OF assms(1) refl refl] by (metis in_set_conv_nth)
  have "?ms ! i \<in> set ?ls" using nth_mem [OF i] by auto
  then show "\<exists>line \<in> set ?ls. hl_name line = hc_key ch \<and>
      map hr_v (hc_rows ch) = map (point_or_null (hl_points line)) [0..<length (orElse (hh_timestamps r) [])]"
    by (rule bexI [rotated]) (simp add: ch hostHistoryChart_def Let_def comp_def)
  have "hc_peak ch = peak_of (samples_of (hc_rows ch))"
    by (simp add: ch hostHistoryChart_def Let_def)
  then show "case hc_peak ch of
      None \<Rightarrow> \<forall>row \<in> set (hc_rows ch). hr_v row = None
    | Some p \<Rightarrow> Some p \<in> hr_v ` set (hc_rows ch) \<and> (\<forall>v. Some v \<in> hr_v ` set (hc_rows ch) \<longrightarrow> v \<le> p)"
    using peak_of_rows [of "hc_rows ch"] by simp
  show "hc_color ch \<noteq> CHART_COLORS ! 2"
    using HOST_HUES_not_amber [of "i mod 6"] by (simp add: ch hostHistoryChart_def Let_def)
  show "hc_threshold ch = map_option (\<lambda>c. c * hc_thresholdFraction ch) (hc_ceiling ch)"
    by (simp add: ch hostHistoryChart_def Let_def)
qed

section \<open>Properties\<close>


definition sample_history :: HostHistoryResponse where
  "sample_history =
     \<lparr>hh_timestamps = Some [''a'', ''b'', ''c''],
      hh_lines = Some [\<lparr>hl_name = ''cpu'', hl_label = ''CPU'', hl_unit = Ratio, hl_points = [Some (1/2), None, Some (3/4)]\<rparr>]\<rparr>"


end
