(* ===== verification/Settings_Forms.thy ===== *)
theory Settings_Forms
  imports Time_Range Problems
begin

text \<open>
  Two small forms: the retention period of \<open>src/frontend/src/features/settings/retention.ts\<close> and the audit log's
  query of \<open>src/frontend/src/features/audit/audit-query.ts\<close>. The regular expressions of the period are a scanner,
  and \<open>PERIOD_RE_language\<close> shows that it accepts their language. Milliseconds are exact rationals.
\<close>

section \<open>The retention period\<close>

text \<open>The micro sign and the Greek letter mu, which JavaScript tells apart.\<close>

definition MICRO :: char where "MICRO = CHR 0xB5"
definition GREEK_MU :: char where "GREEK_MU = CHR 0x8E"

definition PERIOD_UNIT_MS :: "(string \<times> rat) list" where
  "PERIOD_UNIT_MS =
     [(''ns'', 1 / 1000000), (''us'', 1 / 1000), (MICRO # ''s'', 1 / 1000), (GREEK_MU # ''s'', 1 / 1000), (''ms'', 1),
      (''s'', 1000), (''m'', 60000), (''h'', 3600000), (''d'', 86400000)]"

definition DAY_MS :: rat where "DAY_MS = 86400000"

definition MIN_PERIOD_MS :: rat where "MIN_PERIOD_MS = DAY_MS"
definition MAX_PERIOD_MS :: rat where "MAX_PERIOD_MS = 3650 * DAY_MS"

definition PERIOD_REQUIRED :: string where
  "PERIOD_REQUIRED = ''period is required, as a duration such as 30d or 720h''"
definition PERIOD_UNPARSEABLE :: string where
  "PERIOD_UNPARSEABLE = ''period must be a duration such as 30d or 720h''"
definition PERIOD_TOO_SHORT :: string where "PERIOD_TOO_SHORT = ''retention must be at least 1d''"
definition PERIOD_TOO_LONG :: string where "PERIOD_TOO_LONG = ''retention must be at most 3650d''"

text \<open>\<open>\\d+(?:\\.\\d+)?\<close> at the front of a text: what it matches and what is left.\<close>

definition scan_count :: "string \<Rightarrow> (string \<times> string) option" where
  "scan_count s =
     (let ip = takeWhile is_digit s; r = dropWhile is_digit s in
      if ip = [] then None
      else case r of
        c # r' \<Rightarrow>
          if c = CHR ''.'' \<and> takeWhile is_digit r' \<noteq> []
          then Some (ip @ c # takeWhile is_digit r', dropWhile is_digit r')
          else Some (ip, r)
      | [] \<Rightarrow> Some (ip, r))"

text \<open>The first alternative of the units the text starts with. No unit but \<open>ms\<close> starts with another one, and after \<open>m\<close>
  an \<open>s\<close> could not start the next count, so trying the alternatives in order never has to be undone.\<close>

definition scan_unit :: "string \<Rightarrow> (string \<times> string) option" where
  "scan_unit s =
     map_option (\<lambda>u. (u, drop (length u) s)) (List.find (startsWith s) (map fst PERIOD_UNIT_MS))"

definition scan_part :: "string \<Rightarrow> ((string \<times> string) \<times> string) option" where
  "scan_part s =
     (case scan_count s of
        None \<Rightarrow> None
      | Some (n, r) \<Rightarrow> (case scan_unit r of None \<Rightarrow> None | Some (u, r') \<Rightarrow> Some ((n, u), r')))"

lemma scan_count_append: "scan_count s = Some (n, r) \<Longrightarrow> s = n @ r \<and> n \<noteq> []"
  by (auto simp: scan_count_def Let_def split: list.splits if_splits
      intro: takeWhile_dropWhile_id [symmetric])
    (metis append.assoc append_Cons takeWhile_dropWhile_id)

lemma scan_unit_append: "scan_unit s = Some (u, r) \<Longrightarrow> s = u @ r \<and> u \<in> fst ` set PERIOD_UNIT_MS"
proof -
  assume "scan_unit s = Some (u, r)"
  then have "List.find (startsWith s) (map fst PERIOD_UNIT_MS) = Some u" and r: "r = drop (length u) s"
    by (auto simp: scan_unit_def)
  then have "startsWith s u" and "u \<in> fst ` set PERIOD_UNIT_MS"
    by (auto simp: find_Some_iff intro: nth_mem)
  then show ?thesis by (auto simp: r startsWith_iff)
qed

lemma scan_part_append: "scan_part s = Some ((n, u), r) \<Longrightarrow> s = n @ u @ r \<and> n \<noteq> []"
  by (auto simp: scan_part_def split: option.splits dest!: scan_count_append scan_unit_append)

text \<open>\<open>PERIOD_RE.test\<close>: one part after the other up to the end.\<close>

function PERIOD_RE :: "string \<Rightarrow> bool" where
  "PERIOD_RE s =
     (case scan_part s of
        None \<Rightarrow> False
      | Some (p, r) \<Rightarrow> r = [] \<or> PERIOD_RE r)"
  by pat_completeness auto
termination
  by (relation "measure length") (auto dest: scan_part_append)

text \<open>\<open>text.matchAll(PART_RE)\<close>: the parts that are found from left to right; a character that starts none is skipped.\<close>

function matchAll_parts :: "string \<Rightarrow> (string \<times> string) list" where
  "matchAll_parts [] = []"
| "matchAll_parts (c # s) =
     (case scan_part (c # s) of
        None \<Rightarrow> matchAll_parts s
      | Some (p, r) \<Rightarrow> p # matchAll_parts r)"
  by pat_completeness auto
termination
proof (relation "measure length")
  fix c s x y z assume "scan_part (c # s) = Some x" and "(y, z) = x"
  then show "(z, c # s) \<in> measure length"
    using scan_part_append [of "c # s" "fst y" "snd y" z] by (cases y) auto
qed auto

declare PERIOD_RE.simps [simp del] matchAll_parts.simps [simp del]

definition num_of :: "JsNum \<Rightarrow> rat" where
  "num_of x = (case x of Num q \<Rightarrow> q | _ \<Rightarrow> 0)"

definition part_ms :: "string \<times> string \<Rightarrow> rat" where
  "part_ms p = num_of (Number (fst p)) * orElse (map_of PERIOD_UNIT_MS (snd p)) 0"

definition parsePeriodMs :: "string \<Rightarrow> rat option" where
  "parsePeriodMs input =
     (let t = toLowerCase (trim input) in
      if \<not> PERIOD_RE t then None
      else Some (fold (\<lambda>p ms. ms + part_ms p) (matchAll_parts t) 0))"

definition validatePeriod :: "string \<Rightarrow> string option" where
  "validatePeriod input =
     (if trim input = [] then Some PERIOD_REQUIRED
      else case parsePeriodMs input of
        None \<Rightarrow> Some PERIOD_UNPARSEABLE
      | Some ms \<Rightarrow>
          if ms < MIN_PERIOD_MS then Some PERIOD_TOO_SHORT
          else if ms > MAX_PERIOD_MS then Some PERIOD_TOO_LONG else None)"

definition whole_days :: "rat \<Rightarrow> bool" where
  "whole_days ms \<longleftrightarrow> of_int \<lfloor>ms / DAY_MS\<rfloor> = ms / DAY_MS"

definition normalizePeriod :: "string \<Rightarrow> string" where
  "normalizePeriod input =
     (case parsePeriodMs input of
        None \<Rightarrow> trim input
      | Some ms \<Rightarrow> if whole_days ms then show_int \<lfloor>ms / DAY_MS\<rfloor> @ ''d'' else toLowerCase (trim input))"

definition samePeriod :: "string option \<Rightarrow> string option \<Rightarrow> bool" where
  "samePeriod a b =
     (if orElse a [] = [] \<or> orElse b [] = [] then a = b
      else case (parsePeriodMs (orElse a []), parsePeriodMs (orElse b [])) of
        (Some x, Some y) \<Rightarrow> x = y
      | _ \<Rightarrow> trim (orElse a []) = trim (orElse b []))"

record SystemRetention =
  rt_configured :: string
  rt_desired :: "string option"
  rt_restart_required :: "bool option"

definition restartPending :: "SystemRetention \<Rightarrow> bool" where
  "restartPending r =
     (case rt_restart_required r of
        Some b \<Rightarrow> b
      | None \<Rightarrow> orElse (rt_desired r) [] \<noteq> [] \<and> \<not> samePeriod (rt_desired r) (Some (rt_configured r)))"

definition periodProblemMessage :: "Problem option \<Rightarrow> string \<Rightarrow> string" where
  "periodProblemMessage problem fallback =
     (let field = Option.bind (Option.bind problem problem_errors) (List.find (\<lambda>e. pe_pointer e = Some ''/period''));
          message = orElse (Option.bind field pe_message) [];
          detail = orElse (Option.bind problem problem_detail) []
      in if message \<noteq> [] then message else if detail \<noteq> [] then detail else fallback)"

section \<open>The audit log\<close>

definition AUDIT_LIMITS :: "string list" where
  "AUDIT_LIMITS = [''50'', ''200'', ''500'', ''1000'']"

record AuditSearch =
  as_from :: string
  as_to :: string
  as_action :: "string option"
  as_actor :: "string option"
  as_outcome :: string
  as_limit :: string

record AuditQuery =
  aq_limit :: nat
  aq_action :: "string option"
  aq_actor :: "string option"
  aq_outcome :: "string option"
  aq_since :: "string option"
  aq_before :: "string option"

definition audit_limit :: "string \<Rightarrow> nat" where
  "audit_limit t =
     (case Number t of
        Num q \<Rightarrow> if isInteger (Num q) \<and> 1 \<le> q \<and> q \<le> 1000 then nat \<lfloor>q\<rfloor> else 200
      | _ \<Rightarrow> 200)"

text \<open>The start of the range is written before the end is formatted, so it stays in the query when that throws.\<close>

definition auditQueryFromSearch ::
  "(string \<Rightarrow> int option) \<Rightarrow> (int \<Rightarrow> string) \<Rightarrow> (int \<Rightarrow> string \<Rightarrow> int option) \<Rightarrow> AuditSearch \<Rightarrow> int \<Rightarrow> string \<Rightarrow>
     AuditQuery \<times> string option" where
  "auditQueryFromSearch parse_date to_iso day_start search now tz =
     (let query = \<lparr>aq_limit = audit_limit (as_limit search),
                   aq_action = nonempty (trim (orElse (as_action search) [])),
                   aq_actor = nonempty (trim (orElse (as_actor search) [])),
                   aq_outcome = nonempty (as_outcome search), aq_since = None, aq_before = None\<rparr>
      in case resolveRange parse_date day_start (as_from search) (as_to search) now tz of
           Inl e \<Rightarrow> (query, Some e)
         | Inr (s, d) \<Rightarrow>
             (case toISOString to_iso s of
                Inl e \<Rightarrow> (query, Some e)
              | Inr since \<Rightarrow>
                  (case toISOString to_iso d of
                     Inl e \<Rightarrow> (query\<lparr>aq_since := Some since\<rparr>, Some e)
                   | Inr before \<Rightarrow> (query\<lparr>aq_since := Some since, aq_before := Some before\<rparr>, None))))"

definition auditActionGroup :: "string \<Rightarrow> string" where
  "auditActionGroup action = hd (split_on (\<lambda>c. c = CHR ''.'') action)"

datatype AuditTone = Tone_success | Tone_danger | Tone_muted

definition auditOutcomeTone :: "string \<Rightarrow> AuditTone" where
  "auditOutcomeTone outcome =
     (if outcome = ''success'' then Tone_success else if outcome = ''failure'' then Tone_danger else Tone_muted)"

section \<open>The language of the period\<close>

definition is_count :: "string \<Rightarrow> bool" where
  "is_count n \<longleftrightarrow> all_digits n \<or> (\<exists>a b. n = a @ CHR ''.'' # b \<and> all_digits a \<and> all_digits b)"

definition is_part :: "string \<times> string \<Rightarrow> bool" where
  "is_part p \<longleftrightarrow> is_count (fst p) \<and> snd p \<in> fst ` set PERIOD_UNIT_MS"

definition part_text :: "string \<times> string \<Rightarrow> string" where
  "part_text p = fst p @ snd p"

text \<open>What follows a part: the end, or the digits of the next one.\<close>

definition part_end :: "string \<Rightarrow> bool" where
  "part_end r \<longleftrightarrow> r = [] \<or> is_digit (hd r)"

lemma digits_then:
  "all_digits a \<Longrightarrow> r = [] \<or> \<not> is_digit (hd r) \<Longrightarrow> takeWhile is_digit (a @ r) = a \<and> dropWhile is_digit (a @ r) = r"
  by (cases r) (auto simp: all_digits_def list_all_iff takeWhile_append dropWhile_append takeWhile_eq_all_conv)

lemma unit_no_digit: "u \<in> fst ` set PERIOD_UNIT_MS \<Longrightarrow> u \<noteq> [] \<and> \<not> is_digit (hd u) \<and> hd u \<noteq> CHR ''.''"
  by (auto simp: PERIOD_UNIT_MS_def MICRO_def GREEK_MU_def is_digit_def)

lemma digit_not_s: "is_digit c \<Longrightarrow> c \<noteq> CHR ''s''"
  by (auto simp: is_digit_def)

lemma scan_unit_part:
  assumes "u \<in> fst ` set PERIOD_UNIT_MS" and "part_end r"
  shows "scan_unit (u @ r) = Some (u, r)"
proof -
  have s: "\<not> startsWith r ''s''"
    using assms(2) by (cases r) (auto simp: part_end_def digit_not_s)
  have "u = ''ns'' \<or> u = ''us'' \<or> u = MICRO # ''s'' \<or> u = GREEK_MU # ''s'' \<or> u = ''ms'' \<or> u = ''s'' \<or> u = ''m'' \<or> u = ''h'' \<or> u = ''d''"
    using assms(1) by (simp add: PERIOD_UNIT_MS_def)
  then show ?thesis
    by (elim disjE) (simp_all add: scan_unit_def PERIOD_UNIT_MS_def MICRO_def GREEK_MU_def s)
qed

lemma scan_count_part:
  assumes "is_count n" and "u \<in> fst ` set PERIOD_UNIT_MS"
  shows "scan_count (n @ u @ r) = Some (n, u @ r)"
proof -
  obtain c v where u: "u = c # v" and c: "\<not> is_digit c" "c \<noteq> CHR ''.''"
    using unit_no_digit [OF assms(2)] by (cases u) auto
  show ?thesis
  proof (cases "all_digits n")
    case True
    then show ?thesis
      using digits_then [of n "u @ r"] c by (simp add: scan_count_def u all_digits_def Let_def)
  next
    case False
    then obtain a b where n: "n = a @ CHR ''.'' # b" and ab: "all_digits a" "all_digits b"
      using assms(1) by (auto simp: is_count_def)
    have "takeWhile is_digit (n @ u @ r) = a" "dropWhile is_digit (n @ u @ r) = CHR ''.'' # b @ u @ r"
      using digits_then [of a "CHR ''.'' # b @ u @ r"] ab by (simp_all add: n is_digit_def)
    moreover have "takeWhile is_digit (b @ u @ r) = b" "dropWhile is_digit (b @ u @ r) = u @ r"
      using digits_then [of b "u @ r"] ab c by (simp_all add: u)
    ultimately show ?thesis
      using ab by (simp add: scan_count_def Let_def all_digits_def n)
  qed
qed

lemma scan_part_part: "is_part p \<Longrightarrow> part_end r \<Longrightarrow> scan_part (part_text p @ r) = Some (p, r)"
  by (cases p) (simp add: is_part_def part_text_def scan_part_def scan_count_part scan_unit_part)

lemma takeWhile_all_digits: "takeWhile is_digit s \<noteq> [] \<Longrightarrow> all_digits (takeWhile is_digit s)"
  by (auto simp: all_digits_def list_all_iff dest: set_takeWhileD)

lemma scan_count_is_count: "scan_count s = Some (n, r) \<Longrightarrow> is_count n"
  unfolding scan_count_def is_count_def Let_def
  by (auto simp: takeWhile_all_digits split: list.splits if_splits) (metis takeWhile_all_digits)

lemma scan_part_is_part:
  assumes "scan_part s = Some (p, r)"
  shows "is_part p"
proof -
  obtain n u r' where "scan_count s = Some (n, r')" "scan_unit r' = Some (u, r)" "p = (n, u)"
    using assms by (auto simp: scan_part_def split: option.splits)
  then show ?thesis using scan_count_is_count scan_unit_append by (simp add: is_part_def)
qed

lemma part_starts: "is_part p \<Longrightarrow> part_text p \<noteq> [] \<and> is_digit (hd (part_text p))"
  by (cases p) (auto simp: is_part_def is_count_def part_text_def all_digits_def neq_Nil_conv)

definition parts_text :: "(string \<times> string) list \<Rightarrow> string" where
  "parts_text ps = concat (map part_text ps)"

lemma parts_end: "list_all is_part ps \<Longrightarrow> part_end (parts_text ps)"
  using part_starts by (cases ps) (auto simp: parts_text_def part_end_def)

lemma matchAll_parts_text: "list_all is_part ps \<Longrightarrow> matchAll_parts (parts_text ps) = ps"
proof (induction ps)
  case (Cons p ps)
  have scan: "scan_part (part_text p @ parts_text ps) = Some (p, parts_text ps)"
    using Cons.prems by (simp add: scan_part_part parts_end)
  obtain c s where "part_text p @ parts_text ps = c # s"
    using part_starts [of p] Cons.prems by (cases "part_text p") auto
  then show ?case using scan Cons by (simp add: parts_text_def matchAll_parts.simps(2))
qed (simp add: parts_text_def matchAll_parts.simps)

lemma PERIOD_RE_parts: "list_all is_part ps \<Longrightarrow> ps \<noteq> [] \<Longrightarrow> PERIOD_RE (parts_text ps)"
proof (induction ps)
  case (Cons p ps)
  have "scan_part (part_text p @ parts_text ps) = Some (p, parts_text ps)"
    using Cons.prems by (simp add: scan_part_part parts_end)
  then show ?case
    using Cons by (cases ps) (simp_all add: parts_text_def PERIOD_RE.simps [of "part_text p @ _"] PERIOD_RE.simps [of "part_text p"])
qed simp

lemma PERIOD_RE_text: "PERIOD_RE s \<Longrightarrow> \<exists>ps. ps \<noteq> [] \<and> list_all is_part ps \<and> s = parts_text ps"
proof (induction s rule: PERIOD_RE.induct)
  case (1 s)
  then obtain p r where scan: "scan_part s = Some (p, r)" and rest: "r = [] \<or> PERIOD_RE r"
    by (auto simp: PERIOD_RE.simps [of s] split: option.splits)
  have p: "is_part p" and s: "s = part_text p @ r"
    using scan_part_is_part [OF scan] scan_part_append [of s "fst p" "snd p" r] scan by (simp_all add: part_text_def)
  show ?case
  proof (cases "r = []")
    case True
    then show ?thesis using p s by (intro exI [of _ "[p]"]) (simp add: parts_text_def)
  next
    case False
    then obtain ps where "list_all is_part ps" "r = parts_text ps"
      using 1(1) [OF scan refl] rest by blast
    then show ?thesis using p s by (intro exI [of _ "p # ps"]) (simp add: parts_text_def)
  qed
qed

text \<open>The scanner accepts the language of \<open>^(?:\\d+(?:\\.\\d+)?(?:UNITS))+$\<close>, and on it \<open>matchAll\<close> finds all the parts.\<close>

lemma PERIOD_RE_language:
  "PERIOD_RE s \<longleftrightarrow> (\<exists>ps. ps \<noteq> [] \<and> list_all is_part ps \<and> s = parts_text ps)"
  using PERIOD_RE_parts PERIOD_RE_text by blast

lemma matchAll_consumes: "PERIOD_RE s \<Longrightarrow> parts_text (matchAll_parts s) = s \<and> list_all is_part (matchAll_parts s)"
  using PERIOD_RE_text [of s] by (auto simp: matchAll_parts_text)

section \<open>Lengths of periods\<close>

lemma trim_lower_trim [simp]: "trim (toLowerCase (trim s)) = toLowerCase (trim s)"
  by (rule trim_id [OF toLowerCase_trimmed])

lemma lower_digit: "is_digit c \<Longrightarrow> lower_char c = c"
  by (auto simp: is_digit_def lower_char_def Let_def)

lemma toLowerCase_digits: "all_digits s \<Longrightarrow> toLowerCase s = s"
  unfolding toLowerCase_def all_digits_def by (rule map_idI) (auto simp: list_all_iff lower_digit)

lemma decimal_literal_nonneg: "decimal_literal s = Some q \<Longrightarrow> 0 \<le> q"
  by (auto simp: decimal_literal_def scale10_def Let_def split: if_splits)

lemma Number_count_nonneg:
  assumes "is_count n"
  shows "0 \<le> num_of (Number n)"
proof -
  obtain c r where n: "n = c # r" and c: "is_digit c"
    using assms by (cases n) (auto simp: is_count_def all_digits_def append_eq_Cons_conv Cons_eq_append_conv)
  have chars: "is_digit x \<or> x = CHR ''.''" if "x \<in> set n" for x
    using that assms by (auto simp: is_count_def all_digits_def list_all_iff)
  have "\<not> is_space (CHR ''.'')" by (simp add: is_space_def)
  then have "\<forall>x \<in> set n. \<not> is_space x" using chars digit_not_space by blast
  then have "trim n = n" by (rule trim_no_space)
  moreover have "r = [] \<or> hd r \<notin> set ''xXoObB''"
  proof -
    have "x \<notin> set ''xXoObB''" if "x \<in> set n" for x
      using chars [OF that] digits_not_letters [of x] by auto
    then show ?thesis by (cases r) (simp_all add: n)
  qed
  ultimately have "Number n = unsigned_number n"
    using digit_not_sign [OF c] by (cases r) (auto simp: Number_def n)
  then show ?thesis
    using decimal_literal_nonneg [of n]
    by (simp add: unsigned_number_def of_rat_option_def num_of_def split: option.split)
qed

lemma unit_ms_nonneg: "0 \<le> orElse (map_of PERIOD_UNIT_MS u) 0"
  by (simp add: PERIOD_UNIT_MS_def)

lemma part_ms_nonneg: "is_part p \<Longrightarrow> 0 \<le> part_ms p"
  by (simp add: part_ms_def is_part_def Number_count_nonneg unit_ms_nonneg)

lemma fold_ms: "fold (\<lambda>p ms. ms + part_ms p) ps a = a + sum_list (map part_ms ps)"
  by (induction ps arbitrary: a) simp_all

lemma parsePeriodMs_nonneg: "parsePeriodMs s = Some ms \<Longrightarrow> 0 \<le> ms"
  using matchAll_consumes [of "toLowerCase (trim s)"]
  by (auto simp: parsePeriodMs_def Let_def fold_ms list_all_iff part_ms_nonneg intro!: sum_list_nonneg split: if_splits)

lemma parsePeriodMs_trim: "parsePeriodMs (trim s) = parsePeriodMs s" "parsePeriodMs (toLowerCase (trim s)) = parsePeriodMs s"
  by (simp_all add: parsePeriodMs_def)

lemma days_text: "toLowerCase (trim (show_nat n @ ''d'')) = show_nat n @ ''d''"
proof -
  have "\<not> is_space (CHR ''d'')" by (simp add: is_space_def)
  then have "trim (show_nat n @ ''d'') = show_nat n @ ''d''"
    by (intro trim_no_space) (auto dest: show_nat_no_space)
  then show ?thesis
    using toLowerCase_digits [OF all_digits_show_nat, of n] by (simp add: toLowerCase_def lower_char_def)
qed

lemma parsePeriodMs_days: "parsePeriodMs (show_nat n @ ''d'') = Some (of_nat n * DAY_MS)"
proof -
  let ?p = "(show_nat n, ''d'')"
  have part: "list_all is_part [?p]" by (simp add: is_part_def is_count_def PERIOD_UNIT_MS_def)
  have printed: "show_nat n @ ''d'' = parts_text [?p]" by (simp add: parts_text_def part_text_def)
  have "part_ms ?p = of_nat n * DAY_MS"
    by (simp add: part_ms_def num_of_def PERIOD_UNIT_MS_def DAY_MS_def MICRO_def GREEK_MU_def)
  then show ?thesis
    using PERIOD_RE_parts [OF part] matchAll_parts_text [OF part]
    by (simp add: parsePeriodMs_def days_text Let_def) (simp add: printed)
qed

lemma whole_days_text:
  assumes "parsePeriodMs s = Some ms" and "whole_days ms"
  shows "show_int \<lfloor>ms / DAY_MS\<rfloor> = show_nat (nat \<lfloor>ms / DAY_MS\<rfloor>)" and "of_nat (nat \<lfloor>ms / DAY_MS\<rfloor>) * DAY_MS = ms"
proof -
  have "0 \<le> ms / DAY_MS" using parsePeriodMs_nonneg [OF assms(1)] by (simp add: DAY_MS_def)
  then have n: "0 \<le> \<lfloor>ms / DAY_MS\<rfloor>" by simp
  then show "show_int \<lfloor>ms / DAY_MS\<rfloor> = show_nat (nat \<lfloor>ms / DAY_MS\<rfloor>)" by (simp add: show_int_def)
  have "(of_nat (nat \<lfloor>ms / DAY_MS\<rfloor>) :: rat) = of_int \<lfloor>ms / DAY_MS\<rfloor>" using n by simp
  then show "of_nat (nat \<lfloor>ms / DAY_MS\<rfloor>) * DAY_MS = ms"
    using assms(2) by (simp add: whole_days_def DAY_MS_def)
qed

lemma normalizePeriod_parse: "parsePeriodMs (normalizePeriod s) = parsePeriodMs s"
proof (cases "parsePeriodMs s")
  case (Some ms)
  then show ?thesis
    using whole_days_text [OF Some] parsePeriodMs_days [of "nat \<lfloor>ms / DAY_MS\<rfloor>"] parsePeriodMs_trim(2) [of s]
    by (simp add: normalizePeriod_def)
qed (simp add: normalizePeriod_def parsePeriodMs_trim)

lemma normalizePeriod_idem: "normalizePeriod (normalizePeriod s) = normalizePeriod s"
proof (cases "parsePeriodMs s")
  case None
  then show ?thesis by (simp add: normalizePeriod_def parsePeriodMs_trim)
next
  case (Some ms)
  have "parsePeriodMs (normalizePeriod s) = Some ms" by (simp add: normalizePeriod_parse Some)
  then show ?thesis
    using Some by (cases "whole_days ms") (simp_all add: normalizePeriod_def [of "normalizePeriod s"], simp_all add: normalizePeriod_def)
qed

text \<open>What is rejected as empty does not parse.\<close>

lemma parsePeriodMs_empty: "trim s = [] \<Longrightarrow> parsePeriodMs s = None"
  by (simp add: parsePeriodMs_def PERIOD_RE.simps [of "[]"] scan_part_def scan_count_def)

section \<open>The audit query\<close>

lemma audit_limit_bounds: "1 \<le> audit_limit t \<and> audit_limit t \<le> 1000"
proof (cases "Number t")
  case (Num q)
  then show ?thesis
    by (simp add: audit_limit_def le_nat_iff nat_le_iff le_floor_iff floor_le_iff)
qed (simp_all add: audit_limit_def)

lemma audit_limit_kept: "1 \<le> n \<Longrightarrow> n \<le> 1000 \<Longrightarrow> audit_limit (show_nat n) = n"
  by (simp add: audit_limit_def isInteger_def)

lemma auditActionGroup_prefix: "\<exists>r. action = auditActionGroup action @ r \<and> (r = [] \<or> hd r = CHR ''.'')"
  by (induction action) (auto simp: auditActionGroup_def split: list.split)

text \<open>An error is reported exactly when no window is sent; a query without error has both ends.\<close>

lemma auditQuery_error:
  assumes "auditQueryFromSearch parse_date to_iso day_start search now tz = (query, err)"
  shows "1 \<le> aq_limit query \<and> aq_limit query \<le> 1000 \<and>
    (err = None \<longleftrightarrow> aq_since query \<noteq> None \<and> aq_before query \<noteq> None) \<and>
    (err = None \<longrightarrow> (\<exists>s d. resolveRange parse_date day_start (as_from search) (as_to search) now tz = Inr (Some s, Some d) \<and>
       aq_since query = Some (to_iso s) \<and> aq_before query = Some (to_iso d)))"
  using assms audit_limit_bounds [of "as_limit search"]
  by (auto simp: auditQueryFromSearch_def toISOString_def Let_def split: sum.splits option.splits prod.splits)

section \<open>Properties\<close>

lemma normalizePeriod_Nil: "normalizePeriod s = [] \<longleftrightarrow> trim s = []"
proof (cases "parsePeriodMs s")
  case (Some ms)
  then have "trim s \<noteq> []" using parsePeriodMs_empty [of s] by auto
  then show ?thesis by (simp add: normalizePeriod_def Some)
qed (simp add: normalizePeriod_def)


end
