(* ===== verification/Browser_State.thy ===== *)
theory Browser_State
  imports Prelude
begin

text \<open>
  What the browser keeps for the interface: the preferences of \<open>src/frontend/src/lib/preferences.ts\<close> with their local
  storage, theme attribute and subscribers, and the keyboard shortcuts of \<open>src/frontend/src/lib/hotkeys.ts\<close>. \<open>stringify\<close>
  and \<open>parse\<close> stand for JSON's text format, with the law \<open>json_laws\<close>; a storage that refuses a write is an outcome of
  the write, and a subscriber or a handler is named by a number.
\<close>

section \<open>Preferences\<close>

datatype Theme = Dark | Light

type_synonym TimeSpan = "string \<times> string"

record Prefs =
  pf_theme :: Theme
  pf_timezone :: string
  pf_sidebarCollapsed :: bool
  pf_recentRanges :: "TimeSpan list"

text \<open>\<open>Partial<Prefs>\<close>.\<close>

record PrefsPatch =
  pp_theme :: "Theme option"
  pp_timezone :: "string option"
  pp_sidebarCollapsed :: "bool option"
  pp_recentRanges :: "TimeSpan list option"

definition no_patch :: PrefsPatch where
  "no_patch = \<lparr>pp_theme = None, pp_timezone = None, pp_sidebarCollapsed = None, pp_recentRanges = None\<rparr>"

definition PREFS_DEFAULTS :: Prefs where
  "PREFS_DEFAULTS = \<lparr>pf_theme = Dark, pf_timezone = ''browser'', pf_sidebarCollapsed = False, pf_recentRanges = []\<rparr>"

text \<open>\<open>{ ...prefs, ...patch }\<close>.\<close>

definition spread_prefs :: "Prefs \<Rightarrow> PrefsPatch \<Rightarrow> Prefs" where
  "spread_prefs p d =
     \<lparr>pf_theme = orElse (pp_theme d) (pf_theme p), pf_timezone = orElse (pp_timezone d) (pf_timezone p),
      pf_sidebarCollapsed = orElse (pp_sidebarCollapsed d) (pf_sidebarCollapsed p),
      pf_recentRanges = orElse (pp_recentRanges d) (pf_recentRanges p)\<rparr>"

definition whole_patch :: "Prefs \<Rightarrow> PrefsPatch" where
  "whole_patch p =
     \<lparr>pp_theme = Some (pf_theme p), pp_timezone = Some (pf_timezone p), pp_sidebarCollapsed = Some (pf_sidebarCollapsed p),
      pp_recentRanges = Some (pf_recentRanges p)\<rparr>"

text \<open>What \<open>JSON.parse\<close> gives for what \<open>JSON.stringify\<close> wrote; no text it writes is empty.\<close>

definition json_laws :: "(Prefs \<Rightarrow> string) \<Rightarrow> (string \<Rightarrow> PrefsPatch option) \<Rightarrow> bool" where
  "json_laws stringify parse \<longleftrightarrow> (\<forall>p. stringify p \<noteq> [] \<and> parse (stringify p) = Some (whole_patch p))"

text \<open>\<open>item\<close> is what the storage holds under the key, or \<open>Inl\<close> when reading it throws.\<close>

definition load :: "(string \<Rightarrow> PrefsPatch option) \<Rightarrow> unit + string option \<Rightarrow> Prefs" where
  "load parse item =
     (case item of
        Inr (Some raw) \<Rightarrow>
          if raw \<noteq> [] then (case parse raw of Some d \<Rightarrow> spread_prefs PREFS_DEFAULTS d | None \<Rightarrow> PREFS_DEFAULTS)
          else PREFS_DEFAULTS
      | _ \<Rightarrow> PREFS_DEFAULTS)"

record PrefsModule =
  pm_state :: Prefs
  pm_storage :: "string option"
  pm_listeners :: "nat list"
  pm_theme_attr :: "Theme option"
  pm_called :: "nat list"

definition applyTheme :: "Theme \<Rightarrow> PrefsModule \<Rightarrow> PrefsModule" where
  "applyTheme theme s = s\<lparr>pm_theme_attr := Some theme\<rparr>"

text \<open>\<open>stored\<close> says whether \<open>setItem\<close> succeeds.\<close>

definition setPrefs :: "(Prefs \<Rightarrow> string) \<Rightarrow> bool \<Rightarrow> PrefsPatch \<Rightarrow> PrefsModule \<Rightarrow> PrefsModule" where
  "setPrefs stringify stored patch s =
     (let st = spread_prefs (pm_state s) patch;
          s1 = s\<lparr>pm_state := st\<rparr>;
          s2 = (if stored then s1\<lparr>pm_storage := Some (stringify st)\<rparr> else s1);
          s3 = applyTheme (pf_theme st) s2
      in s3\<lparr>pm_called := pm_called s3 @ pm_listeners s3\<rparr>)"

definition prefs_subscribe :: "nat \<Rightarrow> PrefsModule \<Rightarrow> PrefsModule" where
  "prefs_subscribe l s = (if List.member (pm_listeners s) l then s else s\<lparr>pm_listeners := pm_listeners s @ [l]\<rparr>)"

definition prefs_unsubscribe :: "nat \<Rightarrow> PrefsModule \<Rightarrow> PrefsModule" where
  "prefs_unsubscribe l s = s\<lparr>pm_listeners := filter (\<lambda>k. k \<noteq> l) (pm_listeners s)\<rparr>"

definition pushRecentRange :: "(Prefs \<Rightarrow> string) \<Rightarrow> bool \<Rightarrow> string \<Rightarrow> string \<Rightarrow> PrefsModule \<Rightarrow> PrefsModule" where
  "pushRecentRange stringify stored frm to s =
     setPrefs stringify stored
       (no_patch\<lparr>pp_recentRanges :=
          Some (take 6 ((frm, to) # filter (\<lambda>r. fst r \<noteq> frm \<or> snd r \<noteq> to) (pf_recentRanges (pm_state s))))\<rparr>) s"

section \<open>A life of the preferences\<close>

text \<open>What happens to the module: a preference other than the recent ranges is changed, a range is used, somebody
  subscribes or leaves, and the page is loaded again.\<close>

datatype prefs_op =
    Change "Theme option" "string option" "bool option" bool
  | Push string string bool
  | Subscribe nat
  | Unsubscribe nat
  | Reload

definition prefs_init :: "(string \<Rightarrow> PrefsPatch option) \<Rightarrow> string option \<Rightarrow> PrefsModule" where
  "prefs_init parse storage =
     \<lparr>pm_state = load parse (Inr storage), pm_storage = storage, pm_listeners = [], pm_theme_attr = None, pm_called = []\<rparr>"

fun prefs_step ::
  "(Prefs \<Rightarrow> string) \<Rightarrow> (string \<Rightarrow> PrefsPatch option) \<Rightarrow> prefs_op \<Rightarrow> PrefsModule \<Rightarrow> PrefsModule" where
  "prefs_step stringify parse (Change theme tz collapsed stored) s =
     setPrefs stringify stored
       \<lparr>pp_theme = theme, pp_timezone = tz, pp_sidebarCollapsed = collapsed, pp_recentRanges = None\<rparr> s"
| "prefs_step stringify parse (Push frm to stored) s = pushRecentRange stringify stored frm to s"
| "prefs_step stringify parse (Subscribe l) s = prefs_subscribe l s"
| "prefs_step stringify parse (Unsubscribe l) s = prefs_unsubscribe l s"
| "prefs_step stringify parse Reload s = prefs_init parse (pm_storage s)"

definition prefs_run ::
  "(Prefs \<Rightarrow> string) \<Rightarrow> (string \<Rightarrow> PrefsPatch option) \<Rightarrow> prefs_op list \<Rightarrow> PrefsModule" where
  "prefs_run stringify parse ops = fold (prefs_step stringify parse) ops (prefs_init parse None)"

section \<open>Shortcuts\<close>

record KeyEvent =
  ke_key :: string
  ke_mod :: bool
  ke_alt :: bool
  ke_typing :: bool

text \<open>\<open>isTyping\<close>: \<open>None\<close> for a target that is no element; the tag, whether it is editable, and whether it is inside the
  editor.\<close>

definition isTyping :: "(string \<times> bool \<times> bool) option \<Rightarrow> bool" where
  "isTyping target =
     (case target of
        None \<Rightarrow> False
      | Some (tag, editable, in_editor) \<Rightarrow>
          tag = ''INPUT'' \<or> tag = ''TEXTAREA'' \<or> tag = ''SELECT'' \<or> editable \<or> in_editor)"

type_synonym Bindings = "(string \<times> nat) list"

record HotkeyState =
  hk_pending :: "string option"
  hk_timer :: "nat option"

definition hotkeys_init :: HotkeyState where
  "hotkeys_init = \<lparr>hk_pending = None, hk_timer = None\<rparr>"

definition pressed :: "KeyEvent \<Rightarrow> string" where
  "pressed e = (if length (ke_key e) = 1 then toLowerCase (ke_key e) else ke_key e)"

definition is_mod_combo :: "string \<Rightarrow> bool" where
  "is_mod_combo combo = startsWith combo ''mod+''"

definition is_sequence :: "string \<Rightarrow> bool" where
  "is_sequence combo \<longleftrightarrow> \<not> is_mod_combo combo \<and> List.member combo (CHR '' '')"

definition sequence_keys :: "string \<Rightarrow> string \<times> string" where
  "sequence_keys combo = (let ws = split_on (\<lambda>c. c = CHR '' '') combo in (ws ! 0, ws ! 1))"

text \<open>Whether a binding reacts to a key, as the branches of the loop decide.\<close>

definition reacts :: "HotkeyState \<Rightarrow> KeyEvent \<Rightarrow> string \<Rightarrow> bool" where
  "reacts s e combo =
     (if is_mod_combo combo then ke_mod e \<and> pressed e = drop 4 combo
      else if ke_typing e \<or> ke_mod e \<or> ke_alt e then False
      else if is_sequence combo then hk_pending s = Some (fst (sequence_keys combo)) \<and> pressed e = snd (sequence_keys combo)
      else combo = pressed e \<or> combo = ''?'' \<and> ke_key e = ''?'')"

text \<open>The loop over the bindings returns at the first that reacts: its combination and handler. Without one, a plain
  character may start a sequence and restarts the timer.\<close>

definition onKey :: "Bindings \<Rightarrow> KeyEvent \<Rightarrow> HotkeyState \<Rightarrow> HotkeyState \<times> (string \<times> nat) option" where
  "onKey bindings e s =
     (case List.find (\<lambda>b. reacts s e (fst b)) bindings of
        Some (combo, handler) \<Rightarrow> (if is_sequence combo then s\<lparr>hk_pending := None\<rparr> else s, Some (combo, handler))
      | None \<Rightarrow>
          (if \<not> ke_typing e \<and> \<not> ke_mod e \<and> length (pressed e) = 1
           then \<lparr>hk_pending = Some (pressed e), hk_timer = Some 900\<rparr> else s, None))"

text \<open>The timer's callback, and the clean-up of the effect.\<close>

definition sequence_timeout :: "HotkeyState \<Rightarrow> HotkeyState" where
  "sequence_timeout s = (if hk_timer s = None then s else \<lparr>hk_pending = None, hk_timer = None\<rparr>)"

datatype hotkey_event = Key KeyEvent | Timeout

fun hotkey_step :: "Bindings \<Rightarrow> hotkey_event \<Rightarrow> HotkeyState \<Rightarrow> HotkeyState \<times> (string \<times> nat) option" where
  "hotkey_step bindings (Key e) s = onKey bindings e s"
| "hotkey_step bindings Timeout s = (sequence_timeout s, None)"

fun hotkey_run :: "Bindings \<Rightarrow> hotkey_event list \<Rightarrow> HotkeyState \<Rightarrow> HotkeyState \<times> (string \<times> nat) option list" where
  "hotkey_run bindings [] s = (s, [])"
| "hotkey_run bindings (e # es) s =
     (let (s1, fired) = hotkey_step bindings e s; (s2, rest) = hotkey_run bindings es s1 in (s2, fired # rest))"

section \<open>Facts about the preferences\<close>

lemma recent_filter:
  "filter (\<lambda>r. fst r \<noteq> frm \<or> snd r \<noteq> to) xs = filter (\<lambda>r. r \<noteq> (frm, to)) xs"
  "filter (\<lambda>r. fst r = frm \<longrightarrow> snd r \<noteq> to) xs = filter (\<lambda>r. r \<noteq> (frm, to)) xs"
  by (rule filter_cong; auto simp: prod_eq_iff)+

text \<open>Moving to the front of a bounded list of distinct elements forgets nothing a longer list would show.\<close>

lemma take_filter_take: "distinct xs \<Longrightarrow> take n (filter (\<lambda>r. r \<noteq> x) (take (Suc n) xs)) = take n (filter (\<lambda>r. r \<noteq> x) xs)"
proof (induction xs arbitrary: n)
  case (Cons y ys)
  show ?case
  proof (cases "y = x")
    case True
    then have "filter (\<lambda>r. r \<noteq> x) ys = ys" using Cons.prems by (auto intro!: filter_True)
    moreover have "filter (\<lambda>r. r \<noteq> x) (take n ys) = take n ys"
      using Cons.prems True by (auto intro!: filter_True dest: in_set_takeD)
    ultimately show ?thesis by (simp add: True)
  next
    case False
    show ?thesis
    proof (cases n)
      case (Suc m)
      then show ?thesis using Cons.IH [of m] Cons.prems False by simp
    qed simp
  qed
qed simp

lemma filter_uniq: "filter P (uniq xs) = uniq (filter P xs)"
proof (induction xs rule: uniq.induct)
  case (2 x xs)
  have "filter P (filter (\<lambda>y. y \<noteq> x) xs) = (if P x then filter (\<lambda>y. y \<noteq> x) (filter P xs) else filter P xs)"
    by (auto simp: conj_commute intro!: filter_cong)
  with 2 show ?case by simp
qed simp

lemma recent_uniq:
  "take 6 (x # filter (\<lambda>r. r \<noteq> x) (take 6 (uniq h))) = take 6 (uniq (x # h))"
  using take_filter_take [of "uniq h" 5 x] by (simp add: numeral_eq_Suc filter_uniq)

lemma setPrefs_simps [simp]:
  "pm_state (setPrefs stringify stored d s) = spread_prefs (pm_state s) d"
  "pm_storage (setPrefs stringify stored d s) =
     (if stored then Some (stringify (spread_prefs (pm_state s) d)) else pm_storage s)"
  "pm_listeners (setPrefs stringify stored d s) = pm_listeners s"
  "pm_theme_attr (setPrefs stringify stored d s) = Some (pf_theme (spread_prefs (pm_state s) d))"
  "pm_called (setPrefs stringify stored d s) = pm_called s @ pm_listeners s"
  by (simp_all add: setPrefs_def applyTheme_def Let_def)

lemma spread_simps [simp]:
  "pf_recentRanges (spread_prefs p d) = orElse (pp_recentRanges d) (pf_recentRanges p)"
  "pf_theme (spread_prefs p d) = orElse (pp_theme d) (pf_theme p)"
  by (simp_all add: spread_prefs_def)

lemma spread_whole: "spread_prefs p (whole_patch q) = q"
  by (simp add: spread_prefs_def whole_patch_def)

lemma load_stored: "json_laws stringify parse \<Longrightarrow> load parse (Inr (Some (stringify p))) = p"
  by (simp add: json_laws_def load_def spread_whole)

lemma load_nothing [simp]: "load parse (Inr None) = PREFS_DEFAULTS"
  by (simp add: load_def)

lemma pushRecentRange_recent:
  "pf_recentRanges (pm_state (pushRecentRange stringify stored frm to s)) =
     take 6 ((frm, to) # filter (\<lambda>r. r \<noteq> (frm, to)) (pf_recentRanges (pm_state s)))"
  by (simp add: pushRecentRange_def recent_filter)

definition recent_ok :: "Prefs \<Rightarrow> bool" where
  "recent_ok p \<longleftrightarrow> distinct (pf_recentRanges p) \<and> length (pf_recentRanges p) \<le> 6"

text \<open>The invariant of the module: the state is well-formed, and the storage holds a well-formed state or nothing.\<close>

definition prefs_ok :: "(Prefs \<Rightarrow> string) \<Rightarrow> PrefsModule \<Rightarrow> bool" where
  "prefs_ok stringify s \<longleftrightarrow>
     recent_ok (pm_state s) \<and> (pm_storage s = None \<or> (\<exists>p. pm_storage s = Some (stringify p) \<and> recent_ok p)) \<and>
     distinct (pm_listeners s) \<and> (pm_theme_attr s = None \<or> pm_theme_attr s = Some (pf_theme (pm_state s)))"

lemma setPrefs_ok:
  assumes "prefs_ok stringify s" and "recent_ok (spread_prefs (pm_state s) d)"
  shows "prefs_ok stringify (setPrefs stringify stored d s)"
  using assms by (auto simp: prefs_ok_def)

lemma prefs_init_ok:
  assumes "json_laws stringify parse" and "item = None \<or> (\<exists>p. item = Some (stringify p) \<and> recent_ok p)"
  shows "prefs_ok stringify (prefs_init parse item)"
  using assms load_stored [OF assms(1)]
  by (auto simp: prefs_ok_def prefs_init_def recent_ok_def PREFS_DEFAULTS_def)

lemma prefs_step_ok:
  assumes "json_laws stringify parse" and ok: "prefs_ok stringify s"
  shows "prefs_ok stringify (prefs_step stringify parse op s)"
proof (cases op)
  case (Push frm to stored)
  have "recent_ok (spread_prefs (pm_state s) (no_patch\<lparr>pp_recentRanges :=
      Some (take 6 ((frm, to) # filter (\<lambda>r. fst r \<noteq> frm \<or> snd r \<noteq> to) (pf_recentRanges (pm_state s))))\<rparr>))"
    using ok by (auto simp: recent_ok_def prefs_ok_def recent_filter intro!: distinct_take dest: in_set_takeD)
  then show ?thesis using setPrefs_ok [OF ok] by (simp add: Push pushRecentRange_def)
qed (use ok prefs_init_ok [OF assms(1)] in
    \<open>auto simp: setPrefs_ok recent_ok_def prefs_ok_def prefs_subscribe_def prefs_unsubscribe_def\<close>)

text \<open>With every write stored, the storage holds the state.\<close>

fun stored_op :: "prefs_op \<Rightarrow> bool" where
  "stored_op (Change _ _ _ b) = b"
| "stored_op (Push _ _ b) = b"
| "stored_op _ = True"

definition pushes :: "prefs_op list \<Rightarrow> TimeSpan list" where
  "pushes ops = concat (map (\<lambda>p. case p of Push frm to b \<Rightarrow> [(frm, to)] | _ \<Rightarrow> []) ops)"

lemma prefs_step_stored:
  assumes "json_laws stringify parse" and "load parse (Inr (pm_storage s)) = pm_state s" and "stored_op op"
  shows "load parse (Inr (pm_storage (prefs_step stringify parse op s))) = pm_state (prefs_step stringify parse op s)"
  using assms load_stored [OF assms(1)]
  by (cases op) (simp_all add: pushRecentRange_def prefs_subscribe_def prefs_unsubscribe_def prefs_init_def)

lemma prefs_run_snoc:
  "prefs_run stringify parse (ops @ [op]) = prefs_step stringify parse op (prefs_run stringify parse ops)"
  by (simp add: prefs_run_def)

lemma prefs_run_ok: "json_laws stringify parse \<Longrightarrow> prefs_ok stringify (prefs_run stringify parse ops)"
  by (induction ops rule: rev_induct)
    (simp_all add: prefs_run_snoc prefs_step_ok, simp add: prefs_run_def prefs_init_ok)

lemma prefs_run_stored:
  assumes laws: "json_laws stringify parse"
  shows "list_all stored_op ops \<Longrightarrow>
    load parse (Inr (pm_storage (prefs_run stringify parse ops))) = pm_state (prefs_run stringify parse ops) \<and>
    pf_recentRanges (pm_state (prefs_run stringify parse ops)) = take 6 (uniq (rev (pushes ops)))"
proof (induction ops rule: rev_induct)
  case Nil
  show ?case by (simp add: prefs_run_def prefs_init_def PREFS_DEFAULTS_def pushes_def)
next
  case (snoc op ops)
  let ?s = "prefs_run stringify parse ops"
  from snoc have IH: "load parse (Inr (pm_storage ?s)) = pm_state ?s"
    "pf_recentRanges (pm_state ?s) = take 6 (uniq (rev (pushes ops)))" and op: "stored_op op" by simp_all
  have "pf_recentRanges (pm_state (prefs_step stringify parse op ?s)) = take 6 (uniq (rev (pushes (ops @ [op]))))"
  proof (cases op)
    case (Push frm to b)
    then show ?thesis
      using recent_uniq [of "(frm, to)" "rev (pushes ops)"]
      by (simp add: pushRecentRange_recent IH(2) pushes_def del: take_Suc_Cons uniq.simps)
  qed (use IH in \<open>simp_all add: prefs_subscribe_def prefs_unsubscribe_def prefs_init_def pushes_def\<close>)
  then show ?case using prefs_step_stored [OF laws IH(1) op] by (simp add: prefs_run_snoc)
qed

section \<open>Facts about the shortcuts\<close>

lemma hotkey_run_append:
  "hotkey_run bindings (es @ fs) s =
     (let (s1, xs) = hotkey_run bindings es s; (s2, ys) = hotkey_run bindings fs s1 in (s2, xs @ ys))"
  by (induction es arbitrary: s) (simp_all add: case_prod_beta Let_def)

lemma length_hotkey_run [simp]: "length (snd (hotkey_run bindings es s)) = length es"
  by (induction es arbitrary: s) (simp_all add: case_prod_beta Let_def)

text \<open>A plain key was pressed and its timer has not run out since.\<close>

definition plain_key :: "KeyEvent \<Rightarrow> bool" where
  "plain_key e \<longleftrightarrow> \<not> ke_typing e \<and> \<not> ke_mod e"

definition awaiting :: "hotkey_event list \<Rightarrow> string \<Rightarrow> bool" where
  "awaiting es k \<longleftrightarrow>
     (\<exists>as e bs. es = as @ Key e # bs \<and> pressed e = k \<and> plain_key e \<and> Timeout \<notin> set bs)"

lemma awaiting_Key: "awaiting es k \<Longrightarrow> awaiting (es @ [Key e]) k"
  unfolding awaiting_def by (elim exE conjE) (rule exI, rule exI, rule_tac x = "bs @ [Key e]" in exI, simp)

lemma awaiting_new: "plain_key e \<Longrightarrow> awaiting (es @ [Key e]) (pressed e)"
  unfolding awaiting_def by (intro exI [of _ es] exI [of _ e] exI [of _ "[]"]) simp

definition awaits_inv :: "hotkey_event list \<Rightarrow> HotkeyState \<Rightarrow> bool" where
  "awaits_inv es s \<longleftrightarrow> (\<forall>k. hk_pending s = Some k \<longrightarrow> awaiting es k \<and> hk_timer s = Some 900)"

lemma onKey_inv: "awaits_inv es s \<Longrightarrow> awaits_inv (es @ [Key e]) (fst (onKey bindings e s))"
  by (auto simp: onKey_def awaits_inv_def awaiting_Key awaiting_new plain_key_def split: option.splits prod.splits)

lemma hotkey_run_inv: "awaits_inv es (fst (hotkey_run bindings es hotkeys_init))"
proof (induction es rule: rev_induct)
  case (snoc x es)
  have "fst (hotkey_run bindings (es @ [x]) hotkeys_init) =
      fst (hotkey_step bindings x (fst (hotkey_run bindings es hotkeys_init)))"
    by (simp add: hotkey_run_append case_prod_beta Let_def)
  then show ?case
    using snoc onKey_inv [of es "fst (hotkey_run bindings es hotkeys_init)"]
    by (cases x) (auto simp: sequence_timeout_def awaits_inv_def)
qed (simp add: awaits_inv_def hotkeys_init_def)

lemma hotkey_run_nth:
  assumes "i < length es"
  shows "snd (hotkey_run bindings es s) ! i = snd (hotkey_step bindings (es ! i) (fst (hotkey_run bindings (take i es) s)))"
proof -
  have "es = take i es @ [es ! i] @ drop (Suc i) es"
    using assms by (simp add: id_take_nth_drop [symmetric])
  then have "snd (hotkey_run bindings es s) = snd (hotkey_run bindings (take i es @ [es ! i] @ drop (Suc i) es) s)"
    by simp
  also have "\<dots> ! i = snd (hotkey_step bindings (es ! i) (fst (hotkey_run bindings (take i es) s)))"
    using assms by (simp add: hotkey_run_append case_prod_beta Let_def nth_append)
  finally show ?thesis .
qed

text \<open>Alt keeps a plain shortcut from reacting, but a key pressed with it still starts a sequence.\<close>

definition plain_press :: "string \<Rightarrow> hotkey_event" where
  "plain_press k = Key \<lparr>ke_key = k, ke_mod = False, ke_alt = False, ke_typing = False\<rparr>"

lemma alt_starts_sequence:
  "snd (hotkey_run [(''g d'', 0)] [Key \<lparr>ke_key = ''g'', ke_mod = False, ke_alt = True, ke_typing = False\<rparr>, plain_press ''d'']
     hotkeys_init) = [None, Some (''g d'', 0)]"
  by code_simp

text \<open>Every user of the hook has a listener of its own. The second key of the shell's \<open>g t\<close> is also the explorer's \<open>t\<close>,
  so that both react.\<close>

lemma sequence_also_fires_single_key:
  "snd (hotkey_run [(''g t'', 0)] [plain_press ''g'', plain_press ''t''] hotkeys_init) ! 1 = Some (''g t'', 0) \<and>
   snd (hotkey_run [(''t'', 1)] [plain_press ''g'', plain_press ''t''] hotkeys_init) ! 1 = Some (''t'', 1)"
  by code_simp

section \<open>Properties\<close>

text \<open>C21. Through any life of the page the recent ranges are at most six, without repetitions, every subscriber is kept
  once and the document shows the theme in force; and as long as the storage takes every write, they are the six ranges
  used last, the latest first, and loading the page again gives the same preferences.\<close>

theorem preferences_kept:
  assumes "json_laws stringify parse" and "s = prefs_run stringify parse ops"
  shows "prefs_ok stringify s \<and>
    (list_all stored_op ops \<longrightarrow>
       pf_recentRanges (pm_state s) = take 6 (uniq (rev (pushes ops))) \<and>
       pm_state (prefs_step stringify parse Reload s) = pm_state s)"
  using prefs_run_ok [OF assms(1)] prefs_run_stored [OF assms(1), of ops] assms(2)
  by (simp add: prefs_init_def)

text \<open>A text format for the preferences: a tag and its parts, each as long as a count of dots says.\<close>

definition dotted :: "string \<Rightarrow> string" where
  "dotted s = replicate (length s) (CHR ''.'') @ ''|'' @ s"

definition undot :: "string \<Rightarrow> string \<times> string" where
  "undot t = (let n = length (takeWhile (\<lambda>c. c = CHR ''.'') t); r = drop (Suc n) t in (take n r, drop n r))"

lemma undot_dotted: "undot (dotted s @ r) = (s, r)"
proof -
  have "takeWhile (\<lambda>c. c = CHR ''.'') (replicate n (CHR ''.'') @ CHR ''|'' # q) = replicate n (CHR ''.'')" for n q
    by (induction n) simp_all
  then show ?thesis by (simp add: undot_def dotted_def Let_def)
qed

fun write_spans :: "TimeSpan list \<Rightarrow> string" where
  "write_spans [] = ''''"
| "write_spans ((a, b) # rs) = dotted a @ dotted b @ write_spans rs"

fun read_spans :: "nat \<Rightarrow> string \<Rightarrow> TimeSpan list" where
  "read_spans 0 t = []"
| "read_spans (Suc n) t = (if t = [] then [] else (let (a, u) = undot t; (b, v) = undot u in (a, b) # read_spans n v))"

lemma read_write_spans: "length rs \<le> n \<Longrightarrow> read_spans n (write_spans rs) = rs"
proof (induction rs arbitrary: n)
  case Nil
  then show ?case by (cases n) simp_all
next
  case (Cons r rs)
  then show ?case by (cases n; cases r) (simp_all add: undot_dotted, simp add: dotted_def)
qed

lemma length_write_spans: "length rs \<le> length (write_spans rs)"
  by (induction rs rule: write_spans.induct) (simp_all add: dotted_def)

definition prefs_text :: "Prefs \<Rightarrow> string" where
  "prefs_text p =
     (if pf_theme p = Dark then CHR ''d'' else CHR ''l'') # (if pf_sidebarCollapsed p then CHR ''c'' else CHR ''o'') #
       dotted (pf_timezone p) @ write_spans (pf_recentRanges p)"

definition prefs_of_text :: "string \<Rightarrow> PrefsPatch option" where
  "prefs_of_text t =
     (let (tz, spans) = undot (drop 2 t)
      in Some \<lparr>pp_theme = Some (if t ! 0 = CHR ''d'' then Dark else Light), pp_timezone = Some tz,
            pp_sidebarCollapsed = Some (t ! 1 = CHR ''c''), pp_recentRanges = Some (read_spans (length t) spans)\<rparr>)"

lemma sample_json_laws: "json_laws prefs_text prefs_of_text"
proof -
  have "prefs_of_text (prefs_text p) = Some (whole_patch p)" for p
    using length_write_spans [of "pf_recentRanges p"]
    by (cases "pf_theme p") (simp_all add: prefs_of_text_def prefs_text_def undot_dotted whole_patch_def read_write_spans del: read_spans.simps)
  then show ?thesis by (simp add: json_laws_def prefs_text_def)
qed

theorem preferences_kept_witness:
  "let ops = [Push ''now-1h'' ''now'' True, Change (Some Light) None None True, Push ''now-6h'' ''now'' True,
       Push ''now-1h'' ''now'' True, Reload];
     s = prefs_run prefs_text prefs_of_text ops
   in prefs_ok prefs_text s \<and>
      pf_recentRanges (pm_state s) = [(''now-1h'', ''now''), (''now-6h'', ''now'')]"
  using preferences_kept [OF sample_json_laws refl, of
      "[Push ''now-1h'' ''now'' True, Change (Some Light) None None True, Push ''now-6h'' ''now'' True,
       Push ''now-1h'' ''now'' True, Reload]"]
  by (simp add: pushes_def)

text \<open>C22. A shortcut reacts to a key only if it is bound and its key is the one pressed. In a text field, or with Alt or
  Ctrl held, only the \<open>mod+\<close> combinations react, and those only with Ctrl held; the second key of a sequence reacts only
  after its first key was pressed, outside a text field and without Ctrl, and the timer has not run out since.\<close>

theorem hotkeys_safe:
  assumes "i < length es" and "snd (hotkey_run bindings es hotkeys_init) ! i = Some (combo, handler)"
  shows "\<exists>e. es ! i = Key e \<and> (combo, handler) \<in> set bindings \<and>
    (is_mod_combo combo \<and> ke_mod e \<and> combo = ''mod+'' @ pressed e \<or>
     plain_key e \<and> \<not> ke_alt e \<and>
       (is_sequence combo \<and> awaiting (take i es) (fst (sequence_keys combo)) \<and> pressed e = snd (sequence_keys combo) \<or>
        combo = pressed e \<or> combo = ''?'' \<and> ke_key e = ''?''))"
proof -
  let ?s = "fst (hotkey_run bindings (take i es) hotkeys_init)"
  have fired: "snd (hotkey_step bindings (es ! i) ?s) = Some (combo, handler)"
    using assms by (simp add: hotkey_run_nth)
  then obtain e where e: "es ! i = Key e" by (cases "es ! i") simp_all
  with fired have "List.find (\<lambda>b. reacts ?s e (fst b)) bindings = Some (combo, handler)"
    by (simp add: onKey_def split: option.splits prod.splits)
  then have "(combo, handler) \<in> set bindings" and "reacts ?s e combo"
    by (fastforce simp: find_Some_iff dest: sym)+
  moreover have "hk_pending ?s = Some k \<Longrightarrow> awaiting (take i es) k" for k
    using hotkey_run_inv [of "take i es" bindings] by (simp add: awaits_inv_def)
  moreover have "is_mod_combo combo \<Longrightarrow> combo = ''mod+'' @ drop 4 combo"
    using append_take_drop_id [of 4 combo] by (simp add: is_mod_combo_def startsWith_def eval_nat_numeral)
  ultimately show ?thesis
    using e by (auto simp: reacts_def plain_key_def split: if_splits)
qed

lemma g_d_sample:
  "snd (hotkey_run [(''g d'', 7)] [plain_press ''g'', plain_press ''d''] hotkeys_init) ! 1 = Some (''g d'', 7)"
  "\<not> is_mod_combo ''g d''" "fst (sequence_keys ''g d'') = ''g''"
  by code_simp+

lemma pressed_short: "length (ke_key e) = 1 \<Longrightarrow> length (pressed e) = 1"
  by (simp add: pressed_def toLowerCase_def)

theorem hotkeys_safe_witness:
  "snd (hotkey_run [(''g d'', 7)] [plain_press ''g'', plain_press ''d''] hotkeys_init) ! 1 = Some (''g d'', 7) \<and>
   awaiting [plain_press ''g''] ''g''"
proof -
  have "pressed \<lparr>ke_key = ''d'', ke_mod = False, ke_alt = False, ke_typing = False\<rparr> \<noteq> ''g d''"
    using pressed_short [of "\<lparr>ke_key = ''d'', ke_mod = False, ke_alt = False, ke_typing = False\<rparr>"] by auto
  then show ?thesis
    using hotkeys_safe [of 1 "[plain_press ''g'', plain_press ''d'']" "[(''g d'', 7)]" "''g d''" 7] g_d_sample
    by (auto simp: plain_press_def)
qed
end
