(* ===== verification/Assistant.thy ===== *)
theory Assistant
  imports Url_State Lib_Text Api_Queries
begin

text \<open>
  The log assistant: \<open>src/frontend/src/features/assistant/assistant.ts\<close> and the state of
  \<open>src/frontend/src/features/assistant/AskPanel.tsx\<close>. What pressing run does to the explorer is shown in the theory of
  the explorer's page.
\<close>

section \<open>Data\<close>

record AssistantStatus =
  as_enabled :: bool
  as_ready :: bool
  as_model :: "string option"
  as_problem :: "string option"

record AssistantProposal =
  ap_filter :: "FilterExpr option"
  ap_time_range :: "TimeRange option"
  ap_reasoning :: string
  ap_fields :: "string list"
  ap_model :: string
  ap_took_ms :: nat

record AssistantDecline =
  ad_reason :: string
  ad_fields_seen :: nat

datatype AssistantAnswer = Proposal AssistantProposal | Decline AssistantDecline

section \<open>The status\<close>

definition assistantUsable :: "AssistantStatus option \<Rightarrow> bool" where
  "assistantUsable status = (case status of None \<Rightarrow> False | Some s \<Rightarrow> as_enabled s \<and> as_ready s)"

definition assistantProblem :: "AssistantStatus option \<Rightarrow> string option" where
  "assistantProblem status =
     (case status of
        None \<Rightarrow> None
      | Some s \<Rightarrow> if assistantUsable status then None else nonempty (trim (orElse (as_problem s) [])))"

definition modelName :: "string option \<Rightarrow> string" where
  "modelName model = orElse (nonempty (trim (orElse model []))) ''the model''"

text \<open>\<^const>\<open>None\<close> for a number that is not finite.\<close>

definition tookLabel :: "rat option \<Rightarrow> string" where
  "tookLabel ms =
     (case ms of
        None \<Rightarrow> []
      | Some m \<Rightarrow>
          if m < 0 then []
          else if m < 1000 then show_int (Math_round m) @ '' ms''
          else toFixed 1 (m / 1000) @ '' s'')"

section \<open>Proposals\<close>

definition proposalTerms :: "FilterExpr option \<Rightarrow> FilterExpr list" where
  "proposalTerms f = andTerms f"

definition proposalFilterText :: "FilterExpr option \<Rightarrow> string" where
  "proposalFilterText f = formatFilter f"

definition proposalRangeLabel :: "(string \<Rightarrow> int option) \<Rightarrow> TimeRange option \<Rightarrow> (int option \<Rightarrow> string) \<Rightarrow> string" where
  "proposalRangeLabel parse_date rng formatAbsolute =
     (case rng of
        None \<Rightarrow> ''the time range on the page''
      | Some r \<Rightarrow>
          if tr_from r = [] \<or> tr_to r = [] then ''the time range on the page''
          else rangeLabel parse_date (tr_from r) (tr_to r) formatAbsolute)"

text \<open>A partial search: the entries it sets, \<^const>\<open>None\<close> for those it sets to \<open>undefined\<close>.\<close>

definition proposalPatch :: "AssistantProposal \<Rightarrow> string option entries" where
  "proposalPatch p =
     [(''q'', nonempty (proposalFilterText (ap_filter p))), (''from'', map_option tr_from (ap_time_range p)),
      (''to'', map_option tr_to (ap_time_range p)), (''mode'', Some ''visual''), (''native'', None)]"

definition proposalReplaces :: "FilterExpr option \<Rightarrow> string \<Rightarrow> string option" where
  "proposalReplaces current native =
     (let terms = length (andTerms current);
          parts = (if 0 < terms then [if terms = 1 then ''the filter'' else ''the '' @ show_nat terms @ '' filters''] else []) @
            (if trim native \<noteq> [] then [''the LogsQL query''] else [])
      in if parts = [] then None else Some (''Running this replaces '' @ join '' and '' parts @ '' in the query bar.''))"

section \<open>Declines\<close>

definition drop_final_dot :: "string \<Rightarrow> string" where
  "drop_final_dot s = (if s \<noteq> [] \<and> last s = CHR ''.'' then butlast s else s)"

definition lower_first :: "string \<Rightarrow> string" where
  "lower_first s = (case s of [] \<Rightarrow> [] | c # cs \<Rightarrow> toLowerCase [c] @ cs)"

definition declineSentence :: "string \<Rightarrow> string" where
  "declineSentence reason =
     (let r = drop_final_dot (trim reason);
          lowered = (case r of c # d # _ \<Rightarrow> if is_upper c \<and> is_lower d then lower_first r else r | _ \<Rightarrow> r)
      in if r = [] then ''These logs can'' @ RSQUO @ ''t answer that, and the model did not say why.''
         else ''These logs can'' @ RSQUO @ ''t answer that, because '' @ lowered @ ''.'')"

definition fieldsSeenNote :: "int option \<Rightarrow> string" where
  "fieldsSeenNote fieldsSeen =
     (case fieldsSeen of
        None \<Rightarrow> ''No fields were available to the model.''
      | Some n \<Rightarrow>
          if n \<le> 0 then ''No fields were available to the model.''
          else if n = 1 then ''One field from these logs was offered to the model.''
          else show_int n @ '' fields from these logs were offered to the model.'')"

definition isProposal :: "AssistantAnswer option \<Rightarrow> bool" where
  "isProposal answer = (case answer of Some (Proposal p) \<Rightarrow> True | _ \<Rightarrow> False)"

section \<open>Explanations\<close>

definition explainSubject ::
  "(string \<Rightarrow> int option) \<Rightarrow> string \<Rightarrow> string \<times> string \<Rightarrow> (int option \<Rightarrow> string) \<Rightarrow> string option \<Rightarrow> string" where
  "explainSubject parse_date analysis rng formatAbsolute narrowedTo =
     (let window = rangeLabel parse_date (fst rng) (snd rng) formatAbsolute;
          n = trim (orElse narrowedTo []);
          scope = (if n \<noteq> [] then '', narrowed to '' @ n else [])
      in analysis @ '', '' @ lower_first window @ scope)"

definition explainCaveat :: "string option \<Rightarrow> string" where
  "explainCaveat model =
     modelName model @ '' wrote this from the figures already on this page. It describes them '' @ EMDASH @
     '' it did not measure '' @
     ''anything and may describe them wrongly. The numbers beside it are what Syslogc computed.''"

definition reasoningCaveat :: "string option \<Rightarrow> string" where
  "reasoningCaveat model =
     modelName model @ RSQUO @ ''s own words about the filter it proposed. Nothing has been run yet.''"

section \<open>Failures\<close>

text \<open>\<^const>\<open>None\<close> for a thrown value that is no \<open>Error\<close>.\<close>

definition assistantErrorText :: "HookError option \<Rightarrow> string" where
  "assistantErrorText error =
     (case error of
        Some (Api_error e) \<Rightarrow>
          if ae_code e = Some ''not_configured''
          then orElse (nonempty (ae_message e)) ''The assistant is not configured on this server.''
          else if ae_code e = Some ''assistant_failed''
          then orElse (nonempty (ae_message e))
            ''The model did not answer. It may be loading or the host may be busy; try again.''
          else ae_message e
      | Some (Other_error m) \<Rightarrow> m
      | None \<Rightarrow> ''The request did not complete.'')"

definition assistantRetryable :: "HookError option \<Rightarrow> bool" where
  "assistantRetryable error \<longleftrightarrow>
     \<not> (case error of Some (Api_error e) \<Rightarrow> ae_code e = Some ''not_configured'' | _ \<Rightarrow> False)"

definition questionIsAskable :: "string \<Rightarrow> bool" where
  "questionIsAskable question \<longleftrightarrow> 3 \<le> length (trim question)"

section \<open>The question box\<close>

text \<open>The answer shown and whether the last question is still being asked. \<open>submit\<close> gives the question it sends.\<close>

record AskPanel =
  ask_question :: string
  ask_answer :: "AssistantAnswer option"
  ask_pending :: bool

definition ask_submit :: "AskPanel \<Rightarrow> AskPanel \<times> string option" where
  "ask_submit s =
     (if \<not> questionIsAskable (ask_question s) \<or> ask_pending s then (s, None)
      else (s\<lparr>ask_answer := None, ask_pending := True\<rparr>, Some (trim (ask_question s))))"

definition ask_onSuccess :: "AssistantAnswer \<Rightarrow> AskPanel \<Rightarrow> AskPanel" where
  "ask_onSuccess res s = s\<lparr>ask_answer := Some res, ask_pending := False\<rparr>"

text \<open>What the panel offers to run.\<close>

definition ask_runnable :: "AskPanel \<Rightarrow> AssistantProposal option" where
  "ask_runnable s =
     (case ask_answer s of Some (Proposal p) \<Rightarrow> if ask_pending s then None else Some p | _ \<Rightarrow> None)"

section \<open>Facts\<close>

text \<open>A question is never asked twice at the same time, and what is offered to run is the answer to the last one asked.\<close>

lemma ask_submit_once: "snd (ask_submit (fst (ask_submit s))) = None \<or> snd (ask_submit s) = None"
  by (simp add: ask_submit_def)

lemma ask_runnable_answered: "snd (ask_submit s) \<noteq> None \<Longrightarrow> ask_runnable (fst (ask_submit s)) = None"
  by (simp add: ask_submit_def ask_runnable_def split: if_splits)

text \<open>A problem is shown only when the assistant is not offered.\<close>

lemma assistantProblem_usable: "assistantProblem (Some s) \<noteq> None \<Longrightarrow> \<not> assistantUsable (Some s)"
  by (simp add: assistantProblem_def split: if_splits)

text \<open>What the panel warns about is what running clears: the filter's terms and the native query.\<close>

lemma andTerms_Nil: "andTerms f = [] \<longleftrightarrow> f = None \<or> f = Some (BoolExpr And [])"
  by (cases f; cases "the f") (auto simp: andTerms_def split: BoolOp.splits)

lemma proposalReplaces_None:
  "proposalReplaces current native = None \<longleftrightarrow> (current = None \<or> current = Some (BoolExpr And [])) \<and> trim native = []"
  by (simp add: proposalReplaces_def Let_def andTerms_Nil)

end
