(* ===== verification/Filter_Semantics.thy ===== *)
theory Filter_Semantics
  imports Filter_Roundtrip Log_Fields Js_Numbers
begin

text \<open>
  What a filter selects, and the operations that edit one. The evaluator is \<open>matchFilter\<close> of
  \<open>src/frontend/src/mocks/data.ts\<close>; the editing operations are \<open>negate\<close>, \<open>combineAnd\<close> and
  \<open>andTerms\<close> of \<open>src/frontend/src/lib/filter-text.ts\<close>, \<open>addValueFilter\<close> of
  \<open>src/frontend/src/lib/filter-actions.ts\<close>, the chips of
  \<open>src/frontend/src/features/explorer/filter-chip.ts\<close> and the builder of
  \<open>src/frontend/src/features/explorer/filter-builder-logic.ts\<close>.

  The regular expression engine is a parameter: \<open>regexp pattern subject\<close> is \<^const>\<open>None\<close> when
  \<open>new RegExp(pattern)\<close> throws and otherwise the result of \<open>test\<close>.
\<close>

section \<open>The evaluator\<close>

text \<open>\<open>/^(\d+)\.(\d+)\.(\d+)\.(\d+)$/\<close> and the fold over its groups.\<close>

definition ipv4ToInt :: "string \<Rightarrow> nat option" where
  "ipv4ToInt s =
     (let parts = split_on (\<lambda>c. c = CHR ''.'') s in
      if length parts = 4 \<and> list_all all_digits parts
      then Some (foldl (\<lambda>n p. n * 256 + read_nat p) 0 parts) else None)"

definition cidr_mask :: "JsNum \<Rightarrow> 32 word" where
  "cidr_mask bits = (if bits = Num 0 then 0 else shl32 (NOT 0) (js_minus (Num 32) bits))"

definition cidr_match :: "string \<Rightarrow> string \<Rightarrow> bool" where
  "cidr_match v spec =
     (let parts = split_on (\<lambda>c. c = CHR ''/'') spec;
          n = ipv4ToInt (hd parts);
          x = ipv4ToInt v;
          bits = (if length parts < 2 then Num 32 else Number (parts ! 1))
      in case n of
           None \<Rightarrow> False
         | Some n' \<Rightarrow>
             (case x of
                None \<Rightarrow> False
              | Some x' \<Rightarrow>
                  (of_nat n' AND cidr_mask bits) = (of_nat x' AND cidr_mask bits)))"

definition field_text :: "LogRow \<Rightarrow> string \<Rightarrow> string" where
  "field_text row f = (case getField row f of None \<Rightarrow> [] | Some v \<Rightarrow> v)"

fun value_match :: "(string \<Rightarrow> string \<Rightarrow> bool option) \<Rightarrow> FieldValueOp \<Rightarrow> string \<Rightarrow> string \<Rightarrow> bool" where
  "value_match regexp Eq v x = (v = x)"
| "value_match regexp Ne v x = (v \<noteq> x)"
| "value_match regexp Contains v x = str_includes (toLowerCase v) (toLowerCase x)"
| "value_match regexp Starts_with v x = startsWith v x"
| "value_match regexp Regex v x = (case regexp x v of None \<Rightarrow> False | Some b \<Rightarrow> b)"
| "value_match regexp Gt v x = js_less (Number x) (Number v)"
| "value_match regexp Gte v x = js_le (Number x) (Number v)"
| "value_match regexp Lt v x = js_less (Number v) (Number x)"
| "value_match regexp Lte v x = js_le (Number v) (Number x)"
| "value_match regexp Cidr v x = cidr_match v x"

definition row_message :: "LogRow \<Rightarrow> string" where
  "row_message row =
     (case map_of (row_props row) ''message'' of
        None \<Rightarrow> [] | Some v \<Rightarrow> if v = JNull then [] else js_String v)"

fun matchFilter :: "(string \<Rightarrow> string \<Rightarrow> bool option) \<Rightarrow> LogRow \<Rightarrow> FilterExpr \<Rightarrow> bool" where
  "matchFilter regexp row (BoolExpr And args) = list_all (matchFilter regexp row) args"
| "matchFilter regexp row (BoolExpr Or args) = list_ex (matchFilter regexp row) args"
| "matchFilter regexp row (NotExpr arg) = (\<not> matchFilter regexp row arg)"
| "matchFilter regexp row (TextExpr v) = str_includes (toLowerCase (row_message row)) (toLowerCase v)"
| "matchFilter regexp row (FieldExistsExpr Exists f) = (field_text row f \<noteq> [])"
| "matchFilter regexp row (FieldExistsExpr Not_exists f) = (field_text row f = [])"
| "matchFilter regexp row (FieldValuesExpr In f vs) = (field_text row f \<in> set vs)"
| "matchFilter regexp row (FieldValuesExpr Not_in f vs) = (field_text row f \<notin> set vs)"
| "matchFilter regexp row (FieldValueExpr op f x) = value_match regexp op (field_text row f) x"

section \<open>Editing a filter\<close>

definition opposite_term :: "string \<Rightarrow> string \<Rightarrow> FilterExpr \<Rightarrow> bool" where
  "opposite_term field v t =
     (case t of
        FieldValueExpr op f x \<Rightarrow> (op = Eq \<or> op = Ne) \<and> f = field \<and> x = v
      | _ \<Rightarrow> False)"

definition addValueFilter :: "FilterExpr option \<Rightarrow> string \<Rightarrow> string \<Rightarrow> bool \<Rightarrow> FilterExpr option" where
  "addValueFilter flt field v exclude =
     (let terms = filter (\<lambda>t. \<not> opposite_term field v t) (andTerms flt) in
      combineAnd (terms @ [FieldValueExpr (if exclude then Ne else Eq) field v]))"

definition filterExcludes :: "FilterExpr \<Rightarrow> bool" where
  "filterExcludes t =
     (case t of
        NotExpr _ \<Rightarrow> True
      | FieldValueExpr op _ _ \<Rightarrow> op = Ne
      | FieldValuesExpr op _ _ \<Rightarrow> op = Not_in
      | FieldExistsExpr op _ \<Rightarrow> op = Not_exists
      | _ \<Rightarrow> False)"

text \<open>The class list before \<open>cn\<close> (clsx and tailwind-merge) joins it; none of its classes conflict.\<close>

definition filterChipClass :: "FilterExpr \<Rightarrow> string" where
  "filterChipClass t =
     ''inline-flex max-w-full items-center gap-1 rounded border text-sm'' @ '' '' @
     (if filterExcludes t then ''border-danger/40 bg-danger/10'' else ''border-accent/40 bg-accent-muted'')"

definition NO_VALUE :: "BuilderOp list" where
  "NO_VALUE = [FE Exists, FE Not_exists]"

definition LIST_OPS :: "BuilderOp list" where
  "LIST_OPS = [FVS In, FVS Not_in]"

definition isSimpleTerm :: "FilterExpr \<Rightarrow> bool" where
  "isSimpleTerm e = (case e of BoolExpr _ _ \<Rightarrow> False | NotExpr _ \<Rightarrow> False | TextExpr _ \<Rightarrow> False | _ \<Rightarrow> True)"

text \<open>\<open>/^[\da-fA-F:.]+\/\d{1,3}$/\<close>: the class has no slash, so the split is at the only one.\<close>

definition cidr_char :: "char \<Rightarrow> bool" where
  "cidr_char c \<longleftrightarrow> is_digit c \<or> c \<in> set ''abcdefABCDEF:.''"

definition CIDR_RE :: "string \<Rightarrow> bool" where
  "CIDR_RE s =
     (case split_on (\<lambda>c. c = CHR ''/'') s of
        [a, b] \<Rightarrow> a \<noteq> [] \<and> list_all cidr_char a \<and> all_digits b \<and> length b \<le> 3
      | _ \<Rightarrow> False)"

fun buildExpr :: "(string \<Rightarrow> bool) \<Rightarrow> string \<Rightarrow> BuilderOp \<Rightarrow> string \<Rightarrow> string + FilterExpr" where
  "buildExpr valid_regexp field (FE op) v =
     (if trim field = [] then Inl ''Choose a field.'' else Inr (FieldExistsExpr op (trim field)))"
| "buildExpr valid_regexp field (FVS op) v =
     (if trim field = [] then Inl ''Choose a field.''
      else (let values = split_list (\<lambda>c. c = CHR '','') v in
            if values = [] then Inl ''Enter at least one value (comma-separated).''
            else Inr (FieldValuesExpr op (trim field) values)))"
| "buildExpr valid_regexp field (FV op) v =
     (if trim field = [] then Inl ''Choose a field.''
      else if op \<in> {Gt, Gte, Lt, Lte} \<and> (trim v = [] \<or> Number v = NaN) then Inl ''Enter a number.''
      else if op = Regex \<and> \<not> valid_regexp v then Inl ''Invalid regular expression.''
      else if op = Cidr \<and> \<not> CIDR_RE (trim v) then Inl ''Enter a CIDR such as 10.0.0.0/8.''
      else Inr (FieldValueExpr op (trim field) v))"

section \<open>The contract of an evaluator\<close>

text \<open>A filter that is absent selects every row.\<close>

definition selects :: "('row \<Rightarrow> FilterExpr \<Rightarrow> bool) \<Rightarrow> 'row \<Rightarrow> FilterExpr option \<Rightarrow> bool" where
  "selects sat r e = (case e of None \<Rightarrow> True | Some f \<Rightarrow> sat r f)"

text \<open>What every evaluator of filter ASTs promises, whatever it evaluates them over: the boolean
  connectives are the boolean connectives, and the paired operators are complements.\<close>

locale filter_semantics =
  fixes sat :: "'row \<Rightarrow> FilterExpr \<Rightarrow> bool"
  assumes sat_And: "sat r (BoolExpr And args) \<longleftrightarrow> (\<forall>a \<in> set args. sat r a)"
    and sat_Or: "sat r (BoolExpr Or args) \<longleftrightarrow> (\<exists>a \<in> set args. sat r a)"
    and sat_Not: "sat r (NotExpr a) \<longleftrightarrow> \<not> sat r a"
    and sat_Ne: "sat r (FieldValueExpr Ne f v) \<longleftrightarrow> \<not> sat r (FieldValueExpr Eq f v)"
    and sat_Not_in: "sat r (FieldValuesExpr Not_in f vs) \<longleftrightarrow> \<not> sat r (FieldValuesExpr In f vs)"
    and sat_Not_exists: "sat r (FieldExistsExpr Not_exists f) \<longleftrightarrow> \<not> sat r (FieldExistsExpr Exists f)"
begin

lemma negate_complement: "sat r (negate e) \<longleftrightarrow> \<not> sat r e"
  by (cases e rule: negate.cases) (simp_all add: sat_Not sat_Ne sat_Not_in sat_Not_exists)

lemma flatten_arg_And: "(\<forall>b \<in> set (flatten_arg And a). sat r b) \<longleftrightarrow> sat r a"
  by (cases a) (auto simp: flatten_arg_def sat_And)

lemma flatten_And: "sat r (flatten And args) \<longleftrightarrow> (\<forall>a \<in> set args. sat r a)"
  using flatten_arg_And [of _ r] by (simp add: flatten_def sat_And)

lemma andTerms_sat: "selects sat r e \<longleftrightarrow> (\<forall>t \<in> set (andTerms e). sat r t)"
  by (auto simp: selects_def andTerms_def sat_And split: option.split FilterExpr.split)

lemma combineAnd_sat: "selects sat r (combineAnd ts) \<longleftrightarrow> (\<forall>t \<in> set ts. sat r t)"
  by (auto simp: selects_def combineAnd_def flatten_And split: list.split)

lemma addValueFilter_sat:
  "selects sat r (addValueFilter flt f v ex) \<longleftrightarrow>
     (sat r (FieldValueExpr Eq f v) \<longleftrightarrow> \<not> ex) \<and>
     (\<forall>t \<in> set (andTerms flt). opposite_term f v t \<or> sat r t)"
  by (auto simp: addValueFilter_def Let_def combineAnd_sat sat_Ne)

end

interpretation mf: filter_semantics "matchFilter regexp"
  by unfold_locales (simp_all add: list_all_iff list_ex_iff)

section \<open>Editing keeps filters canonical\<close>

lemma andTerms_canonical: "(\<forall>e \<in> set_option flt. canonical e) \<Longrightarrow> t \<in> set (andTerms flt) \<Longrightarrow> canonical t \<and> \<not> is_bool And t"
proof (cases flt)
  case (Some e)
  assume "\<forall>e \<in> set_option flt. canonical e" and "t \<in> set (andTerms flt)"
  with Some show ?thesis
    by (cases e) (auto simp: andTerms_def list_all_iff is_bool_def split: if_splits)
qed (simp add: andTerms_def)

lemma combineAnd_canonical:
  assumes "\<forall>t \<in> set ts. canonical t \<and> \<not> is_bool And t" and "combineAnd ts = Some e"
  shows "canonical e" and "andTerms (Some e) = ts"
proof -
  consider (one) t where "ts = [t]" "e = t"
    | (many) "2 \<le> length ts" "e = BoolExpr And ts"
    using assms(2) flatten_id [of And ts] assms(1)
    by (auto simp: combineAnd_def list_all_iff split: list.splits)
  then have "canonical e \<and> andTerms (Some e) = ts"
  proof cases
    case one
    with assms(1) show ?thesis
      by (cases e) (auto simp: andTerms_def is_bool_def)
  next
    case many
    with assms(1) show ?thesis by (auto simp: andTerms_def list_all_iff)
  qed
  then show "canonical e" and "andTerms (Some e) = ts" by blast+
qed

lemma addValueFilter_terms:
  assumes "\<forall>e \<in> set_option flt. canonical e" and "f \<noteq> []"
  shows "\<exists>e. addValueFilter flt f v ex = Some e \<and> canonical e \<and>
    andTerms (Some e) = filter (\<lambda>t. \<not> opposite_term f v t) (andTerms flt) @
      [FieldValueExpr (if ex then Ne else Eq) f v]"
proof -
  let ?ts = "filter (\<lambda>t. \<not> opposite_term f v t) (andTerms flt) @ [FieldValueExpr (if ex then Ne else Eq) f v]"
  have terms: "\<forall>t \<in> set ?ts. canonical t \<and> \<not> is_bool And t"
    using andTerms_canonical [OF assms(1)] assms(2) by (auto simp: is_bool_def)
  have "\<exists>e. combineAnd ?ts = Some e"
    by (auto simp: combineAnd_def split: list.split)
  then obtain e where e: "combineAnd ?ts = Some e" ..
  have "addValueFilter flt f v ex = Some e"
    by (simp only: addValueFilter_def Let_def e)
  then show ?thesis
    using combineAnd_canonical [OF terms e] by (intro exI [of _ e] conjI)
qed

section \<open>Properties\<close>

text \<open>Negating a term selects exactly the rows the term rejects, whether the negation is
  written with a complementary operator or with a \<open>not\<close> around the term.\<close>

lemma negate_selects_complement:
  "matchFilter regexp row (negate e) = (\<not> matchFilter regexp row e)"
  by (rule mf.negate_complement)

text \<open>C5. Adding a value filter selects the rows whose field has the value (or, excluding, has
  not) and that satisfy every other term; a term on the same field and value is replaced.\<close>

theorem addValueFilter_selects:
  "selects (matchFilter regexp) row (addValueFilter flt f v ex) \<longleftrightarrow>
     ((field_text row f = v) \<longleftrightarrow> \<not> ex) \<and>
     list_all (\<lambda>t. opposite_term f v t \<or> matchFilter regexp row t) (andTerms flt)"
  using mf.addValueFilter_sat [of regexp row flt f v ex] by (simp add: list_all_iff)

text \<open>C6. Clicking include and exclude on the same value in any order leaves what the last click
  alone would have left, and the filter stays canonical.\<close>

theorem addValueFilter_last_wins:
  assumes "canonical e" and "f \<noteq> []"
  shows "addValueFilter (addValueFilter (Some e) f v ex) f v ex' = addValueFilter (Some e) f v ex' \<and>
    (\<exists>e'. addValueFilter (Some e) f v ex = Some e' \<and> canonical e')"
proof -
  obtain e' where e': "addValueFilter (Some e) f v ex = Some e'" "canonical e'"
    and ts: "andTerms (Some e') = filter (\<lambda>t. \<not> opposite_term f v t) (andTerms (Some e)) @
      [FieldValueExpr (if ex then Ne else Eq) f v]"
    using addValueFilter_terms [of "Some e" f v ex] assms by auto
  have "filter (\<lambda>t. \<not> opposite_term f v t) (andTerms (Some e')) =
      filter (\<lambda>t. \<not> opposite_term f v t) (andTerms (Some e))"
    unfolding ts by (simp add: opposite_term_def)
  then have "addValueFilter (addValueFilter (Some e) f v ex) f v ex' = addValueFilter (Some e) f v ex'"
    unfolding e' by (simp only: addValueFilter_def)
  with e' show ?thesis by blast
qed

theorem addValueFilter_last_wins_witness:
  "addValueFilter (addValueFilter (Some (TextExpr ''x'')) ''a'' ''1'' True) ''a'' ''1'' False =
   addValueFilter (Some (TextExpr ''x'')) ''a'' ''1'' False"
  using addValueFilter_last_wins [of "TextExpr ''x''" "''a''" "''1''" True False] by simp

text \<open>Whatever the structured builder accepts is a simple canonical term, so its text parses
  back to the same term, and the builder can open it again.\<close>

lemma buildExpr_roundtrip:
  "buildExpr valid_regexp field op v = Inr e \<Longrightarrow>
     isSimpleTerm e \<and> canonical e \<and> parseFilter (formatFilter (Some e)) = Inr (Some e)"
proof -
  assume "buildExpr valid_regexp field op v = Inr e"
  then have "isSimpleTerm e \<and> canonical e"
    by (cases op) (auto simp: isSimpleTerm_def Let_def split: if_splits)
  then show ?thesis by (simp add: formatFilter_def parse_fmt)
qed

lemma buildExpr_roundtrip_witness:
  "buildExpr (\<lambda>p. True) '' host '' (FVS In) ''a, b,,'' = Inr (FieldValuesExpr In ''host'' [''a'', ''b'']) \<and>
   parseFilter (formatFilter (Some (FieldValuesExpr In ''host'' [''a'', ''b'']))) =
     Inr (Some (FieldValuesExpr In ''host'' [''a'', ''b'']))"
proof -
  have "buildExpr (\<lambda>p. True) '' host '' (FVS In) ''a, b,,'' = Inr (FieldValuesExpr In ''host'' [''a'', ''b''])"
    by code_simp
  with buildExpr_roundtrip [OF this] show ?thesis by blast
qed

end
