(* ===== verification/Explorer_Page.thy ===== *)
theory Explorer_Page
  imports Browser_State Assistant Filter_Semantics
begin

text \<open>
  The log explorer, \<open>src/frontend/src/features/explorer/ExplorerPage.tsx\<close>: its state, the handlers of its controls and
  shortcuts, and what they do to the search in the URL.

  The router is a parameter: \<open>rt_search\<close> is \<open>useSearch\<close>, \<open>rt_navigate\<close> is \<open>navigate\<close> with an update of the search. What the
  page relies on is \<open>router_laws\<close>: the search is what the route's schema makes of the URL, and after a navigation the URL
  is the updated search written with the functions the router was created with (\<open>src/frontend/src/app/router.tsx\<close>).
  The rows of the answer are arguments of the handlers that read them. The reset of the selected row when React sees
  another selection object is the step \<open>explorer_selection_changed\<close>.
\<close>

section \<open>The router\<close>

record 'r Router =
  rt_search :: "'r \<Rightarrow> string option entries"
  rt_navigate :: "(string option entries \<Rightarrow> string option entries) \<Rightarrow> bool \<Rightarrow> 'r \<Rightarrow> 'r"

definition validated :: "zod \<Rightarrow> string \<Rightarrow> string option entries" where
  "validated zod url = zod_object zod explorerSearchSchema (map (apsnd JStr) (parseSearchParams url))"

definition router_laws :: "zod \<Rightarrow> 'r Router \<Rightarrow> bool" where
  "router_laws zod R \<longleftrightarrow>
     (\<forall>r. \<exists>url. rt_search R r = validated zod url) \<and>
     (\<forall>f replace r. rt_search R (rt_navigate R f replace r) = validated zod (stringifySearchParams (f (rt_search R r))))"

definition entry :: "string option entries \<Rightarrow> string \<Rightarrow> string option" where
  "entry es k = Option.bind (map_of es k) id"

definition search_of :: "string option entries \<Rightarrow> ExplorerSearch" where
  "search_of es =
     \<lparr>es_from = orElse (entry es ''from'') [], es_to = orElse (entry es ''to'') [], es_tz = entry es ''tz'',
      es_q = entry es ''q'', es_native = entry es ''native'', es_mode = orElse (entry es ''mode'') [],
      es_cols = entry es ''cols'', es_split = entry es ''split'', es_saved = entry es ''saved''\<rparr>"

text \<open>\<open>{ ...prev, ...patch }\<close>.\<close>

definition spread_search :: "string option entries \<Rightarrow> string option entries \<Rightarrow> string option entries" where
  "spread_search prev patch = fold (\<lambda>(k, v). AList.update k v) patch prev"

section \<open>The page\<close>

record 'r Explorer =
  xp_router :: 'r
  xp_runId :: nat
  xp_refreshMs :: nat
  xp_selectedIndex :: "int option"
  xp_focusedColumn :: int
  xp_drawerOpen :: bool
  xp_histogramOpen :: bool
  xp_exportOpen :: bool
  xp_saveOpen :: bool
  xp_timeOpen :: bool
  xp_askOpen :: bool

definition explorer_init :: "'r \<Rightarrow> 'r Explorer" where
  "explorer_init r =
     \<lparr>xp_router = r, xp_runId = 0, xp_refreshMs = 0, xp_selectedIndex = None, xp_focusedColumn = 0, xp_drawerOpen = False,
      xp_histogramOpen = True, xp_exportOpen = False, xp_saveOpen = False, xp_timeOpen = False, xp_askOpen = False\<rparr>"

definition explorer_search :: "'r Router \<Rightarrow> 'r Explorer \<Rightarrow> ExplorerSearch" where
  "explorer_search R s = search_of (rt_search R (xp_router s))"

definition setSearch :: "'r Router \<Rightarrow> string option entries \<Rightarrow> bool \<Rightarrow> 'r Explorer \<Rightarrow> 'r Explorer" where
  "setSearch R patch replace s =
     s\<lparr>xp_router := rt_navigate R (\<lambda>prev. spread_search prev patch) replace (xp_router s)\<rparr>"

definition explorer_tz :: "'r Router \<Rightarrow> string \<Rightarrow> 'r Explorer \<Rightarrow> string" where
  "explorer_tz R displayTz s = orElse (es_tz (explorer_search R s)) displayTz"

definition explorer_query :: "'r Router \<Rightarrow> 'r Explorer \<Rightarrow> DecodedQuery" where
  "explorer_query R s = decodeQuery (es_q (explorer_search R s)) (es_native (explorer_search R s))"

definition explorer_columns :: "'r Router \<Rightarrow> 'r Explorer \<Rightarrow> string list" where
  "explorer_columns R s = parseColumns (es_cols (explorer_search R s))"

definition explorer_range ::
  "(string \<Rightarrow> int option) \<Rightarrow> (int \<Rightarrow> string \<Rightarrow> int option) \<Rightarrow> int \<Rightarrow> string \<Rightarrow> 'r Router \<Rightarrow> 'r Explorer \<Rightarrow>
     string + int option \<times> int option" where
  "explorer_range parse_date day_start now displayTz R s =
     resolveRange parse_date day_start (es_from (explorer_search R s)) (es_to (explorer_search R s)) now
       (explorer_tz R displayTz s)"

text \<open>\<open>Inl\<close> when \<open>toISOString\<close> throws; \<open>null\<close> without a range or with a query that does not parse.\<close>

definition explorer_selection ::
  "(int \<Rightarrow> string) \<Rightarrow> string + int option \<times> int option \<Rightarrow> 'r Router \<Rightarrow> 'r Explorer \<Rightarrow> string + Selection option" where
  "explorer_selection to_iso rng R s =
     (let q = explorer_query R s in
      case rng of
        Inl e \<Rightarrow> Inr None
      | Inr w \<Rightarrow>
          if orElse (dq_error q) [] \<noteq> [] then Inr None
          else map_sum id Some (buildSelection to_iso w (dq_filter q) (dq_native q) (es_tz (explorer_search R s))))"

definition askRange ::
  "(int \<Rightarrow> string) \<Rightarrow> string + int option \<times> int option \<Rightarrow> 'r Router \<Rightarrow> 'r Explorer \<Rightarrow> string + TimeRange option" where
  "askRange to_iso rng R s =
     (case rng of
        Inl e \<Rightarrow> Inr None
      | Inr (a, b) \<Rightarrow>
          map_sum id (\<lambda>(x, y). Some \<lparr>tr_from = x, tr_to = y, tr_tz = es_tz (explorer_search R s)\<rparr>) (iso_pair to_iso a b))"

definition explorer_run :: "'r Explorer \<Rightarrow> 'r Explorer" where
  "explorer_run s = s\<lparr>xp_runId := xp_runId s + 1, xp_selectedIndex := None\<rparr>"

definition explorer_selection_changed :: "'r Explorer \<Rightarrow> 'r Explorer" where
  "explorer_selection_changed s = s\<lparr>xp_selectedIndex := None\<rparr>"

definition setFilter :: "'r Router \<Rightarrow> FilterExpr option \<Rightarrow> 'r Explorer \<Rightarrow> 'r Explorer" where
  "setFilter R f s = setSearch R [(''q'', encodeFilter f)] False s"

definition setColumns :: "'r Router \<Rightarrow> string list \<Rightarrow> 'r Explorer \<Rightarrow> 'r Explorer" where
  "setColumns R cols s =
     setSearch R [(''cols'', formatColumns (if cols \<noteq> [] then cols else DEFAULT_COLUMNS))] True s"

section \<open>What the sidebar, the drawer and the table do\<close>

definition onFilter :: "'r Router \<Rightarrow> string \<Rightarrow> string \<Rightarrow> 'r Explorer \<Rightarrow> 'r Explorer" where
  "onFilter R field v s = setFilter R (addValueFilter (dq_filter (explorer_query R s)) field v False) s"

definition onExclude :: "'r Router \<Rightarrow> string \<Rightarrow> string \<Rightarrow> 'r Explorer \<Rightarrow> 'r Explorer" where
  "onExclude R field v s = setFilter R (addValueFilter (dq_filter (explorer_query R s)) field v True) s"

definition onToggleColumn :: "'r Router \<Rightarrow> string \<Rightarrow> 'r Explorer \<Rightarrow> 'r Explorer" where
  "onToggleColumn R field s =
     (let cols = explorer_columns R s in
      setColumns R (if List.member cols field then filter (\<lambda>c. c \<noteq> field) cols else cols @ [field]) s)"

definition onVisualize :: "'r Router \<Rightarrow> string \<Rightarrow> 'r Explorer \<Rightarrow> 'r Explorer" where
  "onVisualize R field s =
     setSearch R [(''split'', if field = ''severity'' then None else Some field)] True (s\<lparr>xp_histogramOpen := True\<rparr>)"

text \<open>Whether reaching the end of the table fetches another page.\<close>

definition loadMore :: "bool \<Rightarrow> bool \<Rightarrow> LogRow list \<Rightarrow> bool" where
  "loadMore hasNextPage isFetchingNextPage rows \<longleftrightarrow>
     hasNextPage \<and> \<not> isFetchingNextPage \<and> length rows < MAX_LOADED_ROWS"

definition selectedRow :: "LogRow list \<Rightarrow> 'r Explorer \<Rightarrow> LogRow option" where
  "selectedRow rows s =
     (case xp_selectedIndex s of
        None \<Rightarrow> None
      | Some i \<Rightarrow> if 0 \<le> i \<and> nat i < length rows then Some (rows ! nat i) else None)"

definition focusedValue :: "'r Router \<Rightarrow> LogRow list \<Rightarrow> 'r Explorer \<Rightarrow> (string \<times> string) option" where
  "focusedValue R rows s =
     (case selectedRow rows s of
        None \<Rightarrow> None
      | Some row \<Rightarrow>
          (let cols = explorer_columns R s; c = xp_focusedColumn s;
               col = (if 0 \<le> c \<and> nat c < length cols then cols ! nat c else hd cols)
           in map_option (\<lambda>v. (if col = ''timestamp'' then ''_time'' else col, v)) (getField row col)))"

definition drawer_prev :: "'r Explorer \<Rightarrow> 'r Explorer option" where
  "drawer_prev s =
     (case xp_selectedIndex s of
        Some i \<Rightarrow> if 0 < i then Some (s\<lparr>xp_selectedIndex := Some (i - 1)\<rparr>) else None
      | None \<Rightarrow> None)"

definition drawer_next :: "LogRow list \<Rightarrow> 'r Explorer \<Rightarrow> 'r Explorer option" where
  "drawer_next rows s =
     (case xp_selectedIndex s of
        Some i \<Rightarrow> if i < int (length rows) - 1 then Some (s\<lparr>xp_selectedIndex := Some (i + 1)\<rparr>) else None
      | None \<Rightarrow> None)"

section \<open>The shortcuts\<close>

definition explorerBindings :: Bindings where
  "explorerBindings =
     [(''/'', 0), (''t'', 1), (''mod+Enter'', 2), (''j'', 3), (''k'', 4), (''ArrowDown'', 5), (''ArrowUp'', 6), (''h'', 7),
      (''l'', 8), (''Enter'', 9), (''o'', 10), (''Escape'', 11), (''f'', 12), (''x'', 13)]"

definition select_next :: "LogRow list \<Rightarrow> 'r Explorer \<Rightarrow> 'r Explorer" where
  "select_next rows s =
     s\<lparr>xp_selectedIndex :=
        Some (min (int (length rows) - 1) (case xp_selectedIndex s of None \<Rightarrow> 0 | Some i \<Rightarrow> i + 1))\<rparr>"

definition select_prev :: "'r Explorer \<Rightarrow> 'r Explorer" where
  "select_prev s = s\<lparr>xp_selectedIndex := Some (max 0 (case xp_selectedIndex s of None \<Rightarrow> 0 | Some i \<Rightarrow> i - 1))\<rparr>"

text \<open>The handler of each combination; \<open>/\<close> only moves the focus of the document.\<close>

definition explorer_handler :: "'r Router \<Rightarrow> LogRow list \<Rightarrow> string \<Rightarrow> 'r Explorer \<Rightarrow> 'r Explorer" where
  "explorer_handler R rows combo s =
     (if combo = ''t'' then s\<lparr>xp_timeOpen := True\<rparr>
      else if combo = ''mod+Enter'' then explorer_run s
      else if combo = ''j'' \<or> combo = ''ArrowDown'' then select_next rows s
      else if combo = ''k'' \<or> combo = ''ArrowUp'' then select_prev s
      else if combo = ''h'' then s\<lparr>xp_focusedColumn := max 0 (xp_focusedColumn s - 1)\<rparr>
      else if combo = ''l'' then
        s\<lparr>xp_focusedColumn := min (int (length (explorer_columns R s)) - 1) (xp_focusedColumn s + 1)\<rparr>
      else if combo = ''Enter'' \<or> combo = ''o'' then
        (if xp_selectedIndex s \<noteq> None then s\<lparr>xp_drawerOpen := True\<rparr> else s)
      else if combo = ''Escape'' then s\<lparr>xp_drawerOpen := False\<rparr>
      else if combo = ''f'' then (case focusedValue R rows s of None \<Rightarrow> s | Some (f, v) \<Rightarrow> onFilter R f v s)
      else if combo = ''x'' then (case focusedValue R rows s of None \<Rightarrow> s | Some (f, v) \<Rightarrow> onExclude R f v s)
      else s)"

definition explorer_keydown ::
  "'r Router \<Rightarrow> LogRow list \<Rightarrow> KeyEvent \<Rightarrow> HotkeyState \<times> 'r Explorer \<Rightarrow> HotkeyState \<times> 'r Explorer" where
  "explorer_keydown R rows e hs =
     (case onKey explorerBindings e (fst hs) of
        (h, None) \<Rightarrow> (h, snd hs)
      | (h, Some (combo, _)) \<Rightarrow> (h, explorer_handler R rows combo (snd hs)))"

section \<open>The controls around the table\<close>

definition onTimeChange :: "'r Router \<Rightarrow> string \<Rightarrow> TimeRange \<Rightarrow> 'r Explorer \<Rightarrow> 'r Explorer" where
  "onTimeChange R displayTz r s =
     setSearch R
       [(''from'', Some (tr_from r)), (''to'', Some (tr_to r)),
        (''tz'', let tz = orElse (tr_tz r) [] in if tz \<noteq> [] \<and> tz \<noteq> displayTz then Some tz else None)] False s"

definition onZoomOut ::
  "(string \<Rightarrow> int option) \<Rightarrow> (int \<Rightarrow> string) \<Rightarrow> (int \<Rightarrow> string \<Rightarrow> int option) \<Rightarrow> int \<Rightarrow> string \<Rightarrow> 'r Router \<Rightarrow>
     'r Explorer \<Rightarrow> 'r Explorer" where
  "onZoomOut parse_date to_iso day_start now displayTz R s =
     (case zoomOut parse_date to_iso day_start (es_from (explorer_search R s)) (es_to (explorer_search R s)) now
        (explorer_tz R displayTz s) of
        Inl e \<Rightarrow> s
      | Inr (a, b) \<Rightarrow> setSearch R [(''from'', Some a), (''to'', Some b)] False s)"

definition onNativeChange :: "'r Router \<Rightarrow> string \<Rightarrow> 'r Explorer \<Rightarrow> 'r Explorer" where
  "onNativeChange R t s = setSearch R [(''native'', if trim t \<noteq> [] then Some t else None)] False s"

definition onModeChange :: "'r Router \<Rightarrow> string \<Rightarrow> 'r Explorer \<Rightarrow> 'r Explorer" where
  "onModeChange R m s = setSearch R [(''mode'', Some m)] True s"

text \<open>Running what the assistant proposes.\<close>

definition onRunProposal :: "'r Router \<Rightarrow> AssistantProposal \<Rightarrow> 'r Explorer \<Rightarrow> 'r Explorer" where
  "onRunProposal R p s = explorer_run (setSearch R (proposalPatch p) False s)"

definition onHistogramZoom :: "(int \<Rightarrow> string) \<Rightarrow> 'r Router \<Rightarrow> int option \<Rightarrow> int option \<Rightarrow> 'r Explorer \<Rightarrow> string + 'r Explorer" where
  "onHistogramZoom to_iso R start end s =
     map_sum id (\<lambda>(a, b). setSearch R [(''from'', Some a), (''to'', Some b)] False s) (iso_pair to_iso start end)"

definition onResetSplit :: "'r Router \<Rightarrow> 'r Explorer \<Rightarrow> 'r Explorer" where
  "onResetSplit R s = setSearch R [(''split'', None)] True s"

definition onOpenRow :: "int \<Rightarrow> 'r Explorer \<Rightarrow> 'r Explorer" where
  "onOpenRow i s = s\<lparr>xp_selectedIndex := Some i, xp_drawerOpen := True\<rparr>"

definition onSaved :: "'r Router \<Rightarrow> string \<Rightarrow> 'r Explorer \<Rightarrow> 'r Explorer" where
  "onSaved R i s = setSearch R [(''saved'', Some i)] True s"

definition QUICK_COLUMNS :: "string list" where
  "QUICK_COLUMNS =
     [''received_at'', ''source_ip'', ''facility'', ''source'', ''protocol'', ''format'', ''process_id'', ''message_id'']"

definition column_menu :: "'r Router \<Rightarrow> 'r Explorer \<Rightarrow> string list" where
  "column_menu R s = uniq (DEFAULT_COLUMNS @ explorer_columns R s @ QUICK_COLUMNS)"

definition onColumnChecked :: "'r Router \<Rightarrow> string \<Rightarrow> bool \<Rightarrow> 'r Explorer \<Rightarrow> 'r Explorer" where
  "onColumnChecked R c checked s =
     setColumns R (if checked then explorer_columns R s @ [c] else filter (\<lambda>x. x \<noteq> c) (explorer_columns R s)) s"

text \<open>Which panel stands below the query bar.\<close>

datatype ResultsView = Error_panel | Fix_query | Invalid_query | Loading | Tabular | No_logs | Rows

definition resultsView ::
  "bool \<Rightarrow> bool \<Rightarrow> bool \<Rightarrow> Selection option \<Rightarrow> string option \<Rightarrow> string option \<Rightarrow> bool \<Rightarrow> LogRow list \<Rightarrow> ResultsView" where
  "resultsView isError nativeError isLoading sel parseError rangeError tableMode rows =
     (if isError \<and> \<not> nativeError then Error_panel
      else if isError then Fix_query
      else if isLoading \<or> sel = None then
        (if orElse parseError [] \<noteq> [] \<or> orElse rangeError [] \<noteq> [] then Invalid_query else Loading)
      else if tableMode then Tabular
      else if rows = [] then No_logs
      else Rows)"

definition explorer_footer :: "(rat \<Rightarrow> string) \<Rightarrow> bool \<Rightarrow> bool \<Rightarrow> LogRow list \<Rightarrow> bool \<Rightarrow> string" where
  "explorer_footer compact_format isFetchingNextPage hasNextPage rows tie_overflow =
     (if isFetchingNextPage then ''Loading older logs'' @ ELLIPSIS
      else if MAX_LOADED_ROWS \<le> length rows then
        ''Showing the newest '' @ formatCount compact_format (Some (of_nat MAX_LOADED_ROWS)) @ '' logs '' @ EMDASH @
        '' narrow the query or export for more.''
      else if hasNextPage then ''Scroll for older logs''
      else formatExact (Some (int (length rows))) @ '' logs loaded '' @ MIDDOT @ '' end of results'') @
     (if tie_overflow then '' '' @ MIDDOT @ '' some logs sharing a timestamp were not shown'' else [])"

definition highlightNeedle :: "FilterExpr option \<Rightarrow> string" where
  "highlightNeedle flt =
     (case filter (\<lambda>t. case t of TextExpr _ \<Rightarrow> True | FieldValueExpr op f _ \<Rightarrow> op = Contains \<and> f = ''message'' | _ \<Rightarrow> False)
        (andTerms flt) of
        [] \<Rightarrow> []
      | t # _ \<Rightarrow> (case t of TextExpr v \<Rightarrow> v | FieldValueExpr _ _ v \<Rightarrow> v | _ \<Rightarrow> formatFilter (Some t)))"

section \<open>What a navigation leaves in the URL\<close>

text \<open>The value a field has after it went through the URL.\<close>

definition settle :: "SearchField \<Rightarrow> string option \<Rightarrow> string option" where
  "settle f v =
     (case f of
        Str fb \<Rightarrow> if kept_value v then v else Some fb
      | OptStr \<Rightarrow> if kept_value v then v else None
      | Enum opts d \<Rightarrow> if kept_value v \<and> List.member opts (orElse v []) then v else Some d)"

lemma zod_settle:
  assumes "zod_laws zod"
  shows "zod f (if kept_value v then Some (JStr (orElse v [])) else None) = settle f v"
  using assms by (cases f; cases v) (auto simp: zod_laws_def settle_def kept_value_def)

lemma settle_fits: "fits_field f v \<Longrightarrow> settle f v = v"
  by (cases f; cases v) (auto simp: fits_field_def settle_def kept_value_def)

lemma explorer_keys [simp]:
  "map fst explorerSearchSchema = [''from'', ''to'', ''tz'', ''q'', ''native'', ''mode'', ''cols'', ''split'', ''saved'']"
  by (simp add: explorerSearchSchema_def)

lemma explorer_keys_distinct: "distinct (map fst explorerSearchSchema)"
  by simp

lemma validated_keys [simp]: "map fst (validated zod url) = map fst explorerSearchSchema"
  by (simp add: validated_def zod_object_def comp_def case_prod_beta del: explorer_keys)

lemma map_of_keyed: "map_of (map (\<lambda>(k, f). (k, g k f)) xs) k = map_option (g k) (map_of xs k)"
  by (induction xs) auto

lemma map_of_member: "distinct (map fst es) \<Longrightarrow> k \<in> fst ` set es \<Longrightarrow> (k, entry es k) \<in> set es"
  by (force simp: entry_def)

lemma validated_entry:
  assumes zod: "zod_laws zod" and keys: "map fst es = map fst explorerSearchSchema"
    and field: "map_of explorerSearchSchema k = Some f"
  shows "entry (validated zod (stringifySearchParams es)) k = settle f (entry es k)"
proof -
  have d: "distinct (map fst es)" unfolding keys by (rule explorer_keys_distinct)
  have "k \<in> fst ` set es"
    using field keys by (metis domI dom_map_of_conv_image_fst list.set_map)
  then have "(k, entry es k) \<in> set es" using map_of_member [OF d] by simp
  then have "map_of (map (apsnd JStr) (parseSearchParams (stringifySearchParams es))) k =
      (if kept_value (entry es k) then Some (JStr (orElse (entry es k) [])) else None)"
    unfolding search_params_roundtrip [OF d] by (rule map_of_clean [OF d])
  then have "map_of (validated zod (stringifySearchParams es)) k = Some (settle f (entry es k))"
    using zod_settle [OF zod, of f "entry es k"] by (simp add: validated_def zod_object_def map_of_keyed field)
  then show ?thesis by (simp add: entry_def)
qed

lemma update_keys: "k \<in> fst ` set es \<Longrightarrow> map fst (AList.update k v es) = map fst es"
  by (induction es) auto

lemma spread_keys:
  "fst ` set patch \<subseteq> fst ` set es \<Longrightarrow> map fst (spread_search es patch) = map fst es"
proof (induction patch arbitrary: es)
  case (Cons p patch)
  obtain k v where p: "p = (k, v)" by fastforce
  have keys: "map fst (AList.update k v es) = map fst es" using Cons.prems p by (intro update_keys) simp
  then have "fst ` set (AList.update k v es) = fst ` set es" by (metis list.set_map)
  then show ?case using Cons keys p by (simp add: spread_search_def)
qed (simp add: spread_search_def)

lemma entry_update: "entry (AList.update k v es) l = (if l = k then v else entry es l)"
  by (simp add: entry_def update_conv')

lemma entry_spread:
  "distinct (map fst patch) \<Longrightarrow>
   entry (spread_search es patch) k = (case map_of patch k of Some v \<Rightarrow> v | None \<Rightarrow> entry es k)"
proof (induction patch arbitrary: es)
  case (Cons p patch)
  obtain l v where p: "p = (l, v)" by fastforce
  have "entry (spread_search es (p # patch)) k = entry (spread_search (AList.update l v es) patch) k"
    by (simp add: spread_search_def p)
  also have "\<dots> = (case map_of patch k of Some w \<Rightarrow> w | None \<Rightarrow> entry (AList.update l v es) k)"
    using Cons by simp
  also have "map_of patch l = None"
    using Cons.prems p by (simp add: map_of_eq_None_iff)
  then have "(case map_of patch k of Some w \<Rightarrow> w | None \<Rightarrow> entry (AList.update l v es) k) =
      (case map_of (p # patch) k of Some w \<Rightarrow> w | None \<Rightarrow> entry es k)"
    by (auto simp: p entry_update split: option.splits)
  finally show ?case .
qed (simp add: spread_search_def)

text \<open>What every search read from the URL has: each field a value its schema keeps through the URL.\<close>

definition explorer_ok :: "'r Router \<Rightarrow> 'r Explorer \<Rightarrow> bool" where
  "explorer_ok R s \<longleftrightarrow>
     list_all (\<lambda>(k, f). fits_field f (entry (rt_search R (xp_router s)) k)) explorerSearchSchema"

definition known_patch :: "string option entries \<Rightarrow> bool" where
  "known_patch patch \<longleftrightarrow> distinct (map fst patch) \<and> list_all (\<lambda>k. k \<in> set (map fst explorerSearchSchema)) (map fst patch)"

lemma setSearch_entry:
  assumes laws: "zod_laws zod" "router_laws zod R" and patch: "known_patch patch"
    and field: "map_of explorerSearchSchema k = Some f"
  shows "entry (rt_search R (xp_router (setSearch R patch replace s))) k =
    settle f (case map_of patch k of Some v \<Rightarrow> v | None \<Rightarrow> entry (rt_search R (xp_router s)) k)"
proof -
  let ?es = "rt_search R (xp_router s)"
  obtain url where "?es = validated zod url" using laws(2) unfolding router_laws_def by blast
  then have keys: "map fst ?es = map fst explorerSearchSchema" by (simp del: explorer_keys)
  then have "fst ` set patch \<subseteq> fst ` set ?es"
    using patch by (metis known_patch_def list.set_map list_all_iff subsetI)
  then have "map fst (spread_search ?es patch) = map fst explorerSearchSchema"
    using spread_keys keys by metis
  moreover have "rt_search R (xp_router (setSearch R patch replace s)) =
      validated zod (stringifySearchParams (spread_search ?es patch))"
    using laws(2) by (simp add: router_laws_def setSearch_def)
  ultimately show ?thesis
    using validated_entry [OF laws(1) _ field] entry_spread [of patch ?es k] patch by (simp add: known_patch_def)
qed

lemma settle_schema:
  assumes "(k, f) \<in> set explorerSearchSchema"
  shows "fits_field f (settle f v)"
  using assms by (auto simp: explorerSearchSchema_def fits_field_def settle_def kept_value_def split: if_splits)

text \<open>Whatever the page was opened with, every navigation leaves a search that survives the URL.\<close>

lemma setSearch_ok:
  assumes "zod_laws zod" and "router_laws zod R" and "known_patch patch"
  shows "explorer_ok R (setSearch R patch replace s)"
proof -
  have "fits_field f (entry (rt_search R (xp_router (setSearch R patch replace s))) k)"
    if "(k, f) \<in> set explorerSearchSchema" for k f
    using setSearch_entry [OF assms, of k f replace s] settle_schema [OF that]
      map_of_is_SomeI [OF explorer_keys_distinct that] by simp
  then show ?thesis by (auto simp: explorer_ok_def list_all_iff)
qed

text \<open>A field the update does not mention keeps its value.\<close>

lemma setSearch_kept:
  assumes "zod_laws zod" and "router_laws zod R" and "known_patch patch" and "explorer_ok R s"
    and "map_of explorerSearchSchema k = Some f" and "map_of patch k = None"
  shows "entry (rt_search R (xp_router (setSearch R patch replace s))) k = entry (rt_search R (xp_router s)) k"
proof -
  have "fits_field f (entry (rt_search R (xp_router s)) k)"
    using assms(4,5) by (auto simp: explorer_ok_def list_all_iff dest: map_of_SomeD)
  then show ?thesis
    using setSearch_entry [OF assms(1-3,5), of replace s] assms(6) by (simp add: settle_fits)
qed

section \<open>Facts about the handlers\<close>

lemma schema_fields [simp]:
  "map_of explorerSearchSchema ''from'' = Some (Str ''now-1h'')" "map_of explorerSearchSchema ''to'' = Some (Str ''now'')"
  "map_of explorerSearchSchema ''tz'' = Some OptStr" "map_of explorerSearchSchema ''q'' = Some OptStr"
  "map_of explorerSearchSchema ''native'' = Some OptStr"
  "map_of explorerSearchSchema ''mode'' = Some (Enum [''visual'', ''advanced''] ''visual'')"
  "map_of explorerSearchSchema ''cols'' = Some OptStr" "map_of explorerSearchSchema ''split'' = Some OptStr"
  "map_of explorerSearchSchema ''saved'' = Some OptStr"
  by (simp_all add: explorerSearchSchema_def)

lemma settle_nonempty [simp]: "settle OptStr (nonempty t) = nonempty t"
  by (simp add: settle_def kept_value_def nonempty_def)

lemma nonempty_orElse [simp]: "orElse (nonempty t) [] = t"
  by (simp add: nonempty_def)

text \<open>Any filter the page works with comes from the parser, so that it is canonical, and so is every filter built from it.\<close>

lemma parseFilter_canonical: "parseFilter t = Inr (Some e) \<Longrightarrow> canonical e"
  by (auto simp: parseFilter_def parse_def split: if_splits sum.splits list.splits dest: parser_canonical(1))

lemma decodeQuery_canonical: "\<forall>e \<in> set_option (dq_filter (decodeQuery q n)). canonical e"
  by (auto simp: decodeQuery_def Let_def split: sum.splits dest!: parseFilter_canonical)

lemma setFilter_shows:
  assumes "zod_laws zod" and "router_laws zod R" and "explorer_ok R s" and "pred_option canonical f"
  shows "explorer_query R (setFilter R f s) =
      \<lparr>dq_filter = f, dq_native = dq_native (explorer_query R s), dq_error = None\<rparr>"
    and "k \<noteq> ''q'' \<Longrightarrow> map_of explorerSearchSchema k = Some fld \<Longrightarrow>
      entry (rt_search R (xp_router (setFilter R f s))) k = entry (rt_search R (xp_router s)) k"
    and "explorer_ok R (setFilter R f s)"
proof -
  let ?p = "[(''q'', encodeFilter f)]"
  have p: "known_patch ?p" by (simp add: known_patch_def)
  note kept = setSearch_kept [OF assms(1,2) p assms(3)]
  show "k \<noteq> ''q'' \<Longrightarrow> map_of explorerSearchSchema k = Some fld \<Longrightarrow>
      entry (rt_search R (xp_router (setFilter R f s))) k = entry (rt_search R (xp_router s)) k"
    using kept by (simp add: setFilter_def)
  show "explorer_ok R (setFilter R f s)"
    using setSearch_ok [OF assms(1,2) p] by (simp add: setFilter_def)
  have "entry (rt_search R (xp_router (setFilter R f s))) ''q'' = nonempty (formatFilter f)"
    using setSearch_entry [OF assms(1,2) p, of "''q''"] by (simp add: setFilter_def encodeFilter_def)
  moreover have "entry (rt_search R (xp_router (setFilter R f s))) ''native'' = entry (rt_search R (xp_router s)) ''native''"
    using kept [of "''native''"] by (simp add: setFilter_def)
  ultimately show "explorer_query R (setFilter R f s) =
      \<lparr>dq_filter = f, dq_native = dq_native (explorer_query R s), dq_error = None\<rparr>"
    using decodeQuery_format [OF assms(4)]
    by (simp add: explorer_query_def explorer_search_def search_of_def) (simp add: decodeQuery_def Let_def split: sum.splits)
qed

lemma parseColumns_nonempty: "parseColumns cols \<noteq> [] \<and> [] \<notin> set (parseColumns cols)"
proof -
  have "[] \<notin> set (split_list P t)" for P t
    by (auto simp: split_list_def)
  moreover have "DEFAULT_COLUMNS \<noteq> [] \<and> [] \<notin> set DEFAULT_COLUMNS" by (simp add: DEFAULT_COLUMNS_def)
  ultimately show ?thesis by (auto simp: parseColumns_def Let_def)
qed

lemma focusedValue_field:
  assumes "focusedValue R rows s = Some (f, v)"
  shows "f \<noteq> [] \<and> (\<exists>row. selectedRow rows s = Some row \<and> field_text row f = v)"
proof -
  let ?cols = "explorer_columns R s" and ?c = "xp_focusedColumn s"
  let ?col = "if 0 \<le> ?c \<and> nat ?c < length ?cols then ?cols ! nat ?c else hd ?cols"
  from assms obtain row where row: "selectedRow rows s = Some row" "getField row ?col = Some v"
    and f: "f = (if ?col = ''timestamp'' then ''_time'' else ?col)"
    by (auto simp: focusedValue_def Let_def split: option.splits)
  have cols: "?cols \<noteq> [] \<and> [] \<notin> set ?cols"
    using parseColumns_nonempty by (simp add: explorer_columns_def)
  then have "?col \<in> set ?cols" by simp
  then have "?col \<noteq> []" using cols by metis
  then have "f \<noteq> []" using f by simp
  moreover have "getField row f = getField row ?col"
    using f by (simp add: getField_def apiFieldName_def)
  then have "field_text row f = v" using row(2) by (simp add: field_text_def)
  ultimately show ?thesis using row(1) by blast
qed

text \<open>The shortcuts of the page.\<close>

lemma explorer_bindings_plain:
  "list_all (\<lambda>b. \<not> is_sequence (fst b) \<and> fst b \<noteq> ''?'' \<and> (is_mod_combo (fst b) \<longrightarrow> fst b = ''mod+Enter'')) explorerBindings"
  by code_simp

lemma explorer_bindings_filter:
  "List.find (\<lambda>b. fst b = ''f'') explorerBindings = Some (''f'', 12)"
  "List.find (\<lambda>b. fst b = ''x'') explorerBindings = Some (''x'', 13)"
  by code_simp+

lemma onKey_filter:
  assumes "plain_key e" and "\<not> ke_alt e" and key: "ke_key e = ''f'' \<or> ke_key e = ''x''"
  shows "snd (explorer_keydown R rows e hs) = explorer_handler R rows (ke_key e) (snd hs)"
proof -
  have "toLowerCase ''f'' = ''f''" "toLowerCase ''x'' = ''x''" by code_simp+
  then have p: "pressed e = ke_key e" using key by (auto simp: pressed_def)
  have "reacts (fst hs) e (fst b) \<longleftrightarrow> fst b = ke_key e" if "b \<in> set explorerBindings" for b
    using bspec [OF explorer_bindings_plain [unfolded list_all_iff] that] assms p
    by (auto simp: reacts_def plain_key_def)
  then have "List.find (\<lambda>b. reacts (fst hs) e (fst b)) explorerBindings = List.find (\<lambda>b. fst b = ke_key e) explorerBindings"
    by (intro find_cong) simp_all
  then have "\<exists>n. snd (onKey explorerBindings e (fst hs)) = Some (ke_key e, n)"
    using key explorer_bindings_filter by (auto simp: onKey_def)
  then show ?thesis by (auto simp: explorer_keydown_def split: prod.splits option.splits)
qed

section \<open>Lives of the page\<close>

text \<open>One handler of the page runs, or React sees another selection. What the handlers read from outside (the rows, the clock,
  the zone, the answers) is free.\<close>

inductive explorer_step :: "'r Router \<Rightarrow> 'r Explorer \<Rightarrow> 'r Explorer \<Rightarrow> bool" for R :: "'r Router" where
  key: "explorer_step R s (snd (explorer_keydown R rows e (h, s)))"
| include_value: "field \<noteq> [] \<Longrightarrow> explorer_step R s (onFilter R field v s)"
| exclude_value: "field \<noteq> [] \<Longrightarrow> explorer_step R s (onExclude R field v s)"
| edit_filter: "explorer_step R s (setFilter R f s)"
| toggle_column: "explorer_step R s (onToggleColumn R field s)"
| check_column: "explorer_step R s (onColumnChecked R field checked s)"
| reset_columns: "explorer_step R s (setColumns R DEFAULT_COLUMNS s)"
| visualize: "explorer_step R s (onVisualize R field s)"
| reset_split: "explorer_step R s (onResetSplit R s)"
| time_change: "explorer_step R s (onTimeChange R displayTz r s)"
| zoom_out: "explorer_step R s (onZoomOut parse_date to_iso day_start now displayTz R s)"
| zoom_in: "onHistogramZoom to_iso R a b s = Inr s' \<Longrightarrow> explorer_step R s s'"
| native_change: "explorer_step R s (onNativeChange R t s)"
| mode_change: "explorer_step R s (onModeChange R m s)"
| run_proposal: "explorer_step R s (onRunProposal R p s)"
| run_again: "explorer_step R s (explorer_run s)"
| saved: "explorer_step R s (onSaved R i s)"
| open_row: "i < int (length (rows :: LogRow list)) \<Longrightarrow> 0 \<le> i \<Longrightarrow> explorer_step R s (onOpenRow i s)"
| row_before: "drawer_prev s = Some s' \<Longrightarrow> explorer_step R s s'"
| row_after: "drawer_next rows s = Some s' \<Longrightarrow> explorer_step R s s'"
| selection_changed: "explorer_step R s (explorer_selection_changed s)"

definition explorer_reaches :: "'r Router \<Rightarrow> 'r Explorer \<Rightarrow> 'r Explorer \<Rightarrow> bool" where
  "explorer_reaches R = (explorer_step R)\<^sup>*\<^sup>*"

text \<open>The cursor: the column in focus is never negative, and a row below the first is selected only as \<open>-1\<close>, by moving
  down in an empty table.\<close>

definition cursor_ok :: "'r Explorer \<Rightarrow> bool" where
  "cursor_ok s \<longleftrightarrow> 0 \<le> xp_focusedColumn s \<and> pred_option (\<lambda>i. -1 \<le> i) (xp_selectedIndex s)"

lemma setSearch_cursor [simp]: "cursor_ok (setSearch R patch replace s) = cursor_ok s"
  by (simp add: setSearch_def cursor_ok_def)

lemmas search_handlers =
  setFilter_def onFilter_def onExclude_def setColumns_def onToggleColumn_def onColumnChecked_def onVisualize_def
  onResetSplit_def onTimeChange_def onNativeChange_def onModeChange_def onSaved_def

lemma known_patches [simp]:
  "known_patch [(''q'', v)]" "known_patch [(''cols'', v)]" "known_patch [(''split'', v)]" "known_patch [(''native'', v)]"
  "known_patch [(''mode'', v)]" "known_patch [(''saved'', v)]" "known_patch [(''from'', v), (''to'', w)]"
  "known_patch [(''from'', v), (''to'', w), (''tz'', u)]" "known_patch (proposalPatch p)"
  by (simp_all add: known_patch_def proposalPatch_def)

lemma explorer_ok_local [simp]:
  "explorer_ok R (s\<lparr>xp_runId := n\<rparr>) = explorer_ok R s" "explorer_ok R (s\<lparr>xp_selectedIndex := i\<rparr>) = explorer_ok R s"
  "explorer_ok R (s\<lparr>xp_focusedColumn := c\<rparr>) = explorer_ok R s" "explorer_ok R (s\<lparr>xp_drawerOpen := b\<rparr>) = explorer_ok R s"
  "explorer_ok R (s\<lparr>xp_histogramOpen := b\<rparr>) = explorer_ok R s" "explorer_ok R (s\<lparr>xp_timeOpen := b\<rparr>) = explorer_ok R s"
  by (simp_all add: explorer_ok_def)

lemma cursor_local [simp]:
  "cursor_ok (s\<lparr>xp_runId := n\<rparr>) = cursor_ok s" "cursor_ok (s\<lparr>xp_drawerOpen := b\<rparr>) = cursor_ok s"
  "cursor_ok (s\<lparr>xp_histogramOpen := b\<rparr>) = cursor_ok s" "cursor_ok (s\<lparr>xp_timeOpen := b\<rparr>) = cursor_ok s"
  by (simp_all add: cursor_ok_def)

definition page_ok :: "'r Router \<Rightarrow> 'r Explorer \<Rightarrow> bool" where
  "page_ok R s \<longleftrightarrow> explorer_ok R s \<and> cursor_ok s"

lemma handler_ok:
  assumes "zod_laws zod" and "router_laws zod R" and "page_ok R s"
  shows "page_ok R (explorer_handler R rows combo s)"
proof -
  have "page_ok R (setSearch R [(''q'', v)] replace s)" for v replace
    using setSearch_ok [OF assms(1,2)] assms(3) by (simp add: page_ok_def)
  moreover have "page_ok R (s\<lparr>xp_focusedColumn := min (int (length (explorer_columns R s)) - 1) (xp_focusedColumn s + 1)\<rparr>)"
    using assms(3) parseColumns_nonempty [of "es_cols (explorer_search R s)"]
    by (auto simp: page_ok_def cursor_ok_def explorer_columns_def Suc_le_eq)
  moreover have "page_ok R (select_next rows s)" "page_ok R (select_prev s)" "page_ok R (explorer_run s)"
    "page_ok R (s\<lparr>xp_focusedColumn := max 0 (xp_focusedColumn s - 1)\<rparr>)"
    using assms(3)
    by (auto simp: page_ok_def cursor_ok_def select_next_def select_prev_def explorer_run_def split: option.splits)
  moreover have "page_ok R (s\<lparr>xp_timeOpen := b\<rparr>)" "page_ok R (s\<lparr>xp_drawerOpen := b\<rparr>)" for b
    using assms(3) by (simp_all add: page_ok_def)
  ultimately show ?thesis
    using assms(3) by (simp add: explorer_handler_def onFilter_def onExclude_def setFilter_def split: option.split prod.split)
qed

lemma keydown_ok:
  assumes "zod_laws zod" and "router_laws zod R" and "page_ok R s"
  shows "page_ok R (snd (explorer_keydown R rows e (h, s)))"
  using assms(3) handler_ok [OF assms] by (simp add: explorer_keydown_def split: option.splits prod.splits)

lemma explorer_step_ok:
  assumes "zod_laws zod" and "router_laws zod R" and "explorer_step R s s'" and "page_ok R s"
  shows "page_ok R s'"
proof -
  note ok = setSearch_ok [OF assms(1,2)]
  have search: "page_ok R (setSearch R patch replace t)" if "known_patch patch" "cursor_ok t" for patch replace t
    using ok that by (simp add: page_ok_def)
  have cursor: "cursor_ok s" using assms(4) by (simp add: page_ok_def)
  from assms(3) show ?thesis
  proof cases
    case (zoom_in to_iso a b)
    then show ?thesis using search cursor by (cases "iso_pair to_iso a b") (auto simp: onHistogramZoom_def)
  next
    case zoom_out
    then show ?thesis using assms(4) search cursor by (simp add: onZoomOut_def split: sum.split)
  next
    case run_proposal
    then show ?thesis
      using search [of "proposalPatch _" s False] cursor by (simp add: onRunProposal_def explorer_run_def page_ok_def cursor_ok_def)
  next
    case key
    then show ?thesis using keydown_ok [OF assms(1,2,4)] by simp
  qed (use assms(4) search cursor in
      \<open>auto simp: search_handlers Let_def page_ok_def cursor_ok_def explorer_run_def onOpenRow_def
        drawer_prev_def drawer_next_def explorer_selection_changed_def split: option.splits if_splits\<close>)
qed

lemma explorer_reaches_ok:
  assumes "zod_laws zod" and "router_laws zod R" and "explorer_reaches R s s'" and "page_ok R s"
  shows "page_ok R s'"
  using assms(3) unfolding explorer_reaches_def
  by induction (use assms(4) explorer_step_ok [OF assms(1,2)] in blast)+

lemma explorer_init_ok: "page_ok R (explorer_init r) = explorer_ok R (explorer_init r)"
  by (simp add: page_ok_def explorer_init_def cursor_ok_def)

text \<open>Moving down in an empty table selects row \<open>-1\<close>, and Enter then opens the drawer on no row.\<close>

lemma empty_drawer:
  "let s = explorer_handler R [] ''Enter'' (explorer_handler R [] ''j'' (explorer_init r))
   in xp_drawerOpen s \<and> xp_selectedIndex s = Some (-1) \<and> selectedRow [] s = None"
  by (simp add: explorer_handler_def select_next_def explorer_init_def selectedRow_def)

section \<open>Properties\<close>

text \<open>A router for the witnesses: the URLs visited, the current one first.\<close>

definition sample_router :: "string list Router" where
  "sample_router =
     \<lparr>rt_search = (\<lambda>r. validated sample_zod (case r of [] \<Rightarrow> [] | u # _ \<Rightarrow> u)),
      rt_navigate = (\<lambda>f replace r.
        stringifySearchParams (f (validated sample_zod (case r of [] \<Rightarrow> [] | u # _ \<Rightarrow> u))) # (if replace then tl r else r))\<rparr>"

lemma sample_router_laws: "router_laws sample_zod sample_router"
  by (auto simp: router_laws_def sample_router_def)

lemma sample_start_ok: "page_ok sample_router (explorer_init [])"
proof -
  have "rt_search sample_router [] =
      [(''from'', Some ''now-1h''), (''to'', Some ''now''), (''tz'', None), (''q'', None), (''native'', None),
       (''mode'', Some ''visual''), (''cols'', None), (''split'', None), (''saved'', None)]"
    by code_simp
  then show ?thesis
    unfolding explorer_init_ok
    by (simp add: explorer_ok_def explorer_init_def explorerSearchSchema_def entry_def fits_field_def kept_value_def)
qed

text \<open>C24. Running what the assistant proposes shows exactly that query: whatever was in the query bar, the URL then
  decodes to the proposed filter, whose terms are the ones the proposal was shown with, and to no native query; the mode is
  the visual one and the window is the proposed one. The columns, the zone and the saved search are kept. A proposal
  without a window gives the default window, not the one on the page.\<close>

theorem proposal_runs_as_shown:
  assumes "zod_laws zod" and "router_laws zod R" and "page_ok R s0" and "explorer_reaches R s0 s"
    and "pred_option canonical (ap_filter p)" and "s' = onRunProposal R p s"
  shows "explorer_query R s' = \<lparr>dq_filter = ap_filter p, dq_native = None, dq_error = None\<rparr> \<and>
    andTerms (dq_filter (explorer_query R s')) = proposalTerms (ap_filter p) \<and>
    explorer_search R s' =
      (explorer_search R s)
        \<lparr>es_q := nonempty (proposalFilterText (ap_filter p)), es_native := None, es_mode := ''visual'',
         es_from := (case ap_time_range p of None \<Rightarrow> ''now-1h'' | Some r \<Rightarrow> if tr_from r = [] then ''now-1h'' else tr_from r),
         es_to := (case ap_time_range p of None \<Rightarrow> ''now'' | Some r \<Rightarrow> if tr_to r = [] then ''now'' else tr_to r)\<rparr>"
proof -
  have ok: "explorer_ok R s" using explorer_reaches_ok [OF assms(1,2,4,3)] by (simp add: page_ok_def)
  have known: "known_patch (proposalPatch p)" by simp
  let ?e = "entry (rt_search R (xp_router s'))"
  have s': "xp_router s' = xp_router (setSearch R (proposalPatch p) False s)"
    using assms(6) by (simp add: onRunProposal_def explorer_run_def)
  have kept: "?e k = entry (rt_search R (xp_router s)) k"
    if "map_of explorerSearchSchema k = Some f" "map_of (proposalPatch p) k = None" for k f
    unfolding s' using setSearch_kept [OF assms(1,2) known ok that] by simp
  have set: "?e k = settle f v" if "map_of explorerSearchSchema k = Some f" "map_of (proposalPatch p) k = Some v" for k f v
    unfolding s' using setSearch_entry [OF assms(1,2) known that(1), of False s] that(2) by simp
  note patch = proposalPatch_def settle_def kept_value_def
  have "?e ''q'' = nonempty (proposalFilterText (ap_filter p))" "?e ''native'' = None" "?e ''mode'' = Some ''visual''"
    using set [of "''q''"] set [of "''native''"] set [of "''mode''"]
    by (simp_all add: proposalPatch_def, simp_all add: patch)
  moreover have "?e ''from'' =
      Some (case ap_time_range p of None \<Rightarrow> ''now-1h'' | Some r \<Rightarrow> if tr_from r = [] then ''now-1h'' else tr_from r)"
    "?e ''to'' = Some (case ap_time_range p of None \<Rightarrow> ''now'' | Some r \<Rightarrow> if tr_to r = [] then ''now'' else tr_to r)"
    using set [of "''from''"] set [of "''to''"] by (simp_all add: patch split: option.split)
  moreover have "?e ''tz'' = entry (rt_search R (xp_router s)) ''tz''" "?e ''cols'' = entry (rt_search R (xp_router s)) ''cols''"
    "?e ''split'' = entry (rt_search R (xp_router s)) ''split''" "?e ''saved'' = entry (rt_search R (xp_router s)) ''saved''"
    by (rule kept [of _ OptStr]; simp add: proposalPatch_def)+
  ultimately have search: "explorer_search R s' =
      (explorer_search R s)
        \<lparr>es_q := nonempty (proposalFilterText (ap_filter p)), es_native := None, es_mode := ''visual'',
         es_from := (case ap_time_range p of None \<Rightarrow> ''now-1h'' | Some r \<Rightarrow> if tr_from r = [] then ''now-1h'' else tr_from r),
         es_to := (case ap_time_range p of None \<Rightarrow> ''now'' | Some r \<Rightarrow> if tr_to r = [] then ''now'' else tr_to r)\<rparr>"
    by (simp add: explorer_search_def search_of_def)
  moreover have "explorer_query R s' = \<lparr>dq_filter = ap_filter p, dq_native = None, dq_error = None\<rparr>"
    unfolding explorer_query_def search
    using decodeQuery_format [OF assms(5), of None] by (simp add: proposalFilterText_def)
  ultimately show ?thesis by (simp add: proposalTerms_def)
qed

definition sample_proposal :: AssistantProposal where
  "sample_proposal =
     \<lparr>ap_filter = Some (FieldValueExpr Eq ''severity'' ''error''), ap_time_range = None, ap_reasoning = ''Errors.'',
      ap_fields = [''severity''], ap_model = ''m'', ap_took_ms = 900\<rparr>"

theorem proposal_runs_as_shown_witness:
  "let s = setFilter sample_router (Some (TextExpr ''x'')) (explorer_init []); s' = onRunProposal sample_router sample_proposal s
   in dq_filter (explorer_query sample_router s') = Some (FieldValueExpr Eq ''severity'' ''error'') \<and>
      es_from (explorer_search sample_router s') = ''now-1h''"
proof -
  have "explorer_reaches sample_router (explorer_init []) (setFilter sample_router (Some (TextExpr ''x'')) (explorer_init []))"
    unfolding explorer_reaches_def by (intro r_into_rtranclp explorer_step.edit_filter)
  from proposal_runs_as_shown [OF sample_zod_laws sample_router_laws sample_start_ok this _ refl, of sample_proposal]
  show ?thesis by (simp add: sample_proposal_def)
qed
end
