(* ===== verification/Query_Bar.thy ===== *)
theory Query_Bar
  imports Explorer_Page
begin

text \<open>
  The query bar above the explorer, \<open>src/frontend/src/features/explorer/QueryBar.tsx\<close>, with the editor of one filter,
  \<open>src/frontend/src/features/explorer/FilterBuilder.tsx\<close>. The bar's own state is a record beside the page's; its
  callbacks are the page's handlers.
\<close>

section \<open>The editor of one filter\<close>

datatype BuilderTab = Tab_builder | Tab_text

record FilterBuilder =
  fb_tab :: BuilderTab
  fb_field :: string
  fb_op :: BuilderOp
  fb_value :: string
  fb_text :: string
  fb_error :: "string option"

fun initialState :: "FilterExpr option \<Rightarrow> string \<times> BuilderOp \<times> string" where
  "initialState (Some (FieldExistsExpr op f)) = (f, FE op, [])"
| "initialState (Some (FieldValuesExpr op f vs)) = (f, FVS op, join '', '' vs)"
| "initialState (Some (FieldValueExpr op f v)) = (f, FV op, v)"
| "initialState _ = ([], FV Eq, [])"

definition open_builder :: "FilterExpr option \<Rightarrow> FilterBuilder" where
  "open_builder term =
     (let (f, op, v) = initialState term in
      \<lparr>fb_tab = (case term of None \<Rightarrow> Tab_builder | Some t \<Rightarrow> if isSimpleTerm t then Tab_builder else Tab_text),
       fb_field = f, fb_op = op, fb_value = v, fb_text = (case term of None \<Rightarrow> [] | Some t \<Rightarrow> formatFilter (Some t)),
       fb_error = None\<rparr>)"

text \<open>\<open>submit\<close>: the expression that is handed over, or the editor with its error.\<close>

definition builder_submit :: "(string \<Rightarrow> bool) \<Rightarrow> FilterBuilder \<Rightarrow> FilterBuilder + FilterExpr" where
  "builder_submit valid_regexp b =
     (case fb_tab b of
        Tab_text \<Rightarrow>
          (case parseFilter (fb_text b) of
             Inl e \<Rightarrow> Inl (b\<lparr>fb_error := Some (err_message e)\<rparr>)
           | Inr None \<Rightarrow> Inl (b\<lparr>fb_error := Some ''Enter a filter.''\<rparr>)
           | Inr (Some f) \<Rightarrow> Inr f)
      | Tab_builder \<Rightarrow>
          (case buildExpr valid_regexp (fb_field b) (fb_op b) (fb_value b) of
             Inl m \<Rightarrow> Inl (b\<lparr>fb_error := Some m\<rparr>)
           | Inr f \<Rightarrow> Inr f))"

definition builder_tab :: "(string \<Rightarrow> bool) \<Rightarrow> BuilderTab \<Rightarrow> FilterBuilder \<Rightarrow> FilterBuilder" where
  "builder_tab valid_regexp t b =
     (let b1 = b\<lparr>fb_error := None\<rparr>;
          b2 = (if t = Tab_text \<and> fb_tab b = Tab_builder then
                  (case buildExpr valid_regexp (fb_field b) (fb_op b) (fb_value b) of
                     Inl _ \<Rightarrow> b1 | Inr f \<Rightarrow> b1\<lparr>fb_text := formatFilter (Some f)\<rparr>)
                else b1)
      in b2\<lparr>fb_tab := t\<rparr>)"

text \<open>Picking one of the top values: in a list it takes the place of the part being typed.\<close>

definition builder_pick :: "string \<Rightarrow> FilterBuilder \<Rightarrow> FilterBuilder" where
  "builder_pick v b =
     b\<lparr>fb_value :=
        (if \<not> List.member LIST_OPS (fb_op b) then v
         else join '', '' (filter (\<lambda>p. p \<noteq> []) (butlast (map trim (split_on (\<lambda>c. c = CHR '','') (fb_value b))) @ [v])) @ '', '')\<rparr>"

section \<open>The bar\<close>

datatype Editing = Editing_term nat | Editing_new

record QueryBar =
  qb_text :: string
  qb_textError :: "string option"
  qb_editing :: "Editing option"
  qb_draftNative :: string
  qb_prevNative :: string

definition bar_init :: "string \<Rightarrow> QueryBar" where
  "bar_init native =
     \<lparr>qb_text = [], qb_textError = None, qb_editing = None, qb_draftNative = native, qb_prevNative = native\<rparr>"

text \<open>The adjustment of the draft when the URL's query is another one.\<close>

definition bar_render :: "string \<Rightarrow> QueryBar \<Rightarrow> QueryBar" where
  "bar_render native b =
     (if qb_prevNative b \<noteq> native then b\<lparr>qb_prevNative := native, qb_draftNative := native\<rparr> else b)"

definition bar_terms :: "'r Router \<Rightarrow> 'r Explorer \<Rightarrow> FilterExpr list" where
  "bar_terms R s = andTerms (dq_filter (explorer_query R s))"

definition replaceTerms :: "'r Router \<Rightarrow> FilterExpr list \<Rightarrow> 'r Explorer \<Rightarrow> 'r Explorer" where
  "replaceTerms R ts s = setFilter R (combineAnd ts) s"

definition commitText :: "'r Router \<Rightarrow> QueryBar \<times> 'r Explorer \<Rightarrow> QueryBar \<times> 'r Explorer" where
  "commitText R bs =
     (let (b, s) = bs; t = trim (qb_text b) in
      if t = [] then (b, explorer_run s)
      else (case parseFilter t of
              Inl e \<Rightarrow> (b\<lparr>qb_textError := Some (err_message e)\<rparr>, s)
            | Inr p \<Rightarrow>
                (b\<lparr>qb_text := [], qb_textError := None\<rparr>,
                 if p = None then s else replaceTerms R (bar_terms R s @ andTerms p) s)))"

definition bar_keydown :: "'r Router \<Rightarrow> string \<Rightarrow> QueryBar \<times> 'r Explorer \<Rightarrow> QueryBar \<times> 'r Explorer" where
  "bar_keydown R key bs =
     (let (b, s) = bs; ts = bar_terms R s in
      if key = ''Enter'' then commitText R bs
      else if key = ''Backspace'' \<and> qb_text b = [] \<and> ts \<noteq> [] then (b, replaceTerms R (butlast ts) s)
      else bs)"

definition bar_type :: "string \<Rightarrow> QueryBar \<Rightarrow> QueryBar" where
  "bar_type t b = b\<lparr>qb_text := t, qb_textError := None\<rparr>"

definition chip_negate :: "'r Router \<Rightarrow> nat \<Rightarrow> QueryBar \<times> 'r Explorer \<Rightarrow> QueryBar \<times> 'r Explorer" where
  "chip_negate R i bs =
     (let (b, s) = bs; ts = bar_terms R s
      in (b, replaceTerms R (map (\<lambda>j. if j = i then negate (ts ! j) else ts ! j) [0..<length ts]) s))"

definition chip_remove :: "'r Router \<Rightarrow> nat \<Rightarrow> QueryBar \<times> 'r Explorer \<Rightarrow> QueryBar \<times> 'r Explorer" where
  "chip_remove R i bs =
     (let (b, s) = bs; ts = bar_terms R s in (b, replaceTerms R (map (\<lambda>j. ts ! j) (filter (\<lambda>j. j \<noteq> i) [0..<length ts])) s))"

definition chip_edit :: "'r Router \<Rightarrow> nat \<Rightarrow> FilterExpr \<Rightarrow> QueryBar \<times> 'r Explorer \<Rightarrow> QueryBar \<times> 'r Explorer" where
  "chip_edit R i expr bs =
     (let (b, s) = bs; ts = bar_terms R s
      in (b\<lparr>qb_editing := None\<rparr>,
          replaceTerms R (concat (map (\<lambda>j. if j = i then andTerms (Some expr) else [ts ! j]) [0..<length ts])) s))"

definition chip_add :: "'r Router \<Rightarrow> FilterExpr \<Rightarrow> QueryBar \<times> 'r Explorer \<Rightarrow> QueryBar \<times> 'r Explorer" where
  "chip_add R expr bs =
     (let (b, s) = bs in (b\<lparr>qb_editing := None\<rparr>, replaceTerms R (bar_terms R s @ andTerms (Some expr)) s))"

text \<open>The run button, the advanced editor's run, and \<open>edit as LogsQL\<close>.\<close>

definition bar_run :: "'r Router \<Rightarrow> QueryBar \<times> 'r Explorer \<Rightarrow> QueryBar \<times> 'r Explorer" where
  "bar_run R bs =
     (let (b, s) = bs; native = orElse (es_native (explorer_search R s)) [];
          (b1, s1) = (if es_mode (explorer_search R s) = ''advanced'' \<and> qb_draftNative b \<noteq> native
                      then (b, onNativeChange R (qb_draftNative b) s) else commitText R bs)
      in (b1, explorer_run s1))"

definition editor_run :: "'r Router \<Rightarrow> string \<Rightarrow> QueryBar \<times> 'r Explorer \<Rightarrow> QueryBar \<times> 'r Explorer" where
  "editor_run R v bs = (fst bs, explorer_run (onNativeChange R v (snd bs)))"

definition edit_as_logsql :: "'r Router \<Rightarrow> string \<Rightarrow> QueryBar \<times> 'r Explorer \<Rightarrow> QueryBar \<times> 'r Explorer" where
  "edit_as_logsql R native_compiled bs =
     (fst bs, onModeChange R ''advanced'' (setFilter R None (onNativeChange R native_compiled (snd bs))))"

section \<open>Facts about the editor\<close>

lemma trim_space: "trim (CHR '' '' # w) = trim w"
  by (simp add: trim_def trimStart_def is_space_def)

lemma split_after_space:
  "map trim (split_on (\<lambda>c. c = CHR '','') (CHR '' '' # s)) = map trim (split_on (\<lambda>c. c = CHR '','') s)"
  by (cases "split_on (\<lambda>c. c = CHR '','') s") (simp_all add: trim_space)

lemma split_joined_list:
  assumes "\<forall>w \<in> set ws. list_item (\<lambda>c. c = CHR '','') w"
  shows "split_list (\<lambda>c. c = CHR '','') (join '', '' ws) = ws"
proof -
  have "map trim (split_on (\<lambda>c. c = CHR '','') (join '', '' ws)) = ws" if "ws \<noteq> []"
    using that assms
  proof (induction ws)
    case (Cons w ws)
    have w: "\<forall>c \<in> set w. c \<noteq> CHR '',''" "trim w = w" using Cons.prems by (auto simp: list_item_def trim_id)
    show ?case
    proof (cases "ws = []")
      case True
      then show ?thesis using w by (simp add: split_on_none)
    next
      case False
      have "split_on (\<lambda>c. c = CHR '','') (join '', '' (w # ws)) =
          w # split_on (\<lambda>c. c = CHR '','') (CHR '' '' # join '', '' ws)"
        using False w(1) split_on_append_sep [of w "\<lambda>c. c = CHR '',''" "CHR '',''" "CHR '' '' # join '', '' ws"]
        by (simp add: join_Cons)
      then show ?thesis using Cons False w(2) split_after_space [of "join '', '' ws"] by simp
    qed
  qed simp
  moreover have "filter (\<lambda>w. w \<noteq> []) ws = ws"
    using assms by (intro filter_True) (auto simp: list_item_def)
  ultimately show ?thesis by (cases "ws = []") (simp_all add: split_list_def)
qed

lemma trimmed_trim_id: "trim (trim s) = trim s"
  by (simp add: trim_id)

text \<open>Everything the editor hands over is canonical.\<close>

lemma buildExpr_canonical: "buildExpr valid_regexp field op v = Inr e \<Longrightarrow> canonical e \<and> isSimpleTerm e"
  by (cases op) (auto simp: isSimpleTerm_def Let_def split: if_splits)

lemma builder_submit_canonical: "builder_submit valid_regexp b = Inr e \<Longrightarrow> canonical e"
  by (auto simp: builder_submit_def split: BuilderTab.splits sum.splits option.splits
      dest: parseFilter_canonical buildExpr_canonical)

lemma buildExpr_again:
  assumes "buildExpr valid_regexp field op v = Inr e"
  shows "\<exists>f o1 w. initialState (Some e) = (f, o1, w) \<and> buildExpr valid_regexp f o1 w = Inr e"
proof (cases op)
  case (FVS o2)
  let ?vs = "split_list (\<lambda>c. c = CHR '','') v"
  have e: "e = FieldValuesExpr o2 (trim field) ?vs" and ne: "trim field \<noteq> []" "?vs \<noteq> []"
    using assms FVS by (auto simp: Let_def split: if_splits)
  have "split_list (\<lambda>c. c = CHR '','') (join '', '' ?vs) = ?vs"
    by (intro split_joined_list ballI split_list_item)
  then show ?thesis using e ne by (simp add: Let_def trimmed_trim_id)
qed (use assms in \<open>auto simp: trimmed_trim_id split: if_splits\<close>)

text \<open>A value with a comma is split when its chip is opened and saved unchanged.\<close>

lemma builder_splits_commas:
  "builder_submit valid_regexp (open_builder (Some (FieldValuesExpr In ''user'' [''Doe, J''])))
     = Inr (FieldValuesExpr In ''user'' [''Doe'', ''J''])"
proof -
  have "split_list (\<lambda>c. c = CHR '','') ''Doe, J'' = [''Doe'', ''J'']" "trim ''user'' = ''user''" by code_simp+
  then show ?thesis by (simp add: builder_submit_def open_builder_def isSimpleTerm_def Let_def)
qed

section \<open>Facts about the chips\<close>

lemma combineAnd_finish: "combineAnd ts = (if ts = [] then None else Some (finish_args And ts))"
  by (simp add: combineAnd_def finish_args_def split: list.split)

lemma combineAnd_list_canonical: "list_all canonical ts \<Longrightarrow> pred_option canonical (combineAnd ts)"
  by (simp add: combineAnd_finish finish_args_canonical)

lemma negate_canonical: "canonical t \<Longrightarrow> negate t \<noteq> FieldExistsExpr Exists [] \<Longrightarrow> canonical (negate t)"
  by (cases t rule: negate.cases) simp_all

lemma andTerms_list_canonical: "canonical e \<Longrightarrow> list_all canonical (andTerms (Some e))"
  by (cases e) (simp_all add: andTerms_def list_all_iff split: if_split)

lemma bar_terms_canonical: "list_all canonical (bar_terms R s)"
proof (cases "dq_filter (explorer_query R s)")
  case (Some e)
  then have "canonical e" using decodeQuery_canonical [of "es_q (explorer_search R s)"] by (simp add: explorer_query_def)
  then show ?thesis using andTerms_list_canonical Some by (simp add: bar_terms_def)
qed (simp add: bar_terms_def andTerms_def)

lemma replaceTerms_shows:
  assumes "zod_laws zod" and "router_laws zod R" and "explorer_ok R s" and "list_all canonical ts"
  shows "explorer_query R (replaceTerms R ts s) =
      \<lparr>dq_filter = combineAnd ts, dq_native = dq_native (explorer_query R s), dq_error = None\<rparr>"
    and "selects (matchFilter regexp) row (dq_filter (explorer_query R (replaceTerms R ts s))) \<longleftrightarrow>
      list_all (matchFilter regexp row) ts"
proof -
  show q: "explorer_query R (replaceTerms R ts s) =
      \<lparr>dq_filter = combineAnd ts, dq_native = dq_native (explorer_query R s), dq_error = None\<rparr>"
    using setFilter_shows(1) [OF assms(1-3) combineAnd_list_canonical [OF assms(4)]] by (simp add: replaceTerms_def)
  show "selects (matchFilter regexp) row (dq_filter (explorer_query R (replaceTerms R ts s))) \<longleftrightarrow>
      list_all (matchFilter regexp row) ts"
    unfolding q by (simp add: mf.combineAnd_sat list_all_iff)
qed

section \<open>Edits of the query\<close>

datatype bar_edit =
    Commit
  | Backspace
  | Negate nat
  | Remove nat
  | Edit nat FilterExpr
  | Add FilterExpr

fun bar_apply :: "'r Router \<Rightarrow> bar_edit \<Rightarrow> QueryBar \<times> 'r Explorer \<Rightarrow> QueryBar \<times> 'r Explorer" where
  "bar_apply R Commit bs = commitText R bs"
| "bar_apply R Backspace bs = bar_keydown R ''Backspace'' bs"
| "bar_apply R (Negate i) bs = chip_negate R i bs"
| "bar_apply R (Remove i) bs = chip_remove R i bs"
| "bar_apply R (Edit i e) bs = chip_edit R i e bs"
| "bar_apply R (Add e) bs = chip_add R e bs"

text \<open>What an edit means for a row, from the truth of each chip before.\<close>

fun bar_meaning :: "(FilterExpr \<Rightarrow> bool) \<Rightarrow> bar_edit \<Rightarrow> string \<Rightarrow> FilterExpr list \<Rightarrow> bool" where
  "bar_meaning sat Commit t ts \<longleftrightarrow>
     list_all sat ts \<and> (case parseFilter (trim t) of Inr (Some f) \<Rightarrow> sat f | _ \<Rightarrow> True)"
| "bar_meaning sat Backspace t ts \<longleftrightarrow> list_all sat (if t = [] then butlast ts else ts)"
| "bar_meaning sat (Negate i) t ts \<longleftrightarrow> list_all (\<lambda>j. sat (ts ! j) \<longleftrightarrow> j \<noteq> i) [0..<length ts]"
| "bar_meaning sat (Remove i) t ts \<longleftrightarrow> list_all (\<lambda>j. j = i \<or> sat (ts ! j)) [0..<length ts]"
| "bar_meaning sat (Edit i e) t ts \<longleftrightarrow> list_all (\<lambda>j. if j = i then sat e else sat (ts ! j)) [0..<length ts]"
| "bar_meaning sat (Add e) t ts \<longleftrightarrow> list_all sat ts \<and> sat e"

text \<open>The expressions come from the editor. Negating a chip that says no field is missing has no text form.\<close>

fun edit_ok :: "bar_edit \<Rightarrow> FilterExpr list \<Rightarrow> bool" where
  "edit_ok (Edit i e) ts \<longleftrightarrow> canonical e"
| "edit_ok (Add e) ts \<longleftrightarrow> canonical e"
| "edit_ok (Negate i) ts \<longleftrightarrow> i < length ts \<and> negate (ts ! i) \<noteq> FieldExistsExpr Exists []"
| "edit_ok _ ts \<longleftrightarrow> True"

text \<open>The chips an edit leaves; \<open>None\<close> where it leaves the URL alone.\<close>

fun bar_next :: "bar_edit \<Rightarrow> string \<Rightarrow> FilterExpr list \<Rightarrow> FilterExpr list option" where
  "bar_next Commit t ts =
     (if trim t = [] then None
      else case parseFilter (trim t) of Inr (Some f) \<Rightarrow> Some (ts @ andTerms (Some f)) | _ \<Rightarrow> None)"
| "bar_next Backspace t ts = (if t = [] \<and> ts \<noteq> [] then Some (butlast ts) else None)"
| "bar_next (Negate i) t ts = Some (map (\<lambda>j. if j = i then negate (ts ! j) else ts ! j) [0..<length ts])"
| "bar_next (Remove i) t ts = Some (map (\<lambda>j. ts ! j) (filter (\<lambda>j. j \<noteq> i) [0..<length ts]))"
| "bar_next (Edit i e) t ts = Some (concat (map (\<lambda>j. if j = i then andTerms (Some e) else [ts ! j]) [0..<length ts]))"
| "bar_next (Add e) t ts = Some (ts @ andTerms (Some e))"

lemma bar_apply_next:
  "case bar_next op (qb_text b) (bar_terms R s) of
     Some ts \<Rightarrow> snd (bar_apply R op (b, s)) = replaceTerms R ts s
   | None \<Rightarrow> snd (bar_apply R op (b, s)) \<in> {s, explorer_run s}"
  by (cases op)
    (auto simp: commitText_def bar_keydown_def chip_negate_def chip_remove_def chip_edit_def chip_add_def Let_def
      split: sum.splits option.splits)

lemma nth_canonical: "list_all canonical ts \<Longrightarrow> j < length ts \<Longrightarrow> canonical (ts ! j)"
  by (simp add: list_all_length)

lemma bar_next_canonical:
  assumes "list_all canonical ts" and "edit_ok op ts" and "bar_next op t ts = Some us"
  shows "list_all canonical us"
proof (cases op)
  case Commit
  then show ?thesis
    using assms parseFilter_canonical [of "trim t"]
    by (auto simp: andTerms_list_canonical split: if_splits sum.splits option.splits)
next
  case Backspace
  then show ?thesis using assms by (auto simp: list_all_iff dest: in_set_butlastD split: if_splits)
next
  case (Negate i)
  then show ?thesis
    using assms nth_canonical [OF assms(1)] negate_canonical [OF nth_canonical [OF assms(1)]] by (auto simp: list_all_iff)
next
  case (Remove i)
  then show ?thesis using assms nth_canonical [OF assms(1)] by (auto simp: list_all_iff)
next
  case (Edit i e)
  then show ?thesis
    using assms nth_canonical [OF assms(1)] andTerms_list_canonical [of e] by (auto simp: list_all_iff split: if_splits)
next
  case (Add e)
  then show ?thesis using assms by (auto simp: andTerms_list_canonical)
qed

lemma sat_andTerms: "list_all (matchFilter regexp row) (andTerms (Some e)) = matchFilter regexp row e"
  using mf.andTerms_sat [of regexp row "Some e"] by (simp add: selects_def list_all_iff)

lemma list_all_concat: "list_all P (concat xss) = list_all (list_all P) xss"
  by (induction xss) simp_all

lemma bar_next_meaning:
  assumes "bar_next op t ts = Some us"
  shows "list_all (matchFilter regexp row) us = bar_meaning (matchFilter regexp row) op t ts"
proof (cases op)
  case Commit
  then show ?thesis using assms by (auto simp: sat_andTerms split: if_splits sum.splits option.splits)
next
  case (Edit i e)
  then have us: "us = concat (map (\<lambda>j. if j = i then andTerms (Some e) else [ts ! j]) [0..<length ts])"
    using assms by simp
  have "list_all (matchFilter regexp row) (if j = i then andTerms (Some e) else [ts ! j]) =
      (if j = i then matchFilter regexp row e else matchFilter regexp row (ts ! j))" for j
    by (simp add: sat_andTerms)
  then show ?thesis using Edit unfolding us list_all_concat by (simp add: list.pred_map comp_def)
next
  case (Add e)
  then show ?thesis using assms by (auto simp: sat_andTerms)
next
  case (Remove i)
  then show ?thesis using assms by (fastforce simp: list_all_iff)
qed (use assms in \<open>auto simp: mf.negate_complement list_all_iff split: if_splits\<close>)

lemma bar_next_none:
  assumes "bar_next op t ts = None"
  shows "bar_meaning sat op t ts = list_all sat ts"
proof (cases op)
  case Commit
  moreover have "parseFilter [] = Inr None" by (simp add: parseFilter_def)
  ultimately show ?thesis using assms by (auto split: if_splits sum.splits option.splits)
qed (use assms in \<open>auto split: if_splits\<close>)

section \<open>Properties\<close>

text \<open>C4. Every edit in the query bar selects what it says, and keeps the rest: committing a text adds what it means (a text
  with an error changes nothing), negating a chip selects the rows that fail exactly this chip, removing, editing and
  adding a chip change the selection by that chip alone. The URL left behind parses, and the native query stays.\<close>

theorem query_bar_edits:
  assumes "zod_laws zod" and "router_laws zod R" and "page_ok R s0" and "explorer_reaches R s0 s"
    and "edit_ok op (bar_terms R s)" and "s' = snd (bar_apply R op (b, s))"
  shows "selects (matchFilter regexp) row (dq_filter (explorer_query R s')) =
      bar_meaning (matchFilter regexp row) op (qb_text b) (bar_terms R s) \<and>
    dq_native (explorer_query R s') = dq_native (explorer_query R s) \<and>
    dq_error (explorer_query R s') \<in> {None, dq_error (explorer_query R s)}"
proof -
  have ok: "explorer_ok R s" using explorer_reaches_ok [OF assms(1,2,4,3)] by (simp add: page_ok_def)
  show ?thesis
  proof (cases "bar_next op (qb_text b) (bar_terms R s)")
    case (Some us)
    then have "s' = replaceTerms R us s" using bar_apply_next [where op = op and b = b and R = R and s = s] assms(6) by simp
    moreover have "list_all canonical us" using bar_next_canonical [OF bar_terms_canonical assms(5) Some] .
    ultimately show ?thesis
      using replaceTerms_shows(1) [OF assms(1,2) ok, of us] replaceTerms_shows(2) [OF assms(1,2) ok, of us regexp row]
        bar_next_meaning [OF Some, of regexp row] by simp
  next
    case None
    then have "explorer_query R s' = explorer_query R s"
      using bar_apply_next [where op = op and b = b and R = R and s = s] assms(6) by (auto simp: explorer_query_def explorer_search_def explorer_run_def)
    then show ?thesis
      using bar_next_none [OF None] mf.andTerms_sat [of regexp row "dq_filter (explorer_query R s)"]
      by (simp add: bar_terms_def list_all_iff)
  qed
qed

theorem query_bar_edits_witness:
  "let s = setFilter sample_router (Some (FieldValueExpr Eq ''user'' ''ann'')) (explorer_init []);
     s' = snd (bar_apply sample_router (Negate 0) (bar_init [], s))
   in bar_terms sample_router s = [FieldValueExpr Eq ''user'' ''ann''] \<and>
      \<not> selects (matchFilter (\<lambda>p v. None)) sample_row (dq_filter (explorer_query sample_router s'))"
proof -
  let ?s = "setFilter sample_router (Some (FieldValueExpr Eq ''user'' ''ann'')) (explorer_init [])"
  have reach: "explorer_reaches sample_router (explorer_init []) ?s"
    unfolding explorer_reaches_def by (rule r_into_rtranclp, rule explorer_step.edit_filter)
  have ok: "explorer_ok sample_router (explorer_init [])" using sample_start_ok by (simp add: page_ok_def)
  have ts: "bar_terms sample_router ?s = [FieldValueExpr Eq ''user'' ''ann'']"
    using setFilter_shows(1) [OF sample_zod_laws sample_router_laws ok, of "Some (FieldValueExpr Eq ''user'' ''ann'')"]
    by (simp add: bar_terms_def andTerms_def)
  have row: "field_text sample_row ''user'' = ''ann''" by code_simp
  have "edit_ok (Negate 0) (bar_terms sample_router ?s)" by (simp add: ts)
  from query_bar_edits [OF sample_zod_laws sample_router_laws sample_start_ok reach this refl, of "\<lambda>p v. None" sample_row "bar_init []"]
  show ?thesis by (simp add: ts row)
qed

text \<open>C7. Whatever the filter editor accepts is a simple canonical term whose text parses back to it, and opening that term in
  the editor again and submitting it unchanged gives the same term.\<close>

theorem builder_reopens:
  assumes "buildExpr valid_regexp field op v = Inr e"
  shows "isSimpleTerm e \<and> canonical e \<and> parseFilter (formatFilter (Some e)) = Inr (Some e) \<and>
    builder_submit valid_regexp (open_builder (Some e)) = Inr e"
proof -
  have "canonical e" "isSimpleTerm e" using buildExpr_canonical [OF assms] by simp_all
  moreover obtain f o1 w where "initialState (Some e) = (f, o1, w)" "buildExpr valid_regexp f o1 w = Inr e"
    using buildExpr_again [OF assms] by blast
  ultimately show ?thesis
    by (simp add: formatFilter_def parse_fmt builder_submit_def open_builder_def)
qed

theorem builder_reopens_witness:
  "buildExpr (\<lambda>p. True) '' host '' (FVS In) ''a, b,,'' = Inr (FieldValuesExpr In ''host'' [''a'', ''b'']) \<and>
   builder_submit (\<lambda>p. True) (open_builder (Some (FieldValuesExpr In ''host'' [''a'', ''b'']))) =
     Inr (FieldValuesExpr In ''host'' [''a'', ''b''])"
proof -
  have "buildExpr (\<lambda>p. True) '' host '' (FVS In) ''a, b,,'' = Inr (FieldValuesExpr In ''host'' [''a'', ''b''])"
    by code_simp
  with builder_reopens [OF this] show ?thesis by blast
qed

end
