(* ===== verification/App_Routes.thy ===== *)
theory App_Routes
  imports Browser_State Api_Queries Lib_Text
begin

text \<open>
  Who sees which page: the routes and their guards of \<open>src/frontend/src/app/router.tsx\<close>, the handler for lost sessions of
  \<open>src/frontend/src/main.tsx\<close>, the login and password pages of \<open>src/frontend/src/features/auth\<close>, permissions
  (\<open>src/frontend/src/auth/permissions.ts\<close>), and what the sidebar (\<open>src/frontend/src/app/AppShell.tsx\<close>) and the
  command palette (\<open>src/frontend/src/app/CommandPalette.tsx\<close>) offer.

  A location is a route with its search string. Matching a path against the routes is the router's work.
\<close>

section \<open>Sessions and permissions\<close>

record Session =
  ses_permissions :: "string list"
  ses_must_change_password :: bool

definition useCan :: "Session option \<Rightarrow> string \<Rightarrow> bool" where
  "useCan data p = List.member (case data of None \<Rightarrow> [] | Some s \<Rightarrow> ses_permissions s) p"

section \<open>Routes\<close>

datatype Route =
    Login
  | Index
  | Dashboard
  | Logs
  | Live
  | Analytics_page
  | Searches
  | Search_page string
  | System_page
  | Sources
  | Source_page string
  | Forwarding
  | Users
  | Audit
  | Settings
  | Api_keys
  | Password

fun route_path :: "Route \<Rightarrow> string" where
  "route_path Login = ''/login''"
| "route_path Index = ''/''"
| "route_path Dashboard = ''/dashboard''"
| "route_path Logs = ''/logs''"
| "route_path Live = ''/logs/live''"
| "route_path Analytics_page = ''/analytics''"
| "route_path Searches = ''/searches''"
| "route_path (Search_page i) = ''/searches/'' @ i"
| "route_path System_page = ''/system''"
| "route_path Sources = ''/sources''"
| "route_path (Source_page i) = ''/sources/'' @ i"
| "route_path Forwarding = ''/forwarding''"
| "route_path Users = ''/users''"
| "route_path Audit = ''/audit''"
| "route_path Settings = ''/settings''"
| "route_path Api_keys = ''/settings/api-keys''"
| "route_path Password = ''/account/password''"

record Location =
  loc_route :: Route
  loc_search :: string
  loc_next :: "string option"

definition page_at :: "Route \<Rightarrow> Location" where
  "page_at r = \<lparr>loc_route = r, loc_search = [], loc_next = None\<rparr>"

definition login_at :: "string \<Rightarrow> Location" where
  "login_at href = \<lparr>loc_route = Login, loc_search = [], loc_next = Some href\<rparr>"

definition loc_href :: "Location \<Rightarrow> string" where
  "loc_href l = route_path (loc_route l) @ loc_search l"

section \<open>Guards\<close>

text \<open>A guard lets the session through, redirects, or fails with the error. \<open>answer\<close> is what \<open>ensureQueryData\<close>
  gives for the session.\<close>

datatype Halt = Redirect Location | Raise HookError

definition requireSession :: "HookError + Session \<Rightarrow> string \<Rightarrow> Halt + Session" where
  "requireSession answer href =
     (case answer of
        Inr s \<Rightarrow> Inr s
      | Inl e \<Rightarrow>
          (case e of
             Api_error a \<Rightarrow> Inl (if ae_status a = 401 then Redirect (login_at href) else Raise e)
           | Other_error m \<Rightarrow> Inl (Raise e)))"

definition app_beforeLoad :: "HookError + Session \<Rightarrow> Location \<Rightarrow> Halt + Session" where
  "app_beforeLoad answer l =
     (case requireSession answer (loc_href l) of
        Inl h \<Rightarrow> Inl h
      | Inr s \<Rightarrow>
          if ses_must_change_password s \<and> route_path (loc_route l) \<noteq> ''/account/password''
          then Inl (Redirect (page_at Password)) else Inr s)"

definition route_beforeLoad :: "Route \<Rightarrow> Session \<Rightarrow> Halt + Session" where
  "route_beforeLoad r s =
     (case r of
        Index \<Rightarrow> Inl (Redirect (page_at Dashboard))
      | Analytics_page \<Rightarrow>
          if List.member (ses_permissions s) ''logs:search'' then Inr s else Inl (Redirect (page_at Dashboard))
      | _ \<Rightarrow> Inr s)"

text \<open>Loading a location: the shell's guard, then the route's own. The login page has neither, and no session.\<close>

definition load_location :: "HookError + Session \<Rightarrow> Location \<Rightarrow> Halt + Session option" where
  "load_location answer l =
     (if loc_route l = Login then Inr None
      else case app_beforeLoad answer l of
             Inl h \<Rightarrow> Inl h
           | Inr s \<Rightarrow> map_sum id Some (route_beforeLoad (loc_route l) s))"

text \<open>Following redirects until a page is shown or an error is.\<close>

partial_function (option) follow :: "HookError + Session \<Rightarrow> Location \<Rightarrow> (Location \<times> (HookError + Session option)) option" where
  "follow answer l =
     (case load_location answer l of
        Inr s \<Rightarrow> Some (l, Inr s)
      | Inl h \<Rightarrow> (case h of Redirect l' \<Rightarrow> follow answer l' | Raise e \<Rightarrow> Some (l, Inl e)))"

text \<open>The handler for a request that was not authorized, over the location, the token and the cache: unless the login page
  is shown, both are dropped and the login page is next.\<close>

definition unauthorized :: "Location \<times> string option \<times> 'c list \<Rightarrow> Location \<times> string option \<times> 'c list" where
  "unauthorized app =
     (let l = fst app in if route_path (loc_route l) = ''/login'' then app else (login_at (loc_href l), None, []))"

definition default_retry :: "nat \<Rightarrow> HookError \<Rightarrow> bool" where
  "default_retry failures e \<longleftrightarrow>
     \<not> (case e of Api_error a \<Rightarrow> ae_status a < 500 | Other_error m \<Rightarrow> False) \<and> failures < 2"

section \<open>Login and password\<close>

text \<open>Where a successful login goes.\<close>

definition login_target :: "Session \<Rightarrow> string option \<Rightarrow> string" where
  "login_target s nxt = (if ses_must_change_password s then ''/account/password'' else safeNext nxt)"

definition login_message :: "HookError option \<Rightarrow> string option" where
  "login_message err =
     (case err of
        None \<Rightarrow> None
      | Some (Api_error a) \<Rightarrow>
          if ae_status a = 401 then Some ''Invalid username or password.''
          else if ae_status a = 429 then Some ''Too many attempts. Please wait a moment and try again.''
          else Some (ae_message a)
      | Some (Other_error m) \<Rightarrow> Some m)"

text \<open>Submitting the password form: the local error it shows, and the passwords it sends.\<close>

definition password_submit :: "string \<Rightarrow> string \<Rightarrow> string \<Rightarrow> string option \<times> (string \<times> string) option" where
  "password_submit current nxt confirm =
     (let err = validateNewPassword current nxt confirm in (err, if orElse err [] \<noteq> [] then None else Some (current, nxt)))"

section \<open>The sidebar\<close>

record NavItem =
  nav_to :: string
  nav_label :: string
  nav_perm :: string

datatype NavEntry = Nav_item NavItem | Nav_group string "NavItem list"

definition NAV :: "NavEntry list" where
  "NAV =
     [Nav_item \<lparr>nav_to = ''/dashboard'', nav_label = ''Dashboard'', nav_perm = ''dashboard:view''\<rparr>,
      Nav_group ''Explore''
        [\<lparr>nav_to = ''/logs'', nav_label = ''Logs'', nav_perm = ''logs:search''\<rparr>,
         \<lparr>nav_to = ''/logs/live'', nav_label = ''Live Tail'', nav_perm = ''logs:tail''\<rparr>],
      Nav_item \<lparr>nav_to = ''/sources'', nav_label = ''Sources'', nav_perm = ''sources:read''\<rparr>,
      Nav_item \<lparr>nav_to = ''/forwarding'', nav_label = ''Forwarding'', nav_perm = ''system:view''\<rparr>,
      Nav_item \<lparr>nav_to = ''/searches'', nav_label = ''Saved Searches'', nav_perm = ''searches:read''\<rparr>,
      Nav_item \<lparr>nav_to = ''/analytics'', nav_label = ''Analytics'', nav_perm = ''logs:search''\<rparr>,
      Nav_item \<lparr>nav_to = ''/system'', nav_label = ''System'', nav_perm = ''system:view''\<rparr>,
      Nav_group ''Administration''
        [\<lparr>nav_to = ''/settings/api-keys'', nav_label = ''API Keys'', nav_perm = ''apikeys:own''\<rparr>,
         \<lparr>nav_to = ''/users'', nav_label = ''Users'', nav_perm = ''users:manage''\<rparr>,
         \<lparr>nav_to = ''/audit'', nav_label = ''Audit Log'', nav_perm = ''audit:view''\<rparr>,
         \<lparr>nav_to = ''/settings'', nav_label = ''Settings & Retention'', nav_perm = ''system:view''\<rparr>]]"

text \<open>The entries the sidebar draws; a group without entries is left out.\<close>

fun visible_entry :: "(string \<Rightarrow> bool) \<Rightarrow> NavEntry \<Rightarrow> NavEntry list" where
  "visible_entry can (Nav_item i) = (if can (nav_perm i) then [Nav_item i] else [])"
| "visible_entry can (Nav_group label kids) =
     (let ks = filter (\<lambda>c. can (nav_perm c)) kids in if ks = [] then [] else [Nav_group label ks])"

definition sidebar :: "(string \<Rightarrow> bool) \<Rightarrow> NavEntry list" where
  "sidebar can = concat (map (visible_entry can) NAV)"

definition nav_active :: "string \<Rightarrow> NavItem \<Rightarrow> bool" where
  "nav_active pathname item \<longleftrightarrow>
     pathname = nav_to item \<or> nav_to item \<noteq> ''/logs'' \<and> startsWith pathname (nav_to item @ ''/'')"

fun nav_items :: "NavEntry \<Rightarrow> NavItem list" where
  "nav_items (Nav_item i) = [i]"
| "nav_items (Nav_group label kids) = kids"

text \<open>The pages of the command palette.\<close>

definition palette_pages :: "(string \<Rightarrow> bool) \<Rightarrow> string list" where
  "palette_pages can =
     concat (map (\<lambda>(p, perm). if case perm of None \<Rightarrow> True | Some q \<Rightarrow> can q then [p] else [])
       [(''/dashboard'', Some ''dashboard:view''), (''/logs'', Some ''logs:search''), (''/logs/live'', Some ''logs:tail''),
        (''/analytics'', Some ''logs:search''), (''/searches'', None), (''/sources'', Some ''sources:read''),
        (''/forwarding'', Some ''system:view''), (''/system'', Some ''system:view''), (''/settings/api-keys'', None),
        (''/users'', Some ''users:manage''), (''/audit'', Some ''audit:view''), (''/settings'', Some ''system:view'')])"

text \<open>The shortcuts of the shell: the page each sequence goes to.\<close>

definition shellBindings :: Bindings where
  "shellBindings =
     [(''mod+k'', 0), (''?'', 1), (''['', 2), (''g d'', 3), (''g l'', 4), (''g t'', 5), (''g a'', 6), (''g s'', 7), (''g y'', 8)]"

definition shell_target :: "string \<Rightarrow> Route option" where
  "shell_target combo =
     map_of [(''g d'', Dashboard), (''g l'', Logs), (''g t'', Live), (''g a'', Analytics_page), (''g s'', Searches),
             (''g y'', System_page)] combo"

section \<open>Facts\<close>

lemma password_path: "route_path r = ''/account/password'' \<longleftrightarrow> r = Password"
  by (cases r) simp_all

lemma follow_here: "load_location answer l = Inr s \<Longrightarrow> follow answer l = Some (l, Inr s)"
  by (simp add: follow.simps [of answer l])

lemma follow_fails: "load_location answer l = Inl (Raise e) \<Longrightarrow> follow answer l = Some (l, Inl e)"
  by (simp add: follow.simps [of answer l])

lemma follow_redirect: "load_location answer l = Inl (Redirect l') \<Longrightarrow> follow answer l = follow answer l'"
  by (simp add: follow.simps [of answer l])

lemma load_login: "load_location answer (login_at href) = Inr None"
  by (simp add: load_location_def login_at_def)

lemma load_password: "load_location (Inr s) (page_at Password) = Inr (Some s)"
  by (simp add: load_location_def page_at_def app_beforeLoad_def requireSession_def route_beforeLoad_def)

lemma load_dashboard: "\<not> ses_must_change_password s \<Longrightarrow> load_location (Inr s) (page_at Dashboard) = Inr (Some s)"
  by (simp add: load_location_def page_at_def app_beforeLoad_def requireSession_def route_beforeLoad_def)

lemma load_session:
  "loc_route l \<noteq> Login \<Longrightarrow>
   load_location (Inr s) l =
     (if ses_must_change_password s \<and> loc_route l \<noteq> Password then Inl (Redirect (page_at Password))
      else map_sum id Some (route_beforeLoad (loc_route l) s))"
  by (simp add: load_location_def app_beforeLoad_def requireSession_def password_path)

lemma load_error:
  "loc_route l \<noteq> Login \<Longrightarrow>
   load_location (Inl e) l =
     Inl (case e of Api_error a \<Rightarrow> if ae_status a = 401 then Redirect (login_at (loc_href l)) else Raise e | Other_error m \<Rightarrow> Raise e)"
  by (simp add: load_location_def app_beforeLoad_def requireSession_def split: HookError.split)

text \<open>Every path of the interface is one a login may return to.\<close>

lemma safeNext_href:
  assumes "loc_route l \<noteq> Login" and "loc_search l = [] \<or> hd (loc_search l) = CHR ''?''"
  shows "safeNext (Some (loc_href l)) = loc_href l"
  using assms
  by (cases "loc_route l"; cases "loc_search l") (auto simp: safeNext_def loc_href_def startsWith_def)

text \<open>The sidebar offers exactly the entries the permissions allow.\<close>

lemma sidebar_allowed:
  "concat (map nav_items (sidebar can)) = filter (\<lambda>i. can (nav_perm i)) (concat (map nav_items NAV))"
proof -
  have "concat (map nav_items (visible_entry can e)) = filter (\<lambda>i. can (nav_perm i)) (nav_items e)" for e
    by (cases e) (simp_all add: Let_def)
  then have "concat (map nav_items (concat (map (visible_entry can) es))) =
      filter (\<lambda>i. can (nav_perm i)) (concat (map nav_items es))" for es
    by (induction es) simp_all
  then show ?thesis by (simp only: sidebar_def)
qed

text \<open>On the page of the API keys two entries of the sidebar are current: its own, and the settings'.\<close>

lemma two_current_entries:
  "map nav_label (filter (nav_active (route_path Api_keys)) (concat (map nav_items NAV))) = [''API Keys'', ''Settings & Retention'']"
  by code_simp

text \<open>The palette offers two pages to users whose sidebar does not.\<close>

lemma palette_ignores_permissions:
  "palette_pages (\<lambda>p. False) = [''/searches'', ''/settings/api-keys''] \<and> sidebar (\<lambda>p. False) = []"
  by code_simp

section \<open>Properties\<close>

definition unauthorized_error :: "HookError \<Rightarrow> bool" where
  "unauthorized_error e = (case e of Api_error a \<Rightarrow> ae_status a = 401 | Other_error m \<Rightarrow> False)"

text \<open>C12. Redirects end, and no page but the login is shown without a session. With one, a user who has to change the password
  sees only that page, the analytics need their permission, and every other page is the one asked for. Without a session
  the login page is shown, and a login from there returns to the address that was asked for.\<close>

theorem routes_guarded:
  assumes "loc_search l = [] \<or> hd (loc_search l) = CHR ''?''"
  shows "\<exists>l' out. follow answer l = Some (l', out) \<and>
    (if loc_route l = Login then l' = l \<and> out = Inr None
     else case answer of
       Inr s \<Rightarrow>
         out = Inr (Some s) \<and>
         l' = (if ses_must_change_password s then (if loc_route l = Password then l else page_at Password)
               else if loc_route l = Index \<or> loc_route l = Analytics_page \<and> \<not> useCan (Some s) ''logs:search''
               then page_at Dashboard else l)
     | Inl e \<Rightarrow>
         if unauthorized_error e
         then l' = login_at (loc_href l) \<and> out = Inr None \<and>
           (\<forall>s. login_target s (loc_next l') = (if ses_must_change_password s then route_path Password else loc_href l))
         else l' = l \<and> out = Inl e)"
proof (cases "loc_route l = Login")
  case True
  then show ?thesis using follow_here [of answer l None] by (simp add: load_location_def)
next
  case False
  show ?thesis
  proof (cases answer)
    case (Inl e)
    show ?thesis
    proof (cases "unauthorized_error e")
      case True
      then have "load_location answer l = Inl (Redirect (login_at (loc_href l)))"
        using load_error [OF False, of e] Inl by (cases e) (simp_all add: unauthorized_error_def)
      then have "follow answer l = Some (login_at (loc_href l), Inr None)"
        using follow_redirect follow_here [OF load_login] by metis
      then show ?thesis using Inl True False safeNext_href [OF False assms] by (simp add: login_at_def login_target_def)
    next
      case no: False
      then have "load_location answer l = Inl (Raise e)"
        using load_error [OF False, of e] Inl by (cases e) (simp_all add: unauthorized_error_def)
      then show ?thesis using follow_fails Inl no False by simp
    qed
  next
    case (Inr s)
    note load = load_session [OF False, of s]
    show ?thesis
    proof (cases "ses_must_change_password s")
      case True
      then show ?thesis
        using load Inr False follow_here [OF load_password [of s]] follow_redirect [of answer l "page_at Password"]
          follow_here [of answer l "Some s"]
        by (cases "loc_route l = Password") (simp_all add: route_beforeLoad_def)
    next
      case ok: False
      have dash: "follow answer (page_at Dashboard) = Some (page_at Dashboard, Inr (Some s))"
        using follow_here [OF load_dashboard [OF ok]] Inr by simp
      show ?thesis
      proof (cases "loc_route l = Index \<or> loc_route l = Analytics_page \<and> \<not> useCan (Some s) ''logs:search''")
        case True
        then have "load_location answer l = Inl (Redirect (page_at Dashboard))"
          using load ok Inr by (auto simp: route_beforeLoad_def useCan_def)
        then show ?thesis using dash follow_redirect [of answer l] True False ok Inr by auto
      next
        case shown: False
        then have "load_location answer l = Inr (Some s)"
          using load ok Inr by (cases "loc_route l") (auto simp: route_beforeLoad_def useCan_def)
        then show ?thesis using follow_here shown False ok Inr by auto
      qed
    qed
  qed
qed

theorem routes_guarded_witness:
  "follow (Inl (Api_error (new_ApiError 401 None None))) \<lparr>loc_route = Logs, loc_search = ''?q=a'', loc_next = None\<rparr> =
   Some (login_at ''/logs?q=a'', Inr None)"
  using routes_guarded [of "\<lparr>loc_route = Logs, loc_search = ''?q=a'', loc_next = None\<rparr>"
      "Inl (Api_error (new_ApiError 401 None None))"]
  by (auto simp: unauthorized_error_def new_ApiError_def loc_href_def Let_def)

end
