(* ===== verification/Editors.thy ===== *)
theory Editors
  imports Source_Roundtrip Source_Problems Forward_Form Api_Queries
begin

text \<open>
  The two editors that save through the API: the page of a source,
  \<open>src/frontend/src/features/sources/SourceDetailPage.tsx\<close>, and the dialog of a forward target,
  \<open>src/frontend/src/features/forwarding/ForwardTargetDialog.tsx\<close>. A handler gives the editor and the request it sends.
  \<open>error_text\<close> is \<open>String\<close> of a thrown error.
\<close>

section \<open>The contract of saving\<close>

definition conflicting :: "HookError \<Rightarrow> bool" where
  "conflicting err = (case err of Api_error e \<Rightarrow> ae_status e = 409 | Other_error m \<Rightarrow> False)"

definition error_problem :: "HookError \<Rightarrow> Problem option" where
  "error_problem err = (case err of Api_error e \<Rightarrow> map_option Problem.truncate (ae_problem e) | Other_error m \<Rightarrow> None)"

text \<open>An attempt to save that does not succeed: the form is refused, or the server's answer is an error.\<close>

definition attempt ::
  "('s \<Rightarrow> 's \<times> 'r option) \<Rightarrow> (HookError \<Rightarrow> 's \<Rightarrow> 's) \<Rightarrow> HookError \<Rightarrow> 's \<Rightarrow> 's" where
  "attempt submit refuse err s = (case submit s of (s1, None) \<Rightarrow> s1 | (s1, Some r) \<Rightarrow> refuse err s1)"

text \<open>What both editors promise: neither submitting nor a refusal touches the form, a request is sent exactly when the form
  is accepted, and a refused form or request leaves something to read.\<close>

locale save_flow =
  fixes form :: "'s \<Rightarrow> 'f"
    and errors :: "'s \<Rightarrow> 'e"
    and conflict :: "'s \<Rightarrow> bool"
    and has :: "'e \<Rightarrow> bool"
    and client_errors :: "'f \<Rightarrow> 'e"
    and submit :: "'s \<Rightarrow> 's \<times> 'r option"
    and refuse :: "HookError \<Rightarrow> 's \<Rightarrow> 's"
  assumes submit_form: "form (fst (submit s)) = form s"
    and submit_refused: "has (client_errors (form s)) \<Longrightarrow> snd (submit s) = None \<and> errors (fst (submit s)) = client_errors (form s)"
    and submit_sent: "\<not> has (client_errors (form s)) \<Longrightarrow> snd (submit s) \<noteq> None \<and> \<not> conflict (fst (submit s))"
    and fail_form: "form (refuse err s) = form s"
    and fail_conflict: "conflicting err \<Longrightarrow> conflict (refuse err s)"
    and fail_shows: "\<not> conflicting err \<Longrightarrow> has (errors (refuse err s)) \<and> conflict (refuse err s) = conflict s"
begin

lemma attempt_keeps_form: "form (attempt submit refuse err s) = form s"
  using submit_form [of s] by (auto simp: attempt_def fail_form split: prod.split option.split)

lemma attempts_keep_form: "form (fold (attempt submit refuse) errs s) = form s"
  by (induction errs arbitrary: s) (simp_all add: attempt_keeps_form)

lemma attempt_speaks: "has (errors (attempt submit refuse err s)) \<or> conflict (attempt submit refuse err s)"
  using submit_refused [of s] submit_sent [of s] fail_conflict fail_shows
  by (cases "has (client_errors (form s))"; cases "conflicting err") (auto simp: attempt_def split: prod.split option.split)

lemma attempt_refused: "has (client_errors (form s)) \<Longrightarrow> errors (attempt submit refuse err s) = client_errors (form s)"
  using submit_refused [of s] by (auto simp: attempt_def split: prod.split option.split)

lemma attempt_conflict:
  "\<not> has (client_errors (form s)) \<Longrightarrow> conflict (attempt submit refuse err s) = conflicting err"
  using submit_sent [of s] fail_conflict fail_shows
  by (cases "conflicting err") (auto simp: attempt_def split: prod.split option.split)

end

section \<open>The page of a source\<close>

record SourceDetail = ManagedSource +
  ms_version :: "nat option"
  ms_origin_file :: bool

text \<open>What a query shows: its error, and the data it has.\<close>

type_synonym 'a shown_query = "HookError option \<times> 'a option"

datatype SourceView = View_editor "SourceDetail option" bool | View_error HookError | View_no_source string | View_loading

definition SourceDetailPage ::
  "string \<Rightarrow> SourceDetail shown_query \<Rightarrow> SourceDetail list shown_query \<Rightarrow> SourceView" where
  "SourceDetailPage param managed sources =
     (case parseSourceRouteId param of
        Route_new \<Rightarrow> View_editor None False
      | Route_managed i \<Rightarrow>
          (case managed of
             (Some e, _) \<Rightarrow> View_error e
           | (None, None) \<Rightarrow> View_loading
           | (None, Some s) \<Rightarrow> View_editor (Some s) False)
      | Route_file name \<Rightarrow>
          (case sources of
             (Some e, _) \<Rightarrow> View_error e
           | (None, None) \<Rightarrow> View_loading
           | (None, Some ss) \<Rightarrow>
               (case List.find (\<lambda>s. ms_origin_file s \<and> sc_name (ms_config s) = name) ss of
                  None \<Rightarrow> View_no_source name
                | Some s \<Rightarrow> View_editor (Some s) True)))"

record SourceEditor =
  ed_form :: SourceFormState
  ed_errors :: SourceErrors
  ed_conflict :: bool
  ed_confirmDelete :: bool

datatype SourceRequest =
    Update_source string SourceConfig bool "nat option"
  | Create_source SourceConfig bool
  | Adopt_source string
  | Delete_source string

text \<open>An id that is there and not empty.\<close>

definition source_id :: "SourceDetail option \<Rightarrow> string option" where
  "source_id source = Option.bind (Option.bind source ms_id) nonempty"

definition editable :: "bool \<Rightarrow> bool \<Rightarrow> bool" where
  "editable readOnly manage = (\<not> readOnly \<and> manage)"

definition open_editor :: "SourceDetail option \<Rightarrow> nat \<Rightarrow> SourceEditor \<times> nat" where
  "open_editor source n =
     (let (f, n1) = (case source of None \<Rightarrow> (DEFAULT_SOURCE_FORM, n) | Some s \<Rightarrow> configToForm (ManagedSource.truncate s) n)
      in (\<lparr>ed_form = f, ed_errors = emptySourceErrors, ed_conflict = False, ed_confirmDelete = False\<rparr>, n1))"

definition source_submit :: "SourceDetail option \<Rightarrow> SourceEditor \<Rightarrow> SourceEditor \<times> SourceRequest option" where
  "source_submit source ed =
     (let (config, clientErrors) = formToConfig (ed_form ed) in
      if hasErrors clientErrors then (ed\<lparr>ed_errors := clientErrors\<rparr>, None)
      else (ed\<lparr>ed_errors := emptySourceErrors, ed_conflict := False\<rparr>,
            Some (case source_id source of
                    Some i \<Rightarrow> Update_source i config (f_enabled (ed_form ed)) (Option.bind source ms_version)
                  | None \<Rightarrow> Create_source config (f_enabled (ed_form ed)))))"

definition source_onError :: "(HookError \<Rightarrow> string) \<Rightarrow> HookError \<Rightarrow> SourceEditor \<Rightarrow> SourceEditor" where
  "source_onError error_text err ed =
     (if conflicting err then
        ed\<lparr>ed_conflict := True,
           ed_errors := emptySourceErrors\<lparr>se_general := [case err of Api_error e \<Rightarrow> ae_message e | Other_error m \<Rightarrow> m]\<rparr>\<rparr>
      else ed\<lparr>ed_errors := sourceProblemErrors (error_problem err) (error_text err) (f_extract (ed_form ed))\<rparr>)"

definition onAdopt :: "SourceDetail \<Rightarrow> SourceRequest" where
  "onAdopt source = Adopt_source (sc_name (ms_config source))"

definition adopt_onError :: "(HookError \<Rightarrow> string) \<Rightarrow> HookError \<Rightarrow> SourceEditor \<Rightarrow> SourceEditor" where
  "adopt_onError error_text err ed = ed\<lparr>ed_errors := emptySourceErrors\<lparr>se_general := [error_text err]\<rparr>\<rparr>"

definition onDelete :: "SourceDetail option \<Rightarrow> SourceRequest option" where
  "onDelete source = map_option Delete_source (source_id source)"

definition delete_onError :: "HookError \<Rightarrow> SourceEditor \<Rightarrow> SourceEditor" where
  "delete_onError err ed =
     ed\<lparr>ed_confirmDelete := False,
        ed_errors := emptySourceErrors\<lparr>se_general := [case err of Api_error e \<Rightarrow> ae_message e | Other_error m \<Rightarrow> m]\<rparr>\<rparr>"

text \<open>The list under \<open>Could not save\<close>, which the banner of a conflict takes the place of.\<close>

definition shown_general :: "SourceEditor \<Rightarrow> string list" where
  "shown_general ed = (if ed_conflict ed then [] else se_general (ed_errors ed))"

section \<open>The dialog of a forward target\<close>

record ForwardDetail = ManagedForwardTarget +
  ft_version :: "nat option"

record ForwardDialog =
  fd_form :: ForwardFormState
  fd_errors :: ForwardErrors
  fd_conflict :: bool

datatype ForwardRequest =
    Update_target string ForwardTargetInput bool "nat option"
  | Create_target ForwardTargetInput

definition open_dialog :: "ForwardDetail option \<Rightarrow> ForwardDialog" where
  "open_dialog target =
     \<lparr>fd_form = (case target of None \<Rightarrow> DEFAULT_FORWARD_FORM | Some t \<Rightarrow> configToForwardForm (ManagedForwardTarget.truncate t)),
      fd_errors = emptyForwardErrors, fd_conflict = False\<rparr>"

definition source_options :: "string list \<Rightarrow> ForwardDialog \<Rightarrow> string list" where
  "source_options known d = uniq (known @ forwardSourceNames (ff_sources (fd_form d)))"

definition toggleSource :: "string \<Rightarrow> bool \<Rightarrow> ForwardDialog \<Rightarrow> ForwardDialog" where
  "toggleSource name on d =
     (let selected = forwardSourceNames (ff_sources (fd_form d));
          chosen = (if on then selected @ [name] else filter (\<lambda>n. n \<noteq> name) selected)
      in d\<lparr>fd_form := (fd_form d)\<lparr>ff_sources := join [NL] chosen\<rparr>\<rparr>)"

text \<open>Asking for the stored token to be removed empties the field of a new one.\<close>

definition removeToken :: "bool \<Rightarrow> ForwardDialog \<Rightarrow> ForwardDialog" where
  "removeToken checked d =
     (let f = (fd_form d)\<lparr>ff_remove_token := checked\<rparr>
      in d\<lparr>fd_form := if checked then f\<lparr>ff_token := []\<rparr> else f\<rparr>)"

definition forward_submit :: "ForwardDetail option \<Rightarrow> ForwardDialog \<Rightarrow> ForwardDialog \<times> ForwardRequest option" where
  "forward_submit target d =
     (let (inp, clientErrors) = formToForwardInput (fd_form d) in
      if hasForwardErrors clientErrors then (d\<lparr>fd_errors := clientErrors\<rparr>, None)
      else (d\<lparr>fd_errors := emptyForwardErrors, fd_conflict := False\<rparr>,
            Some (case target of
                    None \<Rightarrow> Create_target inp
                  | Some t \<Rightarrow>
                      (case Option.bind (ft_id t) nonempty of
                         Some i \<Rightarrow> Update_target i inp (ft_enabled t) (ft_version t)
                       | None \<Rightarrow> Create_target inp))))"

definition forward_onError :: "(HookError \<Rightarrow> string) \<Rightarrow> HookError \<Rightarrow> ForwardDialog \<Rightarrow> ForwardDialog" where
  "forward_onError error_text err d =
     (if conflicting err then d\<lparr>fd_conflict := True\<rparr>
      else d\<lparr>fd_errors := forwardProblemErrors (error_problem err) (error_text err)\<rparr>)"

definition fd_shown_general :: "ForwardDialog \<Rightarrow> string list" where
  "fd_shown_general d = (if fd_conflict d then [] else fe_general (fd_errors d))"

section \<open>Both editors keep the contract\<close>

interpretation src_save: save_flow ed_form ed_errors ed_conflict hasErrors "\<lambda>f. snd (formToConfig f)" "source_submit source"
    "source_onError error_text"
  by unfold_locales
    (auto simp: source_submit_def source_onError_def Let_def case_prod_beta sourceProblemErrors_def
      src_place.place_problem_has split: option.splits)

interpretation fwd_save: save_flow fd_form fd_errors fd_conflict hasForwardErrors "\<lambda>f. snd (formToForwardInput f)"
    "forward_submit target" "forward_onError error_text"
  by unfold_locales
    (auto simp: forward_submit_def forward_onError_def Let_def case_prod_beta forwardProblemErrors_def
      fwd_place.place_problem_has split: option.splits)

lemma source_attempt_readable:
  assumes "\<not> hasErrors (snd (formToConfig (ed_form ed)))" and "\<not> conflicting err"
  shows "list_all (entry_readable source_mentions (source_kept (f_extract (ed_form ed))) SOURCE_CONFIG_FIELD strip_source
      (ed_errors (attempt (source_submit source) (source_onError error_text) err ed)))
    (problem_entries (error_problem err) (error_text err))"
  using assms
  by (simp add: attempt_def source_submit_def source_onError_def Let_def case_prod_beta sourceProblemErrors_def
      src_place.place_problem_readable list_all_iff)

lemma forward_attempt_readable:
  assumes "\<not> hasForwardErrors (snd (formToForwardInput (fd_form d)))" and "\<not> conflicting err"
  shows "list_all (entry_readable forward_mentions (\<lambda>t. t) FORWARD_CONFIG_FIELD strip_target
      (fd_errors (attempt (forward_submit target) (forward_onError error_text) err d)))
    (problem_entries (error_problem err) (error_text err))"
  using assms
  by (simp add: attempt_def forward_submit_def forward_onError_def Let_def case_prod_beta forwardProblemErrors_def
      fwd_place.place_problem_readable list_all_iff)

lemma open_editor_form: "ed_form (fst (open_editor (Some s) n)) = fst (configToForm (ManagedSource.truncate s) n)"
  by (simp add: open_editor_def case_prod_beta Let_def)

lemma configToForm_enabled: "f_enabled (fst (configToForm s n)) = ms_enabled s"
  by (simp add: configToForm_def Let_def case_prod_beta)

lemma open_editor_submit:
  assumes "config_normal (orElse (ms_key_stored s) False) (ms_config s)" and "counts_nonzero (ms_config s)"
    and "ms_id s = Some i" and "i \<noteq> []"
  shows "snd (source_submit (Some s) (fst (open_editor (Some s) n))) =
    Some (Update_source i (ms_config s) (ms_enabled s) (ms_version s))"
  using formToConfig_configToForm [of "ManagedSource.truncate s" n] assms
  by (simp add: source_submit_def open_editor_form configToForm_enabled source_id_def nonempty_def hasErrors_iff
      ManagedSource.truncate_def)

lemma hasForwardErrors_empty [simp]: "\<not> hasForwardErrors emptyForwardErrors"
  by (simp add: hasForwardErrors_def emptyForwardErrors_def)

lemma open_dialog_submit:
  assumes "forward_normal (ft_config t)" and "ft_id t = Some i" and "i \<noteq> []"
  shows "snd (forward_submit (Some t) (open_dialog (Some t))) =
    Some (Update_target i \<lparr>fi_config = ft_config t, fi_token = None\<rparr> (ft_enabled t) (ft_version t))"
  using formToForwardInput_open [of "ManagedForwardTarget.truncate t"] assms
  by (simp add: forward_submit_def open_dialog_def nonempty_def ManagedForwardTarget.truncate_def)

lemma forward_submit_state:
  "snd (forward_submit (Some t) d) = Some (Update_target j inp on v) \<Longrightarrow> on = ft_enabled t \<and> v = ft_version t"
  by (auto simp: forward_submit_def Let_def case_prod_beta split: if_splits option.splits)

text \<open>Ticking a source adds its name and unticking removes every copy, as the saved configuration reads the field.\<close>

lemma toggleSource_names:
  assumes "list_item list_sep name"
  shows "forwardSourceNames (ff_sources (fd_form (toggleSource name on d))) =
    (if on then forwardSourceNames (ff_sources (fd_form d)) @ [name]
     else filter (\<lambda>n. n \<noteq> name) (forwardSourceNames (ff_sources (fd_form d))))"
proof -
  have "list_all (list_item list_sep) (forwardSourceNames t)" for t
    by (auto simp: forwardSourceNames_def list_all_iff intro: split_list_item)
  then have "list_all (list_item list_sep)
      (if on then forwardSourceNames (ff_sources (fd_form d)) @ [name]
       else filter (\<lambda>n. n \<noteq> name) (forwardSourceNames (ff_sources (fd_form d))))"
    using assms by (auto simp: list_all_iff)
  then show ?thesis
    by (simp add: toggleSource_def Let_def list_texts_join forwardSourceNames_def [of "join _ _"])
qed

text \<open>A source that cannot be deleted says nothing while the banner of an earlier conflict is up.\<close>

lemma delete_failure_hidden: "ed_conflict ed \<Longrightarrow> shown_general (delete_onError err ed) = []"
  by (simp add: shown_general_def delete_onError_def)

definition sample_detail :: SourceDetail where
  "sample_detail = ManagedSource.extend sample_source \<lparr>ms_version = Some 4, ms_origin_file = False\<rparr>"

definition sample_forward :: ForwardDetail where
  "sample_forward =
     ManagedForwardTarget.extend (sample_target\<lparr>ft_id := Some ''t1''\<rparr>) \<lparr>ft_version = Some 2\<rparr>"

lemma sample_detail_fields [simp]:
  "ms_config sample_detail = ms_config sample_source" "ms_key_stored sample_detail = ms_key_stored sample_source"
  "ms_id sample_detail = Some ''7''" "ms_enabled sample_detail" "ms_version sample_detail = Some 4"
  by (simp_all add: sample_detail_def ManagedSource.extend_def sample_source_def)

lemma sample_forward_fields [simp]:
  "ft_config sample_forward = ft_config sample_target" "ft_id sample_forward = Some ''t1''" "ft_enabled sample_forward"
  "ft_version sample_forward = Some 2"
  by (simp_all add: sample_forward_def ManagedForwardTarget.extend_def sample_target_def)

section \<open>Properties\<close>





end
