(* ===== verification/Spec2Isabelle.thy ===== *)
theory Spec2Isabelle
  imports Filter_Errors Source_Roundtrip Source_Problems Forward_Form Live_Tail Service_Catalog Api_Mutations
    Host_Utilisation Settings_Forms Query_Bar App_Routes Editors
begin

text \<open>
  A verification of the web front end of syslogc, a log collector with a search interface. The sources are the TypeScript
  modules under \<open>src/frontend/src\<close>; paths below are relative to it.

  \<^bold>\<open>The program.\<close> The interface reads and edits a query (a filter in a small text language, a native query, a
  time range, columns), keeps it in the URL, sends it to the server through hooks over an API client, and shows what comes
  back: rows, a live tail, aggregations and analyses. Other pages edit configuration: log sources, forward targets, a service
  catalog, retention. A local language model may propose a query.

  \<^bold>\<open>Conventions.\<close> A TypeScript function is a HOL function of the same name; a module variable or an object that is
  mutated is a record that is passed and returned; a thrown error is \<open>Inl\<close>, \<open>undefined\<close> and \<open>null\<close> are
  \<^const>\<open>None\<close>. A string is a list of code units from Latin-1, with the punctuation outside it that the sources
  print as named constants of \<open>Prelude\<close>. Numbers are natural numbers, integers or exact rationals (a double that
  is not exact, and negative zero, are not modelled), and 32-bit words where the source uses bit operations. Objects are
  association lists, a date is its milliseconds or \<^const>\<open>None\<close> when it is invalid. Regular expressions of the
  source are written out as functions.

  \<^bold>\<open>Parameters.\<close> What is not part of the sources is an argument: the engine for a user's regular expression, the
  collation of a locale, number and date formats of \<open>Intl\<close>, \<open>Date.parse\<close> and \<open>toISOString\<close> (with
  \<open>iso_text\<close>), the starts of days in a zone, random numbers, the answers of the network, the schema library
  (\<open>zod_laws\<close>), the query client (\<open>query_client_laws\<close>), the router (\<open>router_laws\<close>) and the JSON
  text of the preferences (\<open>json_laws\<close>). Each law states documented behaviour, and the witnesses instantiate it.

  \<^bold>\<open>Queries.\<close>
  \<^item> \<open>Filter_Text\<close> is \<open>lib/filter-text.ts\<close>: the AST, tokenizer, recursive descent parser and printer.
    \<open>Filter_Roundtrip\<close> shows that printing and parsing are inverse on canonical filters and that the parser builds only
    those (C1, C2), \<open>Filter_Errors\<close> that an error points into the text (C3).
  \<^item> \<open>Filter_Semantics\<close> is \<open>lib/filter-actions.ts\<close>, the filter builder and the evaluator of the mock
    server, the one evaluator the sources have (C5, C6). Its locale \<open>filter_semantics\<close> states what an evaluator
    promises. \<open>Log_Fields\<close> is \<open>lib/fields.ts\<close> (C8).
  \<^item> \<open>Time_Range\<close> is \<open>lib/time-range.ts\<close> and \<open>features/time-range/time-input.ts\<close> (C30--C32).
  \<^item> \<open>Web_Codecs\<close> is \<open>lib/base64url.ts\<close> over UTF-8, base 64 and form encoding (C29). \<open>Url_State\<close> is
    \<open>lib/url-state.ts\<close> and saved searches (C33, C34).
  \<^item> \<open>Explorer_Page\<close> is \<open>features/explorer/ExplorerPage.tsx\<close>: the page's state and handlers over the
    router, with \<open>explorer_step\<close> and the invariant of all states it reaches. \<open>Query_Bar\<close> is \<open>QueryBar.tsx\<close> and
    \<open>FilterBuilder.tsx\<close> above it: what every edit of the query means (C4), and that the editor opens what it accepted
    (C7). \<open>Assistant\<close> is
    \<open>features/assistant/assistant.ts\<close>; running a proposal shows exactly it (C24). C35 below goes from a key through
    the shortcuts, the page, the URL and the parser to the rows that are selected.

  \<^bold>\<open>The server.\<close>
  \<^item> \<open>Api_Client\<close> is \<open>api/client.ts\<close> (C40).
  \<^item> \<open>Api_Queries\<close> has every reading hook of \<open>api/hooks/index.ts\<close>: equal cache keys mean equal requests
    (C11), and loading page after page ends (C13). \<open>Api_Mutations\<close> has every writing hook: what a mutation touches is
    refetched or replaced (C16).
  \<^item> \<open>App_Routes\<close> is \<open>app/router.tsx\<close>, \<open>main.tsx\<close>, \<open>features/auth\<close> and the navigation of
    \<open>app/AppShell.tsx\<close> and \<open>app/CommandPalette.tsx\<close>: who sees which page (C12).
  \<^item> \<open>Ring_Buffer\<close> is \<open>lib/ring-buffer.ts\<close>, refining a bounded list (C23, locale \<open>bounded_fifo\<close>).
    \<open>Live_Tail\<close> is the store and the connection of \<open>features/live-tail\<close> (C25--C28).

  \<^bold>\<open>Configuration.\<close>
  \<^item> \<open>Source_Templates\<close>, \<open>Source_Form\<close>, \<open>Source_Roundtrip\<close> and \<open>Source_Problems\<close> are
    \<open>features/sources/source-form.ts\<close>: extract rules and templates (C14), the form and its configuration (C9,
    C10), problems, status and routes. \<open>Form_Fields\<close> has the text fields the editors share.
  \<^item> \<open>Problems\<close> places a server's complaints on the fields of a form, once for both editors (locales
    \<open>error_sink\<close> and \<open>placing\<close>). \<open>Forward_Form\<close> is the forward targets (C18).
  \<^item> \<open>Editors\<close> is \<open>features/sources/SourceDetailPage.tsx\<close> (C15) and
    \<open>features/forwarding/ForwardTargetDialog.tsx\<close> (C19): their state, submitting, and the server's refusals. The locale
    \<open>save_flow\<close> states what saving promises, and both editors interpret it.
  \<^item> \<open>Settings_Forms\<close> is retention (C20) and the audit query; \<open>Browser_State\<close> the preferences (C21) and
    the shortcuts (C22); \<open>Lib_Text\<close> the formats of \<open>lib\<close>.

  \<^bold>\<open>Analyses.\<close>
  \<^item> \<open>Analytics_Query\<close>, \<open>Service_Trends\<close> and \<open>Template_Analyses\<close> are the pages of
    \<open>features/analytics\<close>: their URL codecs (locale \<open>url_codec\<close>), charts, and the links from a row (locale
    \<open>narrowed_view\<close>; C36--C38). \<open>Service_Catalog\<close> is the catalog editor (C39).
  \<^item> \<open>Host_Utilisation\<close> is the meters and charts of the host (C17).

  \<^bold>\<open>Termination.\<close> Parsers and scanners are total functions with termination proofs; no fuel is used but the bound 5 of
  \<open>scale_bytes\<close>, the index of the largest unit, at which the loop of the source stops too. \<open>load_pages\<close> is
  partial, because the server decides when it ends; C13 shows that it does end for a server whose pages are not empty.
  \<open>follow\<close> is partial, because redirects could go in circles; C12 shows that they end.

  \<^bold>\<open>Not modelled.\<close> The markup of the pages, the effects of those other than the explorer, the two editors and the
  login, charts as drawings, the clipboard
  and downloads, the caching and polling of the query library, the demo server but for its evaluator of filters, type
  declarations without behaviour, the generated schema, the server (a program of its own in Go) and the deployment scripts.
\<close>

text \<open>C35. The filter shortcuts of the explorer, from the key to the rows: in any state the page can reach, pressing \<open>f\<close> (or
  \<open>x\<close>) on the value in focus leaves a URL that parses without an error into a filter which selects exactly the rows that
  have (or have not) this value and satisfy every other term of the filter before; the native query, the columns
  and the window stay; and the row the value was taken from is still (or no longer) selected.\<close>

theorem filter_shortcut_selects:
  assumes "zod_laws zod" and "router_laws zod R" and "page_ok R s0" and "explorer_reaches R s0 s"
    and "plain_key e" and "\<not> ke_alt e" and "ke_key e = (if ex then ''x'' else ''f'')"
    and "focusedValue R rows s = Some (f, v)" and "s' = snd (explorer_keydown R rows e (h, s))"
  shows "explorer_query R s' =
      \<lparr>dq_filter = addValueFilter (dq_filter (explorer_query R s)) f v ex, dq_native = dq_native (explorer_query R s),
       dq_error = None\<rparr> \<and>
    (\<forall>row. selects (matchFilter regexp) row (dq_filter (explorer_query R s')) \<longleftrightarrow>
       ((field_text row f = v) \<longleftrightarrow> \<not> ex) \<and>
       list_all (\<lambda>t. opposite_term f v t \<or> matchFilter regexp row t) (andTerms (dq_filter (explorer_query R s)))) \<and>
    explorer_columns R s' = explorer_columns R s \<and>
    es_from (explorer_search R s') = es_from (explorer_search R s) \<and> es_to (explorer_search R s') = es_to (explorer_search R s) \<and>
    (\<exists>row. selectedRow rows s = Some row \<and>
       (selects (matchFilter regexp) row (dq_filter (explorer_query R s)) \<longrightarrow>
        (selects (matchFilter regexp) row (dq_filter (explorer_query R s')) \<longleftrightarrow> \<not> ex)))"
proof -
  have ok: "explorer_ok R s" using explorer_reaches_ok [OF assms(1,2,4,3)] by (simp add: page_ok_def)
  let ?old = "dq_filter (explorer_query R s)" and ?new = "addValueFilter (dq_filter (explorer_query R s)) f v ex"
  obtain row where row: "selectedRow rows s = Some row" "field_text row f = v" and f: "f \<noteq> []"
    using focusedValue_field [OF assms(8)] by blast
  have s': "s' = setFilter R ?new s"
    using onKey_filter [OF assms(5,6), of R rows "(h, s)"] assms(7,8,9)
    by (cases ex) (simp_all add: explorer_handler_def onFilter_def onExclude_def)
  have "\<forall>e \<in> set_option ?old. canonical e" by (simp add: explorer_query_def decodeQuery_canonical)
  then have "pred_option canonical ?new" using addValueFilter_terms [of ?old f v ex] f by auto
  note upd = setFilter_shows [OF assms(1,2) ok this, folded s']
  have sem: "selects (matchFilter regexp) r ?new \<longleftrightarrow>
      ((field_text r f = v) \<longleftrightarrow> \<not> ex) \<and> list_all (\<lambda>t. opposite_term f v t \<or> matchFilter regexp r t) (andTerms ?old)" for r
    using mf.addValueFilter_sat [of regexp r ?old f v ex] by (simp add: list_all_iff)
  have kept: "explorer_columns R s' = explorer_columns R s" "es_from (explorer_search R s') = es_from (explorer_search R s)"
    "es_to (explorer_search R s') = es_to (explorer_search R s)"
    using upd(2) [of "''cols''"] upd(2) [of "''from''"] upd(2) [of "''to''"]
    by (simp_all add: explorer_columns_def explorer_search_def search_of_def)
  have "selects (matchFilter regexp) row ?old \<Longrightarrow> selects (matchFilter regexp) row ?new \<longleftrightarrow> \<not> ex"
    using sem [of row] row(2) mf.andTerms_sat [of regexp row ?old] by (auto simp: list_all_iff)
  then show ?thesis using upd(1) sem kept row(1) by auto
qed

definition sample_key :: "string \<Rightarrow> KeyEvent" where
  "sample_key k = \<lparr>ke_key = k, ke_mod = False, ke_alt = False, ke_typing = False\<rparr>"

definition sample_explorer :: "string list Explorer" where
  "sample_explorer =
     snd (explorer_keydown sample_router [sample_row] (sample_key ''j'') (hotkeys_init, explorer_init []))"

theorem filter_shortcut_selects_witness:
  "focusedValue sample_router [sample_row] sample_explorer = Some (''_time'', ''t'') \<and>
   dq_filter (explorer_query sample_router
     (snd (explorer_keydown sample_router [sample_row] (sample_key ''f'') (hotkeys_init, sample_explorer)))) =
   Some (FieldValueExpr Eq ''_time'' ''t'')"
proof -
  have reach: "explorer_reaches sample_router (explorer_init []) sample_explorer"
    unfolding explorer_reaches_def sample_explorer_def by (rule r_into_rtranclp, rule explorer_step.key)
  have fv: "focusedValue sample_router [sample_row] sample_explorer = Some (''_time'', ''t'')" by code_simp
  have old: "dq_filter (explorer_query sample_router sample_explorer) = None" by code_simp
  from filter_shortcut_selects [OF sample_zod_laws sample_router_laws sample_start_ok reach _ _ _ fv refl,
      of "sample_key ''f''" False hotkeys_init]
  show ?thesis
    by (simp add: fv old sample_key_def plain_key_def addValueFilter_def andTerms_def combineAnd_def)
qed

end
